(* ===== verification/Prelude.thy ===== *)
theory Prelude
  imports Main "HOL-Library.Word" "HOL-Library.Monad_Syntax" "HOL-Library.Multiset"
    "HOL-Library.Char_ord" "HOL-Library.List_Lexorder"
begin

text \<open>
  Shared vocabulary of the development: the machine types of the RMW C ABI, the return codes
  that the code's branches produce, the characterisation of \<^verbatim>\<open>nullptr\<close>, and the generic
  lemmas on words, options and lists that several components use.
\<close>

section \<open>Machine types\<close>

type_synonym uint8 = "8 word"
type_synonym int32 = "32 word"
type_synonym uint32 = "32 word"
type_synonym int64 = "64 word"
type_synonym uint64 = "64 word"
type_synonym size_t = "64 word"

text \<open>
  A pointer is its address; \<^verbatim>\<open>nullptr\<close> is 0. Signed and unsigned integers of the same width
  share a word type: \<open>sint\<close> reads the signed value, \<open>uint\<close> and \<open>unat\<close> the unsigned one.
\<close>

type_synonym ptr = nat

abbreviation (input) nullptr :: ptr where
  "nullptr \<equiv> 0"

text \<open>Null checks stay in the form \<open>p \<noteq> nullptr\<close>: the simplifier does not turn them into \<open>0 < p\<close>.\<close>

declare neq0_conv [iff del] bot_nat_0.not_eq_extremum [simp del]

text \<open>The casts the code writes as \<^verbatim>\<open>static_cast\<close>: sign extension and truncation.\<close>

abbreviation (input) size_of_int32 :: "int32 \<Rightarrow> size_t" where
  "size_of_int32 x \<equiv> scast x"

definition int32_max :: uint64 where
  "int32_max = 2147483647"

section \<open>Return codes\<close>

datatype rmw_ret =
    RMW_RET_OK
  | RMW_RET_ERROR
  | RMW_RET_TIMEOUT
  | RMW_RET_UNSUPPORTED
  | RMW_RET_BAD_ALLOC
  | RMW_RET_INVALID_ARGUMENT
  | RMW_RET_INCORRECT_RMW_IMPLEMENTATION

datatype dds_ret =
    DDS_RETCODE_OK
  | DDS_RETCODE_ERROR
  | DDS_RETCODE_TIMEOUT
  | DDS_RETCODE_NO_DATA
  | DDS_RETCODE_OUT_OF_RESOURCES
  | DDS_RETCODE_OTHER nat

section \<open>Implementation identifiers\<close>

text \<open>
  Every public handle carries an \<^verbatim>\<open>implementation_identifier\<close>. The code compares the pointer
  itself with \<^verbatim>\<open>rmw_zzdds_cpp::identifier\<close>, so only three cases can be told apart.
\<close>

datatype impl_id = NullIdentifier | ZzddsIdentifier | ForeignIdentifier nat

section \<open>Collections of facts\<close>

named_theorems model_defs \<open>definitions of the modelled operations\<close>
named_theorems frame \<open>what an operation leaves unchanged\<close>

section \<open>Words\<close>

lemma sint_of_nat_32:
  assumes "n < 2 ^ 31"
  shows "sint (of_nat n :: 32 word) = int n"
  using assms by (simp add: signed_of_nat signed_take_bit_int_eq_self)

lemma scast_of_nat_32_64:
  assumes "n < 2 ^ 31"
  shows "(scast (of_nat n :: 32 word) :: 64 word) = of_nat n"
  using assms by (simp add: scast_eq sint_of_nat_32)

lemma scast_32_64_unat:
  assumes "0 \<le> sint (x :: 32 word)"
  shows "unat (scast x :: 64 word) = nat (sint x)"
proof -
  have "sint x < 2 ^ 64"
    using sint_lt [of x] by simp
  then have "take_bit 64 (sint x) = sint x"
    using assms by (simp only: take_bit_int_eq_self_iff)
  then have "uint (scast x :: 64 word) = sint x"
    unfolding scast_eq unsigned_of_int using assms by simp
  then show ?thesis
    by (simp only: unat_eq_nat_uint)
qed

lemma ucast_scast_32_64: "ucast (scast (x :: 32 word) :: 64 word) = x"
  by transfer (simp add: take_bit_signed_take_bit)

lemma of_nat_64_inject:
  assumes "m < 2 ^ 64" and "n < 2 ^ 64" and "(of_nat m :: 64 word) = of_nat n"
  shows "m = n"
proof -
  have "unat (of_nat m :: 64 word) = m" "unat (of_nat n :: 64 word) = n"
    using assms(1,2) by (simp_all add: unat_of_nat)
  with assms(3) show ?thesis by metis
qed

section \<open>Strings\<close>

definition starts_with :: "string \<Rightarrow> string \<Rightarrow> bool" where
  "starts_with s p \<longleftrightarrow> take (length p) s = p"

definition ends_with :: "string \<Rightarrow> string \<Rightarrow> bool" where
  "ends_with s p \<longleftrightarrow> length p \<le> length s \<and> drop (length s - length p) s = p"

lemma starts_with_append [simp]: "starts_with (p @ s) p"
  by (simp add: starts_with_def)

lemma ends_with_append [simp]: "ends_with (s @ p) p"
  by (simp add: ends_with_def)

lemma starts_with_iff: "starts_with s p \<longleftrightarrow> (\<exists>r. s = p @ r)"
  by (metis append_take_drop_id starts_with_append starts_with_def)

lemma ends_with_iff: "ends_with s p \<longleftrightarrow> (\<exists>r. s = r @ p)"
  by (metis append_take_drop_id ends_with_append ends_with_def)

end
