(* ===== verification/Durations.thy ===== *)
theory Durations
  imports Prelude
begin

text \<open>
  The two conversions of an \<^verbatim>\<open>rmw_time_t\<close> to a \<^verbatim>\<open>DDS_Duration_t\<close>: \<^verbatim>\<open>to_dds_duration\<close> of
  \<^verbatim>\<open>rmw_wait.cpp\<close> for wait sets, and the one inside \<^verbatim>\<open>rmw_publisher_wait_for_all_acked\<close>. All
  arithmetic is on 64-bit words as in the code, so every overflow check is part of the model.
\<close>

section \<open>Times and durations\<close>

record rmw_time =
  time_sec :: uint64
  time_nsec :: uint64

record dds_duration =
  dur_sec :: int32
  dur_nanosec :: uint32

definition billion :: uint64 where
  "billion = 1000000000"

text \<open>
  \<open>dds_infinite\<close> is the DDS constant for an infinite duration, from the headers of zzdds; the finite
  branch of the conversions does not depend on it.
\<close>

definition to_dds_duration :: "dds_duration \<Rightarrow> rmw_time option \<Rightarrow> dds_duration option" where
  "to_dds_duration dds_infinite timeout =
     (case timeout of
        None \<Rightarrow> Some dds_infinite
      | Some t \<Rightarrow>
          let extra_seconds = time_nsec t div billion in
          if time_sec t > - 1 - extra_seconds then None
          else let seconds = time_sec t + extra_seconds in
            if seconds > int32_max then None
            else Some \<lparr>dur_sec = ucast seconds, dur_nanosec = ucast (time_nsec t mod billion)\<rparr>)"

text \<open>The infinite timeout of \<^verbatim>\<open>rmw_publisher_wait_for_all_acked\<close>: the largest representable one.\<close>

definition ack_forever :: "rmw_time \<Rightarrow> bool" where
  "ack_forever t \<longleftrightarrow> time_sec t = 9223372036 \<and> time_nsec t = 854775807"

definition ack_duration :: "dds_duration \<Rightarrow> rmw_time \<Rightarrow> dds_duration option" where
  "ack_duration dds_infinite t =
     (if ack_forever t then Some dds_infinite
      else let extra_seconds = time_nsec t div billion in
        if time_sec t > int32_max \<or> extra_seconds > int32_max - time_sec t then None
        else Some \<lparr>dur_sec = ucast (time_sec t + extra_seconds),
                   dur_nanosec = ucast (time_nsec t mod billion)\<rparr>)"

section \<open>The time a duration denotes\<close>

definition time_in_ns :: "rmw_time \<Rightarrow> nat" where
  "time_in_ns t = unat (time_sec t) * 1000000000 + unat (time_nsec t)"

definition duration_in_ns :: "dds_duration \<Rightarrow> int" where
  "duration_in_ns d = sint (dur_sec d) * 1000000000 + int (unat (dur_nanosec d))"

definition normalized :: "dds_duration \<Rightarrow> bool" where
  "normalized d \<longleftrightarrow> 0 \<le> sint (dur_sec d) \<and> unat (dur_nanosec d) < 1000000000"

section \<open>Lemmas\<close>

lemma unat_billion [simp]: "unat billion = 1000000000"
  by (simp add: billion_def)

lemma unat_int32_max [simp]: "unat int32_max = 2147483647"
  by (simp add: int32_max_def)

lemma unat_minus_one_minus: "unat (- 1 - x :: 64 word) = 2 ^ 64 - 1 - unat x"
proof -
  have "x \<le> - 1" by simp
  then have "unat (- 1 - x) = unat (- 1 :: 64 word) - unat x"
    by (rule unat_sub)
  also have "unat (- 1 :: 64 word) = 2 ^ 64 - 1"
    by (simp add: unsigned_minus_1_eq_mask mask_eq_exp_minus_1)
  finally show ?thesis by simp
qed

lemma extra_seconds_sum:
  assumes "\<not> s > - 1 - (n div billion)"
  shows "unat (s + n div billion) = unat s + unat n div 1000000000"
proof -
  have "unat s \<le> 2 ^ 64 - 1 - unat (n div billion)"
    using assms unat_minus_one_minus [of "n div billion"] by (simp add: word_le_nat_alt not_less)
  then have "unat s + unat (n div billion) < 2 ^ LENGTH(64)"
    using unsigned_less [of "n div billion", where ?'a = nat] by simp
  then show ?thesis
    by (simp add: unat_add_lem [THEN iffD1] unat_div)
qed

lemma seconds_to_int32:
  assumes "unat (s :: 64 word) < 2 ^ 31"
  shows "sint (ucast s :: 32 word) = int (unat s)"
proof -
  have "(ucast s :: 32 word) = of_nat (unat s)"
    by simp
  then show ?thesis
    using sint_of_nat_32 [OF assms] by metis
qed

lemma nanoseconds_to_uint32:
  "unat (ucast (n mod billion :: 64 word) :: 32 word) = unat n mod 1000000000"
proof -
  have "unat (n mod billion) = unat n mod 1000000000"
    by (simp add: unat_mod)
  moreover have "unat n mod 1000000000 < 2 ^ 32"
    by (rule less_trans [of _ 1000000000]) simp_all
  ultimately show ?thesis
    by (simp add: unsigned_ucast_eq take_bit_nat_eq_self)
qed

lemma duration_of_parts:
  assumes "unat s = unat sec + unat n div 1000000000" and "unat (s :: 64 word) < 2 ^ 31"
  shows "duration_in_ns \<lparr>dur_sec = ucast s, dur_nanosec = ucast (n mod billion)\<rparr> =
      int (time_in_ns \<lparr>time_sec = sec, time_nsec = n\<rparr>)"
    and "normalized \<lparr>dur_sec = ucast s, dur_nanosec = ucast (n mod billion)\<rparr>"
proof -
  have "int (unat sec) * 1000000000 + int (unat n) =
      (int (unat sec) + int (unat n div 1000000000)) * 1000000000 + int (unat n mod 1000000000)"
    by (simp add: algebra_simps zdiv_int zmod_int)
  then show "duration_in_ns \<lparr>dur_sec = ucast s, dur_nanosec = ucast (n mod billion)\<rparr> =
      int (time_in_ns \<lparr>time_sec = sec, time_nsec = n\<rparr>)"
    using assms seconds_to_int32 [OF assms(2)]
    by (simp add: duration_in_ns_def time_in_ns_def nanoseconds_to_uint32 del: of_nat_unat)
  show "normalized \<lparr>dur_sec = ucast s, dur_nanosec = ucast (n mod billion)\<rparr>"
    using seconds_to_int32 [OF assms(2)] by (simp add: normalized_def nanoseconds_to_uint32)
qed

lemma seconds_bound:
  "time_in_ns \<lparr>time_sec = sec, time_nsec = n\<rparr> < 2147483648000000000 \<longleftrightarrow>
     unat sec + unat n div 1000000000 < 2147483648"
  unfolding time_in_ns_def by simp linarith

section \<open>Properties\<close>

text \<open>
  C9. A finite wait timeout is accepted exactly when its total, nanoseconds normalised, is below
  2 to the 31 seconds, and the accepted duration denotes the same time and is normalised.
\<close>

theorem to_dds_duration_exact:
  "case to_dds_duration dds_infinite (Some t) of
     None \<Rightarrow> 2 ^ 31 * 1000000000 \<le> time_in_ns t
   | Some d \<Rightarrow> time_in_ns t < 2 ^ 31 * 1000000000 \<and> normalized d \<and> duration_in_ns d = int (time_in_ns t)"
proof -
  obtain sec n where t: "t = \<lparr>time_sec = sec, time_nsec = n\<rparr>" by (cases t)
  show ?thesis
  proof (cases "sec > - 1 - n div billion")
    case True
    then have "2 ^ 64 - 1 - unat n div 1000000000 < unat sec"
      using unat_minus_one_minus [of "n div billion"] by (simp add: word_less_nat_alt unat_div)
    then have "\<not> unat sec + unat n div 1000000000 < 2 ^ 31" by simp
    with True t show ?thesis
      by (simp add: to_dds_duration_def seconds_bound flip: not_less)
  next
    case False
    note sum = extra_seconds_sum [OF False]
    have big: "sec + n div billion > int32_max \<longleftrightarrow> \<not> unat sec + unat n div 1000000000 < 2 ^ 31"
      using sum by (auto simp: word_less_nat_alt)
    show ?thesis
    proof (cases "sec + n div billion > int32_max")
      case True
      with False t big show ?thesis
        by (simp add: to_dds_duration_def seconds_bound flip: not_less)
    next
      case small: False
      with big sum have "unat (sec + n div billion) < 2 ^ 31" by simp
      from duration_of_parts [OF sum this] False small t big show ?thesis
        by (simp add: to_dds_duration_def seconds_bound flip: not_less)
    qed
  qed
qed

text \<open>
  C14. The two conversions of a timeout differ in one time only: the value that stands for an infinite
  timeout is infinite for the acknowledgment wait and refused by the wait set. For every other time
  the two overflow checks, written differently, accept the same times and give the same duration.
\<close>

theorem ack_duration_agrees:
  "if t = \<lparr>time_sec = 9223372036, time_nsec = 854775807\<rparr>
   then ack_duration dds_infinite t = Some dds_infinite \<and> to_dds_duration dds_infinite (Some t) = None
   else ack_duration dds_infinite t = to_dds_duration dds_infinite (Some t)"
proof -
  obtain sec n where t: "t = \<lparr>time_sec = sec, time_nsec = n\<rparr>" by (cases t)
  have ack: "(sec > int32_max \<or> n div billion > int32_max - sec) \<longleftrightarrow>
      \<not> unat sec + unat n div 1000000000 < 2 ^ 31"
  proof (cases "sec > int32_max")
    case False
    then have "sec \<le> int32_max" by simp
    with False show ?thesis
      by (auto simp: word_less_nat_alt unat_sub unat_div)
  qed (auto simp: word_less_nat_alt)
  have wait: "sec > - 1 - n div billion \<or> sec + n div billion > int32_max \<longleftrightarrow>
      \<not> unat sec + unat n div 1000000000 < 2 ^ 31"
  proof (cases "sec > - 1 - n div billion")
    case True
    then have "2 ^ 64 - 1 - unat n div 1000000000 < unat sec"
      using unat_minus_one_minus [of "n div billion"] by (simp add: word_less_nat_alt unat_div)
    with True show ?thesis by simp
  next
    case False
    from extra_seconds_sum [OF this] False show ?thesis
      by (auto simp: word_less_nat_alt)
  qed
  show ?thesis
  proof (cases "ack_forever t")
    case True
    with t show ?thesis
      by (simp add: ack_forever_def ack_duration_def to_dds_duration_def int32_max_def billion_def)
  next
    case False
    with ack wait t show ?thesis
      by (auto simp: ack_forever_def ack_duration_def to_dds_duration_def Let_def)
  qed
qed

theorem ack_duration_agrees_witness:
  "ack_duration \<lparr>dur_sec = 2147483647, dur_nanosec = 2147483647\<rparr> \<lparr>time_sec = 1, time_nsec = 2500000000\<rparr> =
    Some \<lparr>dur_sec = 3, dur_nanosec = 500000000\<rparr>"
  using ack_duration_agrees [of "\<lparr>time_sec = 1, time_nsec = 2500000000\<rparr>"
      "\<lparr>dur_sec = 2147483647, dur_nanosec = 2147483647\<rparr>"]
  by (simp add: to_dds_duration_def billion_def int32_max_def)

end
