(* ===== verification/Qos.thy ===== *)
theory Qos
  imports Durations
begin

text \<open>
  The QoS translation of \<^verbatim>\<open>rmw_data_plane.cpp\<close>: \<^verbatim>\<open>apply_qos\<close> writes an RMW profile's policies into
  a DDS endpoint QoS that starts from the DDS defaults, \<^verbatim>\<open>resolved_qos\<close> reads the effective
  policies back into the profile reported by \<^verbatim>\<open>rmw_*_get_actual_qos\<close>.
\<close>

section \<open>Policies\<close>

text \<open>
  The policies the code names; \<open>..._OTHER\<close> stands for every further value of the C enumerations
  (unknown, best available, ...), which all take the \<^verbatim>\<open>default\<close> branch.
\<close>

datatype rmw_reliability =
  RELIABILITY_SYSTEM_DEFAULT | RELIABILITY_RELIABLE | RELIABILITY_BEST_EFFORT | RELIABILITY_OTHER nat

datatype rmw_durability =
  DURABILITY_SYSTEM_DEFAULT | DURABILITY_VOLATILE | DURABILITY_TRANSIENT_LOCAL | DURABILITY_OTHER nat

datatype rmw_history =
  HISTORY_SYSTEM_DEFAULT | HISTORY_KEEP_LAST | HISTORY_KEEP_ALL | HISTORY_OTHER nat

datatype rmw_liveliness =
  LIVELINESS_SYSTEM_DEFAULT | LIVELINESS_AUTOMATIC | LIVELINESS_MANUAL_BY_TOPIC | LIVELINESS_OTHER nat

record rmw_qos_profile =
  history :: rmw_history
  depth :: size_t
  reliability :: rmw_reliability
  durability :: rmw_durability
  deadline :: rmw_time
  lifespan :: rmw_time
  liveliness :: rmw_liveliness
  liveliness_lease_duration :: rmw_time
  avoid_ros_namespace_conventions :: bool

datatype dds_reliability = DDS_BEST_EFFORT | DDS_RELIABLE

datatype dds_durability = DDS_VOLATILE | DDS_TRANSIENT_LOCAL | DDS_DURABILITY_OTHER nat

datatype dds_history = DDS_KEEP_LAST | DDS_KEEP_ALL

datatype dds_liveliness = DDS_AUTOMATIC | DDS_MANUAL_BY_PARTICIPANT | DDS_MANUAL_BY_TOPIC

text \<open>
  The fields of \<^verbatim>\<open>DDS_DataWriterQos\<close> and \<^verbatim>\<open>DDS_DataReaderQos\<close> that the translation reads or writes,
  and the three periods of the profile that have a DDS counterpart; the rest of the structure is
  the record extension.
\<close>

record dds_qos =
  reliability_kind :: dds_reliability
  durability_kind :: dds_durability
  history_kind :: dds_history
  history_depth :: int32
  liveliness_kind :: dds_liveliness
  deadline_period :: dds_duration
  lifespan_duration :: dds_duration
  lease_duration :: dds_duration

section \<open>Applying a profile\<close>

text \<open>
  Each step is one \<^verbatim>\<open>switch\<close>: whether it succeeded, and the target it leaves behind. A failing
  step returns at once, with the policies written before it still in the target.
\<close>

definition apply_reliability :: "rmw_qos_profile \<Rightarrow> 'a dds_qos_scheme \<Rightarrow> bool \<times> 'a dds_qos_scheme" where
  "apply_reliability source target =
     (case reliability source of
        RELIABILITY_SYSTEM_DEFAULT \<Rightarrow> (True, target)
      | RELIABILITY_RELIABLE \<Rightarrow> (True, target\<lparr>reliability_kind := DDS_RELIABLE\<rparr>)
      | RELIABILITY_BEST_EFFORT \<Rightarrow> (True, target\<lparr>reliability_kind := DDS_BEST_EFFORT\<rparr>)
      | RELIABILITY_OTHER _ \<Rightarrow> (False, target))"

definition apply_durability :: "rmw_qos_profile \<Rightarrow> 'a dds_qos_scheme \<Rightarrow> bool \<times> 'a dds_qos_scheme" where
  "apply_durability source target =
     (case durability source of
        DURABILITY_SYSTEM_DEFAULT \<Rightarrow> (True, target)
      | DURABILITY_VOLATILE \<Rightarrow> (True, target\<lparr>durability_kind := DDS_VOLATILE\<rparr>)
      | DURABILITY_TRANSIENT_LOCAL \<Rightarrow> (True, target\<lparr>durability_kind := DDS_TRANSIENT_LOCAL\<rparr>)
      | DURABILITY_OTHER _ \<Rightarrow> (False, target))"

definition apply_history :: "rmw_qos_profile \<Rightarrow> 'a dds_qos_scheme \<Rightarrow> bool \<times> 'a dds_qos_scheme" where
  "apply_history source target =
     (case history source of
        HISTORY_SYSTEM_DEFAULT \<Rightarrow> (True, target)
      | HISTORY_KEEP_ALL \<Rightarrow> (True, target\<lparr>history_kind := DDS_KEEP_ALL\<rparr>)
      | HISTORY_KEEP_LAST \<Rightarrow>
          if depth source > int32_max then (False, target)
          else (True, target\<lparr>history_kind := DDS_KEEP_LAST, history_depth := ucast (depth source)\<rparr>)
      | HISTORY_OTHER _ \<Rightarrow> (False, target))"

definition apply_liveliness :: "rmw_qos_profile \<Rightarrow> 'a dds_qos_scheme \<Rightarrow> bool \<times> 'a dds_qos_scheme" where
  "apply_liveliness source target =
     (case liveliness source of
        LIVELINESS_SYSTEM_DEFAULT \<Rightarrow> (True, target\<lparr>liveliness_kind := DDS_AUTOMATIC\<rparr>)
      | LIVELINESS_AUTOMATIC \<Rightarrow> (True, target\<lparr>liveliness_kind := DDS_AUTOMATIC\<rparr>)
      | LIVELINESS_MANUAL_BY_TOPIC \<Rightarrow> (True, target\<lparr>liveliness_kind := DDS_MANUAL_BY_TOPIC\<rparr>)
      | LIVELINESS_OTHER _ \<Rightarrow> (False, target))"

definition apply_qos :: "rmw_qos_profile \<Rightarrow> 'a dds_qos_scheme \<Rightarrow> bool \<times> 'a dds_qos_scheme" where
  "apply_qos source target =
     (let (ok, target) = apply_reliability source target in
      if \<not> ok then (False, target) else
      let (ok, target) = apply_durability source target in
      if \<not> ok then (False, target) else
      let (ok, target) = apply_history source target in
      if \<not> ok then (False, target) else
      apply_liveliness source target)"

section \<open>Reading the effective policies back\<close>

definition resolved_qos :: "rmw_qos_profile \<Rightarrow> 'a dds_qos_scheme \<Rightarrow> rmw_qos_profile" where
  "resolved_qos requested applied =
     requested
       \<lparr>reliability := (if reliability_kind applied = DDS_RELIABLE then RELIABILITY_RELIABLE
                        else RELIABILITY_BEST_EFFORT),
        durability := (if durability_kind applied = DDS_TRANSIENT_LOCAL then DURABILITY_TRANSIENT_LOCAL
                       else DURABILITY_VOLATILE),
        history := (if history_kind applied = DDS_KEEP_ALL then HISTORY_KEEP_ALL else HISTORY_KEEP_LAST),
        depth := (if history_kind applied = DDS_KEEP_ALL then 0
                  else if sint (history_depth applied) < 0 then 0
                  else size_of_int32 (history_depth applied)),
        liveliness := (if liveliness_kind applied = DDS_MANUAL_BY_TOPIC then LIVELINESS_MANUAL_BY_TOPIC
                       else LIVELINESS_AUTOMATIC)\<rparr>"

section \<open>Lemmas\<close>

definition supported :: "rmw_qos_profile \<Rightarrow> bool" where
  "supported q \<longleftrightarrow>
     \<not> (\<exists>n. reliability q = RELIABILITY_OTHER n) \<and> \<not> (\<exists>n. durability q = DURABILITY_OTHER n) \<and>
     \<not> (\<exists>n. history q = HISTORY_OTHER n) \<and> \<not> (\<exists>n. liveliness q = LIVELINESS_OTHER n) \<and>
     (history q = HISTORY_KEEP_LAST \<longrightarrow> unat (depth q) < 2 ^ 31)"

lemmas apply_qos_defs = apply_qos_def apply_reliability_def apply_durability_def apply_history_def
  apply_liveliness_def

lemmas policy_splits = rmw_reliability.splits rmw_durability.splits rmw_history.splits
  rmw_liveliness.splits if_splits

lemma depth_gt_int32_max: "(d :: size_t) > int32_max \<longleftrightarrow> \<not> unat d < 2147483648"
  by (auto simp: word_less_nat_alt)

lemma apply_qos_ok_iff: "fst (apply_qos source target) \<longleftrightarrow> supported source"
  by (simp add: apply_qos_defs supported_def depth_gt_int32_max Let_def split: policy_splits)

lemma depth_roundtrip:
  assumes "unat (d :: size_t) < 2147483648"
  shows "0 \<le> sint (ucast d :: int32)" and "size_of_int32 (ucast d) = d"
proof -
  have s: "sint (ucast d :: 32 word) = int (unat d)"
    using seconds_to_int32 [of d] assms by simp
  then show "0 \<le> sint (ucast d :: int32)" by simp
  then have "unat (scast (ucast d :: 32 word) :: 64 word) = unat d"
    using s by (simp only: scast_32_64_unat nat_int)
  then show "size_of_int32 (ucast d) = d"
    by (simp only: word_unat_eq_iff)
qed

text \<open>On a supported profile the four steps succeed and write one field group each.\<close>

lemma apply_reliability_ok:
  assumes "supported source"
  shows "apply_reliability source target = (True, target
    \<lparr>reliability_kind := (case reliability source of RELIABILITY_RELIABLE \<Rightarrow> DDS_RELIABLE
       | RELIABILITY_BEST_EFFORT \<Rightarrow> DDS_BEST_EFFORT | _ \<Rightarrow> reliability_kind target)\<rparr>)"
  using assms by (cases "reliability source") (auto simp: apply_reliability_def supported_def)

lemma apply_durability_ok:
  assumes "supported source"
  shows "apply_durability source target = (True, target
    \<lparr>durability_kind := (case durability source of DURABILITY_VOLATILE \<Rightarrow> DDS_VOLATILE
       | DURABILITY_TRANSIENT_LOCAL \<Rightarrow> DDS_TRANSIENT_LOCAL | _ \<Rightarrow> durability_kind target)\<rparr>)"
  using assms by (cases "durability source") (auto simp: apply_durability_def supported_def)

lemma apply_history_ok:
  assumes "supported source"
  shows "apply_history source target = (True, target
    \<lparr>history_kind := (case history source of HISTORY_KEEP_ALL \<Rightarrow> DDS_KEEP_ALL
       | HISTORY_KEEP_LAST \<Rightarrow> DDS_KEEP_LAST | _ \<Rightarrow> history_kind target),
     history_depth := (if history source = HISTORY_KEEP_LAST then ucast (depth source)
       else history_depth target)\<rparr>)"
  using assms by (cases "history source") (auto simp: apply_history_def supported_def depth_gt_int32_max)

lemma apply_liveliness_ok:
  assumes "supported source"
  shows "apply_liveliness source target = (True, target
    \<lparr>liveliness_kind := (case liveliness source of LIVELINESS_MANUAL_BY_TOPIC \<Rightarrow> DDS_MANUAL_BY_TOPIC
       | _ \<Rightarrow> DDS_AUTOMATIC)\<rparr>)"
  using assms by (cases "liveliness source") (auto simp: apply_liveliness_def supported_def)

lemmas apply_steps_ok = apply_reliability_ok apply_durability_ok apply_history_ok apply_liveliness_ok

section \<open>Properties\<close>

text \<open>
  C10. In a profile that is accepted none of the policies is unsupported and a keep-last depth
  fits DDS; the actual QoS repeats every policy the caller chose and takes the DDS default for
  every policy left to the system.
\<close>

theorem actual_qos_of_accepted:
  assumes "apply_qos source target = (True, applied)"
  shows "let actual = resolved_qos source applied; default = resolved_qos source target in
    supported source \<and>
    reliability actual = (if reliability source = RELIABILITY_SYSTEM_DEFAULT
      then reliability default else reliability source) \<and>
    durability actual = (if durability source = DURABILITY_SYSTEM_DEFAULT
      then durability default else durability source) \<and>
    history actual = (if history source = HISTORY_SYSTEM_DEFAULT
      then history default else history source) \<and>
    depth actual = (case history source of HISTORY_KEEP_LAST \<Rightarrow> depth source
      | HISTORY_KEEP_ALL \<Rightarrow> 0 | _ \<Rightarrow> depth default) \<and>
    liveliness actual = (if liveliness source = LIVELINESS_SYSTEM_DEFAULT
      then LIVELINESS_AUTOMATIC else liveliness source)"
proof -
  have sup: "supported source"
    using apply_qos_ok_iff [of source target] assms by simp
  have keep_last: "history source = HISTORY_KEEP_LAST \<Longrightarrow> unat (depth source) < 2147483648"
    using sup by (simp add: supported_def)
  have applied: "applied = snd (apply_qos source target)"
    using assms by simp
  have "reliability (resolved_qos source applied) = (if reliability source = RELIABILITY_SYSTEM_DEFAULT
      then reliability (resolved_qos source target) else reliability source)"
    using sup unfolding applied
    by (cases "reliability source")
      (auto simp: apply_qos_def apply_steps_ok [OF sup] resolved_qos_def supported_def)
  moreover have "durability (resolved_qos source applied) = (if durability source = DURABILITY_SYSTEM_DEFAULT
      then durability (resolved_qos source target) else durability source)"
    using sup unfolding applied
    by (cases "durability source")
      (auto simp: apply_qos_def apply_steps_ok [OF sup] resolved_qos_def supported_def)
  moreover have "history (resolved_qos source applied) = (if history source = HISTORY_SYSTEM_DEFAULT
      then history (resolved_qos source target) else history source)"
    using sup unfolding applied
    by (cases "history source")
      (auto simp: apply_qos_def apply_steps_ok [OF sup] resolved_qos_def supported_def)
  moreover have "depth (resolved_qos source applied) = (case history source of
      HISTORY_KEEP_LAST \<Rightarrow> depth source | HISTORY_KEEP_ALL \<Rightarrow> 0
      | _ \<Rightarrow> depth (resolved_qos source target))"
    using sup depth_roundtrip [OF keep_last] unfolding applied
    by (cases "history source")
      (auto simp: apply_qos_def apply_steps_ok [OF sup] resolved_qos_def supported_def)
  moreover have "liveliness (resolved_qos source applied) = (if liveliness source = LIVELINESS_SYSTEM_DEFAULT
      then LIVELINESS_AUTOMATIC else liveliness source)"
    using sup unfolding applied
    by (cases "liveliness source")
      (auto simp: apply_qos_def apply_steps_ok [OF sup] resolved_qos_def supported_def)
  ultimately show ?thesis using sup by (simp add: Let_def)
qed


definition example_profile :: rmw_qos_profile where
  "example_profile = \<lparr>history = HISTORY_KEEP_LAST, depth = 5, reliability = RELIABILITY_BEST_EFFORT,
     durability = DURABILITY_SYSTEM_DEFAULT, deadline = \<lparr>time_sec = 1, time_nsec = 0\<rparr>,
     lifespan = \<lparr>time_sec = 0, time_nsec = 0\<rparr>, liveliness = LIVELINESS_SYSTEM_DEFAULT,
     liveliness_lease_duration = \<lparr>time_sec = 0, time_nsec = 0\<rparr>, avoid_ros_namespace_conventions = False\<rparr>"

definition example_default :: dds_qos where
  "example_default = \<lparr>reliability_kind = DDS_RELIABLE, durability_kind = DDS_VOLATILE,
     history_kind = DDS_KEEP_LAST, history_depth = 1, liveliness_kind = DDS_AUTOMATIC,
     deadline_period = \<lparr>dur_sec = 2147483647, dur_nanosec = 2147483647\<rparr>,
     lifespan_duration = \<lparr>dur_sec = 2147483647, dur_nanosec = 2147483647\<rparr>,
     lease_duration = \<lparr>dur_sec = 2147483647, dur_nanosec = 2147483647\<rparr>\<rparr>"

theorem actual_qos_of_accepted_witness:
  "depth (resolved_qos example_profile (snd (apply_qos example_profile example_default))) = 5"
proof -
  have "apply_qos example_profile example_default =
      (True, snd (apply_qos example_profile example_default))"
    by (simp add: apply_qos_defs example_profile_def int32_max_def)
  from actual_qos_of_accepted [OF this] show ?thesis
    by (simp add: Let_def example_profile_def)
qed

text \<open>
  The reported QoS is a fixed point: applying it again to an endpoint that has it accepts it and
  changes nothing, so a publisher created from another's actual QoS is configured alike.
\<close>

theorem actual_qos_idempotent:
  assumes "durability_kind applied \<in> {DDS_VOLATILE, DDS_TRANSIENT_LOCAL}"
    and "liveliness_kind applied \<in> {DDS_AUTOMATIC, DDS_MANUAL_BY_TOPIC}"
    and "0 \<le> sint (history_depth applied)"
  shows "apply_qos (resolved_qos requested applied) applied = (True, applied)"
proof -
  have d: "unat (scast (history_depth applied) :: 64 word) = nat (sint (history_depth applied))"
    using assms(3) by (rule scast_32_64_unat)
  have lt: "nat (sint (history_depth applied)) < 2147483648"
    using sint_lt [of "history_depth applied"] by simp
  have down: "ucast (scast (history_depth applied) :: 64 word) = history_depth applied"
    by (rule ucast_scast_32_64)
  show ?thesis
    using assms d lt down
    by (cases "reliability_kind applied"; cases "history_kind applied"; cases applied)
      (auto simp: apply_qos_defs resolved_qos_def depth_gt_int32_max)
qed

theorem actual_qos_idempotent_witness:
  "apply_qos (resolved_qos example_profile example_default) example_default = (True, example_default)"
  by (rule actual_qos_idempotent) (simp_all add: example_default_def)

end
