(* ===== verification/Status.thy ===== *)
theory Status
  imports Prelude
begin

text \<open>
  The DDS communication statuses that \<^verbatim>\<open>rmw_event.cpp\<close> keeps per endpoint and how a fresh reading
  of zzdds is added to the stored one (\<^verbatim>\<open>add_changes\<close>), and how many events its untaken changes
  stand for (\<^verbatim>\<open>untaken_events\<close>). The C structures that share their counters share a record here,
  so the code's templates over them become functions on record schemes.
\<close>

section \<open>Status structures\<close>

type_synonym instance_handle = "64 word"

record count_status =
  total_count :: int32
  total_count_change :: int32

record deadline_status = count_status +
  last_instance_handle :: instance_handle

record incompatible_qos_status = count_status +
  last_policy_id :: int32

record matched_status = count_status +
  current_count :: int32
  current_count_change :: int32

record publication_matched_status = matched_status +
  last_subscription_handle :: instance_handle

record subscription_matched_status = matched_status +
  last_publication_handle :: instance_handle

record liveliness_changed_status =
  alive_count :: int32
  not_alive_count :: int32
  alive_count_change :: int32
  not_alive_count_change :: int32
  last_liveliness_handle :: instance_handle

type_synonym liveliness_lost_status = count_status
type_synonym sample_lost_status = count_status
type_synonym offered_deadline_missed_status = deadline_status
type_synonym requested_deadline_missed_status = deadline_status
type_synonym offered_incompatible_qos_status = incompatible_qos_status
type_synonym requested_incompatible_qos_status = incompatible_qos_status

text \<open>Value-initialised structures (\<^verbatim>\<open>{}\<close> in the endpoint's constructor).\<close>

definition zero_count :: count_status where
  "zero_count = \<lparr>total_count = 0, total_count_change = 0\<rparr>"

definition zero_deadline :: deadline_status where
  "zero_deadline = \<lparr>total_count = 0, total_count_change = 0, last_instance_handle = 0\<rparr>"

definition zero_incompatible_qos :: incompatible_qos_status where
  "zero_incompatible_qos = \<lparr>total_count = 0, total_count_change = 0, last_policy_id = 0\<rparr>"

definition zero_publication_matched :: publication_matched_status where
  "zero_publication_matched = \<lparr>total_count = 0, total_count_change = 0, current_count = 0,
     current_count_change = 0, last_subscription_handle = 0\<rparr>"

definition zero_subscription_matched :: subscription_matched_status where
  "zero_subscription_matched = \<lparr>total_count = 0, total_count_change = 0, current_count = 0,
     current_count_change = 0, last_publication_handle = 0\<rparr>"

definition zero_liveliness_changed :: liveliness_changed_status where
  "zero_liveliness_changed = \<lparr>alive_count = 0, not_alive_count = 0, alive_count_change = 0,
     not_alive_count_change = 0, last_liveliness_handle = 0\<rparr>"

section \<open>Adding a reading to the stored status\<close>

definition add_publication_matched ::
  "publication_matched_status \<Rightarrow> publication_matched_status \<Rightarrow> publication_matched_status" where
  "add_publication_matched stored now =
     (let total = total_count now - total_count stored;
          current = current_count now - current_count stored
      in stored\<lparr>total_count_change := total_count_change stored + total,
                current_count_change := current_count_change stored + current,
                total_count := total_count now,
                current_count := current_count now,
                last_subscription_handle := last_subscription_handle now\<rparr>)"

definition add_subscription_matched ::
  "subscription_matched_status \<Rightarrow> subscription_matched_status \<Rightarrow> subscription_matched_status" where
  "add_subscription_matched stored now =
     (let total = total_count now - total_count stored;
          current = current_count now - current_count stored
      in stored\<lparr>total_count_change := total_count_change stored + total,
                current_count_change := current_count_change stored + current,
                total_count := total_count now,
                current_count := current_count now,
                last_publication_handle := last_publication_handle now\<rparr>)"

definition add_liveliness_changed ::
  "liveliness_changed_status \<Rightarrow> liveliness_changed_status \<Rightarrow> liveliness_changed_status" where
  "add_liveliness_changed stored now =
     (let alive = alive_count now - alive_count stored;
          not_alive = not_alive_count now - not_alive_count stored
      in stored\<lparr>alive_count_change := alive_count_change stored + alive,
                not_alive_count_change := not_alive_count_change stored + not_alive,
                alive_count := alive_count now,
                not_alive_count := not_alive_count now,
                last_liveliness_handle := last_liveliness_handle now\<rparr>)"

text \<open>\<^verbatim>\<open>add_count_changes\<close> returns whether the count moved and updates the stored status.\<close>

definition add_count_changes ::
  "'a count_status_scheme \<Rightarrow> 'a count_status_scheme \<Rightarrow> bool \<times> 'a count_status_scheme" where
  "add_count_changes stored now =
     (let total = total_count now - total_count stored
      in (total \<noteq> 0,
          stored\<lparr>total_count_change := total_count_change stored + total,
                 total_count := total_count now\<rparr>))"

definition add_count :: "count_status \<Rightarrow> count_status \<Rightarrow> count_status" where
  "add_count stored now = snd (add_count_changes stored now)"

definition add_deadline_changes ::
  "'a deadline_status_scheme \<Rightarrow> 'a deadline_status_scheme \<Rightarrow> 'a deadline_status_scheme" where
  "add_deadline_changes stored now =
     (let (moved, stored) = add_count_changes stored now
      in if moved then stored\<lparr>last_instance_handle := last_instance_handle now\<rparr> else stored)"

definition add_incompatible_qos_changes ::
  "'a incompatible_qos_status_scheme \<Rightarrow> 'a incompatible_qos_status_scheme \<Rightarrow>
   'a incompatible_qos_status_scheme" where
  "add_incompatible_qos_changes stored now =
     (let (moved, stored) = add_count_changes stored now
      in if moved then stored\<lparr>last_policy_id := last_policy_id now\<rparr> else stored)"

section \<open>Events behind the untaken changes\<close>

definition untaken_matched_events :: "'a matched_status_scheme \<Rightarrow> size_t" where
  "untaken_matched_events s =
     size_of_int32 (total_count_change s) +
     size_of_int32 (total_count_change s - current_count_change s)"

definition abs_int32 :: "int32 \<Rightarrow> int32" where
  "abs_int32 x = (if sint x < 0 then - x else x)"

definition max_int32 :: "int32 \<Rightarrow> int32 \<Rightarrow> int32" where
  "max_int32 a b = (if sint a < sint b then b else a)"

definition untaken_liveliness_events :: "liveliness_changed_status \<Rightarrow> size_t" where
  "untaken_liveliness_events s =
     size_of_int32 (max_int32 (abs_int32 (alive_count_change s)) (abs_int32 (not_alive_count_change s)))"

definition untaken_count_events :: "'a count_status_scheme \<Rightarrow> size_t" where
  "untaken_count_events s = size_of_int32 (total_count_change s)"

section \<open>Reading zzdds into the stored status\<close>

text \<open>
  \<^verbatim>\<open>read_into\<close>: \<open>get\<close> is what the zzdds getter returns, \<open>None\<close> when it fails. (The overloads that
  release the policies sequence of a reading differ only in that release.)
\<close>

definition read_into :: "('s \<Rightarrow> 's \<Rightarrow> 's) \<Rightarrow> 's \<Rightarrow> 's option \<Rightarrow> bool \<times> 's" where
  "read_into add_changes stored get =
     (case get of None \<Rightarrow> (False, stored) | Some now \<Rightarrow> (True, add_changes stored now))"

end
