(* ===== verification/Events.thy ===== *)
theory Events
  imports Status
begin

text \<open>
  The QoS events of \<^verbatim>\<open>rmw_event.cpp\<close>: per endpoint and event type a guard condition, a callback and
  the counts of untaken and reported events; the listeners, the matched-count query, event
  initialisation, taking an event and registering a callback.

  The endpoint records hold the event part of \<^verbatim>\<open>PublisherImpl\<close> and \<^verbatim>\<open>SubscriptionImpl\<close>
  (\<^verbatim>\<open>endpoint_impl.hpp\<close>); the arrays indexed by \<^verbatim>\<open>rmw_event_type_t\<close> are functions. What the code asks
  of zzdds is passed in (the value each status getter returns now) and what it does to zzdds and to
  the application is returned as a list of effects, in order.
\<close>

section \<open>Event types\<close>

datatype rmw_event_type =
    RMW_EVENT_LIVELINESS_CHANGED
  | RMW_EVENT_REQUESTED_DEADLINE_MISSED
  | RMW_EVENT_REQUESTED_QOS_INCOMPATIBLE
  | RMW_EVENT_MESSAGE_LOST
  | RMW_EVENT_SUBSCRIPTION_MATCHED
  | RMW_EVENT_LIVELINESS_LOST
  | RMW_EVENT_OFFERED_DEADLINE_MISSED
  | RMW_EVENT_OFFERED_QOS_INCOMPATIBLE
  | RMW_EVENT_PUBLICATION_MATCHED
  | RMW_EVENT_INVALID
  | RMW_EVENT_OTHER nat

definition publisher_event :: "rmw_event_type \<Rightarrow> bool" where
  "publisher_event type \<longleftrightarrow>
     type = RMW_EVENT_PUBLICATION_MATCHED \<or> type = RMW_EVENT_LIVELINESS_LOST \<or>
     type = RMW_EVENT_OFFERED_DEADLINE_MISSED \<or> type = RMW_EVENT_OFFERED_QOS_INCOMPATIBLE"

definition subscription_event :: "rmw_event_type \<Rightarrow> bool" where
  "subscription_event type \<longleftrightarrow>
     type = RMW_EVENT_SUBSCRIPTION_MATCHED \<or> type = RMW_EVENT_LIVELINESS_CHANGED \<or>
     type = RMW_EVENT_REQUESTED_DEADLINE_MISSED \<or> type = RMW_EVENT_REQUESTED_QOS_INCOMPATIBLE \<or>
     type = RMW_EVENT_MESSAGE_LOST"

definition rmw_event_type_is_supported :: "rmw_event_type \<Rightarrow> bool" where
  "rmw_event_type_is_supported type \<longleftrightarrow> publisher_event type \<or> subscription_event type"

text \<open>DDS status masks are sets of status kinds; \<^verbatim>\<open>DDS_STATUS_MASK_NONE\<close> is the empty set.\<close>

datatype dds_status_kind =
    DDS_PUBLICATION_MATCHED_STATUS
  | DDS_SUBSCRIPTION_MATCHED_STATUS
  | DDS_LIVELINESS_CHANGED_STATUS
  | DDS_LIVELINESS_LOST_STATUS
  | DDS_OFFERED_DEADLINE_MISSED_STATUS
  | DDS_REQUESTED_DEADLINE_MISSED_STATUS
  | DDS_OFFERED_INCOMPATIBLE_QOS_STATUS
  | DDS_REQUESTED_INCOMPATIBLE_QOS_STATUS
  | DDS_SAMPLE_LOST_STATUS

type_synonym status_mask = "dds_status_kind set"

fun event_mask :: "rmw_event_type \<Rightarrow> status_mask" where
  "event_mask RMW_EVENT_PUBLICATION_MATCHED = {DDS_PUBLICATION_MATCHED_STATUS}"
| "event_mask RMW_EVENT_SUBSCRIPTION_MATCHED = {DDS_SUBSCRIPTION_MATCHED_STATUS}"
| "event_mask RMW_EVENT_LIVELINESS_CHANGED = {DDS_LIVELINESS_CHANGED_STATUS}"
| "event_mask RMW_EVENT_LIVELINESS_LOST = {DDS_LIVELINESS_LOST_STATUS}"
| "event_mask RMW_EVENT_OFFERED_DEADLINE_MISSED = {DDS_OFFERED_DEADLINE_MISSED_STATUS}"
| "event_mask RMW_EVENT_REQUESTED_DEADLINE_MISSED = {DDS_REQUESTED_DEADLINE_MISSED_STATUS}"
| "event_mask RMW_EVENT_OFFERED_QOS_INCOMPATIBLE = {DDS_OFFERED_INCOMPATIBLE_QOS_STATUS}"
| "event_mask RMW_EVENT_REQUESTED_QOS_INCOMPATIBLE = {DDS_REQUESTED_INCOMPATIBLE_QOS_STATUS}"
| "event_mask RMW_EVENT_MESSAGE_LOST = {DDS_SAMPLE_LOST_STATUS}"
| "event_mask _ = {}"

datatype rmw_qos_policy_kind =
    RMW_QOS_POLICY_INVALID | RMW_QOS_POLICY_DURABILITY | RMW_QOS_POLICY_DEADLINE
  | RMW_QOS_POLICY_LIVELINESS | RMW_QOS_POLICY_RELIABILITY | RMW_QOS_POLICY_HISTORY
  | RMW_QOS_POLICY_LIFESPAN

text \<open>
  \<^verbatim>\<open>qos_policy\<close> maps the DDS policy identifiers. Their numbers come from the headers of zzdds and are
  a parameter: the identifiers of the six policies the switch names.
\<close>

record dds_policy_ids =
  durability_id :: int32
  deadline_id :: int32
  liveliness_id :: int32
  reliability_id :: int32
  history_id :: int32
  lifespan_id :: int32

definition qos_policy :: "dds_policy_ids \<Rightarrow> int32 \<Rightarrow> rmw_qos_policy_kind" where
  "qos_policy ids i =
     (if i = durability_id ids then RMW_QOS_POLICY_DURABILITY
      else if i = deadline_id ids then RMW_QOS_POLICY_DEADLINE
      else if i = liveliness_id ids then RMW_QOS_POLICY_LIVELINESS
      else if i = reliability_id ids then RMW_QOS_POLICY_RELIABILITY
      else if i = history_id ids then RMW_QOS_POLICY_HISTORY
      else if i = lifespan_id ids then RMW_QOS_POLICY_LIFESPAN
      else RMW_QOS_POLICY_INVALID)"

section \<open>Endpoints\<close>

text \<open>Pointers to guard conditions, callbacks and user data; 0 is the null pointer.\<close>

record endpoint =
  event_guards :: "rmw_event_type \<Rightarrow> ptr"
  event_callbacks :: "rmw_event_type \<Rightarrow> ptr"
  event_user_data :: "rmw_event_type \<Rightarrow> ptr"
  event_count :: "rmw_event_type \<Rightarrow> size_t"
  event_reported :: "rmw_event_type \<Rightarrow> size_t"

record publisher_events = endpoint +
  publication_matched :: publication_matched_status
  liveliness_lost :: liveliness_lost_status
  offered_deadline_missed :: offered_deadline_missed_status
  offered_incompatible_qos :: offered_incompatible_qos_status

record subscription_events = endpoint +
  subscription_matched :: subscription_matched_status
  liveliness_changed :: liveliness_changed_status
  requested_deadline_missed :: requested_deadline_missed_status
  requested_incompatible_qos :: requested_incompatible_qos_status
  sample_lost :: sample_lost_status
  reliable_writer_ready_count :: int32

text \<open>What the status getters of a writer and of a reader return now; \<open>None\<close> is a failing getter.\<close>

record writer_status =
  writer_publication_matched :: "publication_matched_status option"
  writer_liveliness_lost :: "liveliness_lost_status option"
  writer_offered_deadline_missed :: "offered_deadline_missed_status option"
  writer_offered_incompatible_qos :: "offered_incompatible_qos_status option"

record reader_status =
  reader_subscription_matched :: "subscription_matched_status option"
  reader_liveliness_changed :: "liveliness_changed_status option"
  reader_requested_deadline_missed :: "requested_deadline_missed_status option"
  reader_requested_incompatible_qos :: "requested_incompatible_qos_status option"
  reader_sample_lost :: "sample_lost_status option"

text \<open>
  Effects: a guard condition's trigger value is set; the application's callback is called with its
  user data and a number of events; the listener of the writer (or none) or of the reader is
  installed for a status mask.
\<close>

datatype effect =
    SetTrigger ptr bool
  | InvokeCallback ptr ptr size_t
  | SetWriterListener bool status_mask
  | SetReaderListener status_mask

section \<open>Reading and visiting the stored statuses\<close>

definition publisher_read_status ::
  "writer_status \<Rightarrow> 'a publisher_events_scheme \<Rightarrow> rmw_event_type \<Rightarrow> bool \<times> 'a publisher_events_scheme"
  where
  "publisher_read_status dds impl type =
     (case type of
        RMW_EVENT_PUBLICATION_MATCHED \<Rightarrow>
          let (ok, s) = read_into add_publication_matched (publication_matched impl)
                          (writer_publication_matched dds)
          in (ok, impl\<lparr>publication_matched := s\<rparr>)
      | RMW_EVENT_LIVELINESS_LOST \<Rightarrow>
          let (ok, s) = read_into add_count (liveliness_lost impl) (writer_liveliness_lost dds)
          in (ok, impl\<lparr>liveliness_lost := s\<rparr>)
      | RMW_EVENT_OFFERED_DEADLINE_MISSED \<Rightarrow>
          let (ok, s) = read_into add_deadline_changes (offered_deadline_missed impl)
                          (writer_offered_deadline_missed dds)
          in (ok, impl\<lparr>offered_deadline_missed := s\<rparr>)
      | _ \<Rightarrow>
          let (ok, s) = read_into add_incompatible_qos_changes (offered_incompatible_qos impl)
                          (writer_offered_incompatible_qos dds)
          in (ok, impl\<lparr>offered_incompatible_qos := s\<rparr>))"

definition subscription_read_status ::
  "reader_status \<Rightarrow> 'a subscription_events_scheme \<Rightarrow> rmw_event_type \<Rightarrow>
   bool \<times> 'a subscription_events_scheme" where
  "subscription_read_status dds impl type =
     (case type of
        RMW_EVENT_SUBSCRIPTION_MATCHED \<Rightarrow>
          let (ok, s) = read_into add_subscription_matched (subscription_matched impl)
                          (reader_subscription_matched dds)
          in (ok, impl\<lparr>subscription_matched := s\<rparr>)
      | RMW_EVENT_LIVELINESS_CHANGED \<Rightarrow>
          let (ok, s) = read_into add_liveliness_changed (liveliness_changed impl)
                          (reader_liveliness_changed dds)
          in (ok, impl\<lparr>liveliness_changed := s\<rparr>)
      | RMW_EVENT_REQUESTED_DEADLINE_MISSED \<Rightarrow>
          let (ok, s) = read_into add_deadline_changes (requested_deadline_missed impl)
                          (reader_requested_deadline_missed dds)
          in (ok, impl\<lparr>requested_deadline_missed := s\<rparr>)
      | RMW_EVENT_MESSAGE_LOST \<Rightarrow>
          let (ok, s) = read_into add_count (sample_lost impl) (reader_sample_lost dds)
          in (ok, impl\<lparr>sample_lost := s\<rparr>)
      | _ \<Rightarrow>
          let (ok, s) = read_into add_incompatible_qos_changes (requested_incompatible_qos impl)
                          (reader_requested_incompatible_qos dds)
          in (ok, impl\<lparr>requested_incompatible_qos := s\<rparr>))"

text \<open>\<^verbatim>\<open>visit_status(impl, type, untaken_events)\<close> for the two kinds of endpoint.\<close>

definition publisher_untaken :: "'a publisher_events_scheme \<Rightarrow> rmw_event_type \<Rightarrow> size_t" where
  "publisher_untaken impl type =
     (case type of
        RMW_EVENT_PUBLICATION_MATCHED \<Rightarrow> untaken_matched_events (publication_matched impl)
      | RMW_EVENT_LIVELINESS_LOST \<Rightarrow> untaken_count_events (liveliness_lost impl)
      | RMW_EVENT_OFFERED_DEADLINE_MISSED \<Rightarrow> untaken_count_events (offered_deadline_missed impl)
      | _ \<Rightarrow> untaken_count_events (offered_incompatible_qos impl))"

definition subscription_untaken :: "'a subscription_events_scheme \<Rightarrow> rmw_event_type \<Rightarrow> size_t" where
  "subscription_untaken impl type =
     (case type of
        RMW_EVENT_SUBSCRIPTION_MATCHED \<Rightarrow> untaken_matched_events (subscription_matched impl)
      | RMW_EVENT_LIVELINESS_CHANGED \<Rightarrow> untaken_liveliness_events (liveliness_changed impl)
      | RMW_EVENT_REQUESTED_DEADLINE_MISSED \<Rightarrow> untaken_count_events (requested_deadline_missed impl)
      | RMW_EVENT_MESSAGE_LOST \<Rightarrow> untaken_count_events (sample_lost impl)
      | _ \<Rightarrow> untaken_count_events (requested_incompatible_qos impl))"


section \<open>Counting events\<close>

text \<open>
  \<^verbatim>\<open>count_events_locked\<close>: counts \<open>added\<close> more untaken events and triggers the guard; the callback to
  tell about them is returned with its user data.
\<close>

definition count_events_locked ::
  "rmw_event_type \<Rightarrow> size_t \<Rightarrow> 'a endpoint_scheme \<Rightarrow> ptr \<times> ptr \<times> 'a endpoint_scheme \<times> effect list" where
  "count_events_locked type added impl =
     (let impl = impl\<lparr>event_count := (event_count impl)(type := event_count impl type + added)\<rparr>;
          trigger = SetTrigger (event_guards impl type) True;
          callback = event_callbacks impl type;
          user_data = event_user_data impl type;
          impl = (if callback \<noteq> nullptr
            then impl\<lparr>event_reported := (event_reported impl)(type := event_reported impl type + added)\<rparr>
            else impl)
      in (callback, user_data, impl, [trigger]))"

text \<open>
  \<^verbatim>\<open>on_status\<close>: a zzdds listener fired. \<open>read\<close> is the endpoint's \<^verbatim>\<open>read_status\<close> for the type (its
  result is ignored), \<open>uncounted\<close> the number of events it finds afterwards. The callback is called
  after the lock is released, so it comes last.
\<close>

definition on_status ::
  "('a endpoint_scheme \<Rightarrow> bool \<times> 'a endpoint_scheme) \<Rightarrow> ('a endpoint_scheme \<Rightarrow> size_t) \<Rightarrow>
   rmw_event_type \<Rightarrow> 'a endpoint_scheme \<Rightarrow> 'a endpoint_scheme \<times> effect list" where
  "on_status read uncounted type impl =
     (let (_, impl) = read impl;
          added = uncounted impl
      in if added = 0 then (impl, [])
         else let (callback, user_data, impl, effects) = count_events_locked type added impl
           in (impl, effects @ (if callback \<noteq> nullptr then [InvokeCallback callback user_data added] else [])))"

definition uncounted_events ::
  "('a endpoint_scheme \<Rightarrow> rmw_event_type \<Rightarrow> size_t) \<Rightarrow> rmw_event_type \<Rightarrow> 'a endpoint_scheme \<Rightarrow> size_t" where
  "uncounted_events untaken type impl =
     (if untaken impl type > event_count impl type then untaken impl type - event_count impl type else 0)"

definition on_counted_status ::
  "('a endpoint_scheme \<Rightarrow> bool \<times> 'a endpoint_scheme) \<Rightarrow> ('a endpoint_scheme \<Rightarrow> rmw_event_type \<Rightarrow> size_t) \<Rightarrow>
   rmw_event_type \<Rightarrow> 'a endpoint_scheme \<Rightarrow> 'a endpoint_scheme \<times> effect list" where
  "on_counted_status read untaken type impl = on_status read (uncounted_events untaken type) type impl"

text \<open>
  \<^verbatim>\<open>read_matched_count\<close>: \<open>current\<close> reads the stored matched count. The result is \<open>None\<close> when the
  getter failed.
\<close>

definition read_matched_count ::
  "('a endpoint_scheme \<Rightarrow> bool \<times> 'a endpoint_scheme) \<Rightarrow> ('a endpoint_scheme \<Rightarrow> rmw_event_type \<Rightarrow> size_t) \<Rightarrow>
   ('a endpoint_scheme \<Rightarrow> int32) \<Rightarrow> rmw_event_type \<Rightarrow> 'a endpoint_scheme \<Rightarrow>
   size_t option \<times> 'a endpoint_scheme \<times> effect list" where
  "read_matched_count read untaken current type impl =
     (let (ok, impl) = read impl
      in if \<not> ok then (None, impl, [])
         else let count = (if sint (current impl) < 0 then 0 else size_of_int32 (current impl))
         in if event_guards impl type = nullptr then (Some count, impl, [])
         else let added = uncounted_events untaken type impl
         in if added = 0 then (Some count, impl, [])
         else let (callback, user_data, impl, effects) = count_events_locked type added impl
           in (Some count, impl,
               effects @ (if callback \<noteq> nullptr then [InvokeCallback callback user_data added] else [])))"

section \<open>Listeners\<close>

text \<open>The four writer listeners and four of the reader listeners count untaken events.\<close>

definition publisher_listener ::
  "rmw_event_type \<Rightarrow> writer_status \<Rightarrow> 'a publisher_events_scheme \<Rightarrow> 'a publisher_events_scheme \<times> effect list"
  where
  "publisher_listener type dds impl =
     on_counted_status (\<lambda>impl. publisher_read_status dds impl type) publisher_untaken type impl"

definition subscription_listener ::
  "rmw_event_type \<Rightarrow> reader_status \<Rightarrow> 'a subscription_events_scheme \<Rightarrow>
   'a subscription_events_scheme \<times> effect list" where
  "subscription_listener type dds impl =
     on_counted_status (\<lambda>impl. subscription_read_status dds impl type) subscription_untaken type impl"

text \<open>
  The liveliness listener counts one event if the status zzdds passed differs from the one at the
  last take, which the stored status holds as its counts minus its untaken changes.
\<close>

definition liveliness_differs :: "liveliness_changed_status \<Rightarrow> liveliness_changed_status \<Rightarrow> bool" where
  "liveliness_differs status stored \<longleftrightarrow>
     alive_count status \<noteq> alive_count stored - alive_count_change stored \<or>
     not_alive_count status \<noteq> not_alive_count stored - not_alive_count_change stored"

definition liveliness_changed_listener ::
  "liveliness_changed_status \<Rightarrow> reader_status \<Rightarrow> 'a subscription_events_scheme \<Rightarrow>
   'a subscription_events_scheme \<times> effect list" where
  "liveliness_changed_listener status dds impl =
     on_status (\<lambda>impl. subscription_read_status dds impl RMW_EVENT_LIVELINESS_CHANGED)
       (\<lambda>impl. if liveliness_differs status (liveliness_changed impl) then 1 else 0)
       RMW_EVENT_LIVELINESS_CHANGED impl"

definition reliable_writer_ready_listener ::
  "bool \<Rightarrow> 'a subscription_events_scheme \<Rightarrow> 'a subscription_events_scheme" where
  "reliable_writer_ready_listener is_ready impl =
     impl\<lparr>reliable_writer_ready_count :=
       reliable_writer_ready_count impl + (if is_ready then 1 else - 1)\<rparr>"

definition publisher_count_matched ::
  "writer_status \<Rightarrow> 'a publisher_events_scheme \<Rightarrow> size_t option \<times> 'a publisher_events_scheme \<times> effect list"
  where
  "publisher_count_matched dds impl =
     read_matched_count (\<lambda>impl. publisher_read_status dds impl RMW_EVENT_PUBLICATION_MATCHED)
       publisher_untaken (\<lambda>impl. current_count (publication_matched impl))
       RMW_EVENT_PUBLICATION_MATCHED impl"

definition subscription_count_matched ::
  "reader_status \<Rightarrow> 'a subscription_events_scheme \<Rightarrow>
   size_t option \<times> 'a subscription_events_scheme \<times> effect list" where
  "subscription_count_matched dds impl =
     read_matched_count (\<lambda>impl. subscription_read_status dds impl RMW_EVENT_SUBSCRIPTION_MATCHED)
       subscription_untaken (\<lambda>impl. current_count (subscription_matched impl))
       RMW_EVENT_SUBSCRIPTION_MATCHED impl"

section \<open>Registering callbacks\<close>

text \<open>
  \<^verbatim>\<open>rmw_event_set_callback\<close> on an endpoint is two locked sections: storing the callback, and
  \<^verbatim>\<open>after_set_callback\<close>, which tells a new callback about events none has been told about.
\<close>

definition store_callback :: "rmw_event_type \<Rightarrow> ptr \<Rightarrow> ptr \<Rightarrow> 'a endpoint_scheme \<Rightarrow> 'a endpoint_scheme" where
  "store_callback type callback user_data impl =
     impl\<lparr>event_callbacks := (event_callbacks impl)(type := callback),
          event_user_data := (event_user_data impl)(type := user_data)\<rparr>"

definition after_set_callback ::
  "rmw_event_type \<Rightarrow> 'a endpoint_scheme \<Rightarrow> 'a endpoint_scheme \<times> effect list" where
  "after_set_callback type impl =
     (let callback = event_callbacks impl type;
          user_data = event_user_data impl type;
          unreported = (if callback \<noteq> nullptr then event_count impl type - event_reported impl type else 0);
          impl = (if callback \<noteq> nullptr
            then impl\<lparr>event_reported := (event_reported impl)(type := event_count impl type)\<rparr> else impl)
      in (impl, if unreported \<noteq> 0 then [InvokeCallback callback user_data unreported] else []))"

definition set_callback ::
  "rmw_event_type \<Rightarrow> ptr \<Rightarrow> ptr \<Rightarrow> 'a endpoint_scheme \<Rightarrow> 'a endpoint_scheme \<times> effect list" where
  "set_callback type callback user_data impl =
     after_set_callback type (store_callback type callback user_data impl)"

section \<open>Installing listeners\<close>

definition publisher_mask :: "'a endpoint_scheme \<Rightarrow> status_mask" where
  "publisher_mask impl =
     fold (\<lambda>type mask. if event_guards impl type \<noteq> nullptr then mask \<union> event_mask type else mask)
       [RMW_EVENT_PUBLICATION_MATCHED, RMW_EVENT_LIVELINESS_LOST, RMW_EVENT_OFFERED_DEADLINE_MISSED,
        RMW_EVENT_OFFERED_QOS_INCOMPATIBLE] {}"

definition apply_publisher_listener :: "'a endpoint_scheme \<Rightarrow> effect list" where
  "apply_publisher_listener impl =
     (let mask = publisher_mask impl in [SetWriterListener (mask \<noteq> {}) mask])"

definition subscription_mask :: "'a endpoint_scheme \<Rightarrow> status_mask" where
  "subscription_mask impl =
     fold (\<lambda>type mask. if event_guards impl type \<noteq> nullptr then mask \<union> event_mask type else mask)
       [RMW_EVENT_SUBSCRIPTION_MATCHED, RMW_EVENT_LIVELINESS_CHANGED,
        RMW_EVENT_REQUESTED_DEADLINE_MISSED, RMW_EVENT_REQUESTED_QOS_INCOMPATIBLE,
        RMW_EVENT_MESSAGE_LOST] {}"

definition apply_subscription_listener :: "'a endpoint_scheme \<Rightarrow> effect list" where
  "apply_subscription_listener impl = [SetReaderListener (subscription_mask impl)]"


section \<open>Initialising an event\<close>

record rmw_event =
  event_identifier :: impl_id
  event_data :: ptr
  event_type :: rmw_event_type

definition zero_event :: rmw_event where
  "zero_event = \<lparr>event_identifier = NullIdentifier, event_data = nullptr, event_type = RMW_EVENT_INVALID\<rparr>"

text \<open>
  The first locked section of \<^verbatim>\<open>initialize_event\<close>: \<open>created\<close> is what \<^verbatim>\<open>zzdds_create_guardcondition\<close>
  returns. False is the branch that reports a failed allocation.
\<close>

definition init_guard :: "ptr \<Rightarrow> rmw_event_type \<Rightarrow> 'a endpoint_scheme \<Rightarrow> bool \<times> 'a endpoint_scheme" where
  "init_guard created type impl =
     (let impl = (if event_guards impl type = nullptr
            then impl\<lparr>event_guards := (event_guards impl)(type := created)\<rparr> else impl)
      in (event_guards impl type \<noteq> nullptr, impl))"

text \<open>The second: changes from before the event existed are counted if nothing was counted yet.\<close>

definition init_count ::
  "('a endpoint_scheme \<Rightarrow> bool \<times> 'a endpoint_scheme) \<Rightarrow> ('a endpoint_scheme \<Rightarrow> rmw_event_type \<Rightarrow> size_t) \<Rightarrow>
   rmw_event_type \<Rightarrow> 'a endpoint_scheme \<Rightarrow> 'a endpoint_scheme \<times> effect list" where
  "init_count read untaken type impl =
     (let (_, impl) = read impl;
          impl = (if event_count impl type = 0
            then impl\<lparr>event_count := (event_count impl)(type := untaken impl type)\<rparr> else impl)
      in (impl, [SetTrigger (event_guards impl type) (event_count impl type \<noteq> 0)]))"

text \<open>
  \<^verbatim>\<open>initialize_event\<close> run without interleaving. \<open>data\<close> is the endpoint's own address, \<open>created\<close> and
  \<open>installed\<close> the results of creating the guard condition and of installing the listener, \<open>apply\<close>
  the endpoint's \<^verbatim>\<open>apply_listener\<close>.
\<close>

definition initialize_event ::
  "('a endpoint_scheme \<Rightarrow> effect list) \<Rightarrow>
   ('a endpoint_scheme \<Rightarrow> bool \<times> 'a endpoint_scheme) \<Rightarrow> ('a endpoint_scheme \<Rightarrow> rmw_event_type \<Rightarrow> size_t) \<Rightarrow>
   ptr \<Rightarrow> bool \<Rightarrow> rmw_event option \<Rightarrow> ptr \<Rightarrow> rmw_event_type \<Rightarrow> 'a endpoint_scheme \<Rightarrow>
   rmw_ret \<times> rmw_event option \<times> 'a endpoint_scheme \<times> effect list" where
  "initialize_event apply read untaken created installed event data type impl =
     (case event of
        None \<Rightarrow> (RMW_RET_INVALID_ARGUMENT, None, impl, [])
      | Some e \<Rightarrow>
          if event_identifier e \<noteq> NullIdentifier \<or> event_data e \<noteq> nullptr \<or> event_type e \<noteq> RMW_EVENT_INVALID
          then (RMW_RET_INVALID_ARGUMENT, Some e, impl, [])
          else if event_mask type = {} then (RMW_RET_UNSUPPORTED, Some e, impl, [])
          else let (ok, impl) = init_guard created type impl
          in if \<not> ok then (RMW_RET_BAD_ALLOC, Some e, impl, [])
          else let listener = apply impl
          in if \<not> installed then (RMW_RET_ERROR, Some e, impl, listener)
          else let (impl, effects) = init_count read untaken type impl
            in (RMW_RET_OK,
                Some \<lparr>event_identifier = ZzddsIdentifier, event_data = data, event_type = type\<rparr>,
                impl, listener @ effects))"

section \<open>Taking an event\<close>

text \<open>The structures of \<^verbatim>\<open>rmw/events_statuses\<close> that \<^verbatim>\<open>rmw_take_event\<close> fills.\<close>

datatype event_info =
    MatchedInfo (m_total_count: size_t) (m_total_count_change: size_t) (m_current_count: size_t)
      (m_current_count_change: int32)
  | LivelinessChangedInfo (l_alive_count: int32) (l_not_alive_count: int32) (l_alive_count_change: int32)
      (l_not_alive_count_change: int32)
  | CountInfo (c_total_count: int32) (c_total_count_change: int32)
  | MessageLostInfo (lost_total_count: size_t) (lost_total_count_change: size_t)
  | IncompatibleQosInfo (q_total_count: int32) (q_total_count_change: int32)
      (q_last_policy_kind: rmw_qos_policy_kind)

definition matched_info :: "'a matched_status_scheme \<Rightarrow> event_info" where
  "matched_info status =
     MatchedInfo (size_of_int32 (total_count status)) (size_of_int32 (total_count_change status))
       (size_of_int32 (current_count status)) (current_count_change status)"

definition clear_matched :: "'a matched_status_scheme \<Rightarrow> 'a matched_status_scheme" where
  "clear_matched status = status\<lparr>total_count_change := 0, current_count_change := 0\<rparr>"

definition clear_count :: "'a count_status_scheme \<Rightarrow> 'a count_status_scheme" where
  "clear_count status = status\<lparr>total_count_change := 0\<rparr>"

definition clear_liveliness :: "liveliness_changed_status \<Rightarrow> liveliness_changed_status" where
  "clear_liveliness status = status\<lparr>alive_count_change := 0, not_alive_count_change := 0\<rparr>"

text \<open>What every successful take does last: both counts start over and the guard is reset.\<close>

definition reset_event :: "rmw_event_type \<Rightarrow> 'a endpoint_scheme \<Rightarrow> 'a endpoint_scheme \<times> effect list" where
  "reset_event type impl =
     (let impl = impl\<lparr>event_count := (event_count impl)(type := 0),
                      event_reported := (event_reported impl)(type := 0)\<rparr>
      in (impl, [SetTrigger (event_guards impl type) False]))"

text \<open>The two branches of \<^verbatim>\<open>rmw_take_event\<close>; \<open>None\<close> is the branch where reading zzdds fails.\<close>

definition publisher_output ::
  "dds_policy_ids \<Rightarrow> rmw_event_type \<Rightarrow> 'a publisher_events_scheme \<Rightarrow> event_info \<times> 'a publisher_events_scheme"
  where
  "publisher_output ids type impl =
     (case type of
        RMW_EVENT_PUBLICATION_MATCHED \<Rightarrow>
          (matched_info (publication_matched impl),
           impl\<lparr>publication_matched := clear_matched (publication_matched impl)\<rparr>)
      | RMW_EVENT_LIVELINESS_LOST \<Rightarrow>
          (CountInfo (total_count (liveliness_lost impl)) (total_count_change (liveliness_lost impl)),
           impl\<lparr>liveliness_lost := clear_count (liveliness_lost impl)\<rparr>)
      | RMW_EVENT_OFFERED_DEADLINE_MISSED \<Rightarrow>
          (CountInfo (total_count (offered_deadline_missed impl))
             (total_count_change (offered_deadline_missed impl)),
           impl\<lparr>offered_deadline_missed := clear_count (offered_deadline_missed impl)\<rparr>)
      | _ \<Rightarrow>
          (IncompatibleQosInfo (total_count (offered_incompatible_qos impl))
             (total_count_change (offered_incompatible_qos impl))
             (qos_policy ids (last_policy_id (offered_incompatible_qos impl))),
           impl\<lparr>offered_incompatible_qos := clear_count (offered_incompatible_qos impl)\<rparr>))"

definition publisher_take ::
  "dds_policy_ids \<Rightarrow> writer_status \<Rightarrow> rmw_event_type \<Rightarrow> 'a publisher_events_scheme \<Rightarrow>
   event_info option \<times> 'a publisher_events_scheme \<times> effect list" where
  "publisher_take ids dds type impl =
     (let (ok, impl) = publisher_read_status dds impl type
      in if \<not> ok then (None, impl, [])
         else let (info, impl) = publisher_output ids type impl;
                  (impl, effects) = reset_event type impl
           in (Some info, impl, effects))"

definition subscription_output ::
  "dds_policy_ids \<Rightarrow> rmw_event_type \<Rightarrow> 'a subscription_events_scheme \<Rightarrow>
   event_info \<times> 'a subscription_events_scheme" where
  "subscription_output ids type impl =
     (case type of
        RMW_EVENT_SUBSCRIPTION_MATCHED \<Rightarrow>
          (matched_info (subscription_matched impl),
           impl\<lparr>subscription_matched := clear_matched (subscription_matched impl)\<rparr>)
      | RMW_EVENT_LIVELINESS_CHANGED \<Rightarrow>
          (LivelinessChangedInfo (alive_count (liveliness_changed impl))
             (not_alive_count (liveliness_changed impl)) (alive_count_change (liveliness_changed impl))
             (not_alive_count_change (liveliness_changed impl)),
           impl\<lparr>liveliness_changed := clear_liveliness (liveliness_changed impl)\<rparr>)
      | RMW_EVENT_REQUESTED_DEADLINE_MISSED \<Rightarrow>
          (CountInfo (total_count (requested_deadline_missed impl))
             (total_count_change (requested_deadline_missed impl)),
           impl\<lparr>requested_deadline_missed := clear_count (requested_deadline_missed impl)\<rparr>)
      | RMW_EVENT_MESSAGE_LOST \<Rightarrow>
          (MessageLostInfo (size_of_int32 (total_count (sample_lost impl)))
             (size_of_int32 (total_count_change (sample_lost impl))),
           impl\<lparr>sample_lost := clear_count (sample_lost impl)\<rparr>)
      | _ \<Rightarrow>
          (IncompatibleQosInfo (total_count (requested_incompatible_qos impl))
             (total_count_change (requested_incompatible_qos impl))
             (qos_policy ids (last_policy_id (requested_incompatible_qos impl))),
           impl\<lparr>requested_incompatible_qos := clear_count (requested_incompatible_qos impl)\<rparr>))"

definition subscription_take ::
  "dds_policy_ids \<Rightarrow> reader_status \<Rightarrow> rmw_event_type \<Rightarrow> 'a subscription_events_scheme \<Rightarrow>
   event_info option \<times> 'a subscription_events_scheme \<times> effect list" where
  "subscription_take ids dds type impl =
     (let (ok, impl) = subscription_read_status dds impl type
      in if \<not> ok then (None, impl, [])
         else let (info, impl) = subscription_output ids type impl;
                  (impl, effects) = reset_event type impl
           in (Some info, impl, effects))"

end
