(* ===== verification/Event_Machine.thy ===== *)
theory Event_Machine
  imports Events
begin

text \<open>
  The event accounting of \<open>Events\<close> as a state machine. Its steps are the locked sections of the
  code (listener, matched-count query, take, the sections of callback registration and of event
  initialisation) interleaved in any order with changes inside zzdds, for one event type of one
  endpoint. The configuration adds to the endpoint what zzdds has seen happen, what the last take
  saw, how many events callbacks were told about since, and the guard's trigger value.

  Everything is proved once in the locale \<open>counted_event\<close>, whose assumptions say what a status type
  and its endpoint operations must satisfy, and interpreted for the eight counted event types.
\<close>

section \<open>What zzdds has seen\<close>

text \<open>
  For a matched status the matches and unmatches so far, for the others the occurrences (and no
  drops). The counters of zzdds are 32-bit; \<open>bounded\<close> keeps them from wrapping.
\<close>

record history =
  raised :: nat
  dropped :: nat

definition later :: "history \<Rightarrow> history \<Rightarrow> bool" where
  "later h h' \<longleftrightarrow> raised h \<le> raised h' \<and> dropped h \<le> dropped h'"

definition bounded :: "history \<Rightarrow> bool" where
  "bounded h \<longleftrightarrow> dropped h \<le> raised h \<and> raised h < 2 ^ 31"

lemma later_refl [simp]: "later h h"
  by (simp add: later_def)

lemma later_trans: "later a b \<Longrightarrow> later b c \<Longrightarrow> later a c"
  by (auto simp: later_def)

text \<open>A status zzdds returns when its history is \<open>h\<close>; its change fields are not read by the code.\<close>

definition matched_reading :: "history \<Rightarrow> 'a matched_status_scheme \<Rightarrow> bool" where
  "matched_reading h s \<longleftrightarrow>
     total_count s = of_nat (raised h) \<and> current_count s = of_nat (raised h) - of_nat (dropped h)"

definition count_reading :: "history \<Rightarrow> 'a count_status_scheme \<Rightarrow> bool" where
  "count_reading h s \<longleftrightarrow> total_count s = of_nat (raised h)"

text \<open>A stored status that was read at history \<open>h\<close> and holds the changes since history \<open>t\<close>.\<close>

definition matched_tracks :: "history \<Rightarrow> history \<Rightarrow> 'a matched_status_scheme \<Rightarrow> bool" where
  "matched_tracks t h s \<longleftrightarrow> matched_reading h s \<and>
     total_count_change s = of_nat (raised h) - of_nat (raised t) \<and>
     current_count_change s =
       (of_nat (raised h) - of_nat (dropped h)) - (of_nat (raised t) - of_nat (dropped t))"

definition count_tracks :: "history \<Rightarrow> history \<Rightarrow> 'a count_status_scheme \<Rightarrow> bool" where
  "count_tracks t h s \<longleftrightarrow> count_reading h s \<and>
     total_count_change s = of_nat (raised h) - of_nat (raised t)"

definition matched_events :: "history \<Rightarrow> nat" where
  "matched_events h = raised h + dropped h"

section \<open>Configurations and effects\<close>

record 'i config =
  endpoint_of :: 'i
  dds :: history
  taken_at :: history
  told :: nat
  triggered :: bool

fun told_by :: "effect list \<Rightarrow> nat" where
  "told_by [] = 0"
| "told_by (InvokeCallback _ _ n # es) = unat n + told_by es"
| "told_by (_ # es) = told_by es"

fun trigger_after :: "bool \<Rightarrow> effect list \<Rightarrow> bool" where
  "trigger_after b [] = b"
| "trigger_after b (SetTrigger _ v # es) = trigger_after v es"
| "trigger_after b (_ # es) = trigger_after b es"

lemma told_by_append [simp]: "told_by (xs @ ys) = told_by xs + told_by ys"
  by (induction xs rule: told_by.induct) auto

lemma trigger_after_append [simp]: "trigger_after b (xs @ ys) = trigger_after (trigger_after b xs) ys"
  by (induction b xs rule: trigger_after.induct) auto

definition apply_effects :: "'i \<Rightarrow> effect list \<Rightarrow> 'i config \<Rightarrow> 'i config" where
  "apply_effects impl effects c =
     c\<lparr>endpoint_of := impl, told := told c + told_by effects,
       triggered := trigger_after (triggered c) effects\<rparr>"

section \<open>Steps\<close>

text \<open>
  \<open>reads\<close> relates the history of zzdds to what its getters return: a reading of the history, or a
  failure. The matched-count query exists for the matched events only (\<open>current\<close>). A take moves
  \<open>taken_at\<close> and starts the count of told events over; taking and registering callbacks need an
  initialised event (the code reaches them through an \<^verbatim>\<open>rmw_event_t\<close> that was initialised).
\<close>

inductive event_step ::
  "rmw_event_type \<Rightarrow> ('d \<Rightarrow> 'a endpoint_scheme \<Rightarrow> bool \<times> 'a endpoint_scheme) \<Rightarrow>
   ('a endpoint_scheme \<Rightarrow> rmw_event_type \<Rightarrow> size_t) \<Rightarrow>
   ('a endpoint_scheme \<Rightarrow> event_info \<times> 'a endpoint_scheme) \<Rightarrow>
   ('a endpoint_scheme \<Rightarrow> int32) option \<Rightarrow> (history \<Rightarrow> 'd \<Rightarrow> bool) \<Rightarrow>
   'a endpoint_scheme config \<Rightarrow> 'a endpoint_scheme config \<Rightarrow> bool"
  for type read untaken out current reads where
  change: "later (dds c) h \<Longrightarrow> bounded h \<Longrightarrow>
     event_step type read untaken out current reads c (c\<lparr>dds := h\<rparr>)"
| listener: "reads (dds c) d \<Longrightarrow> event_guards (endpoint_of c) type \<noteq> nullptr \<Longrightarrow>
     on_counted_status (read d) untaken type (endpoint_of c) = (i, es) \<Longrightarrow>
     event_step type read untaken out current reads c (apply_effects i es c)"
| query: "reads (dds c) d \<Longrightarrow> current = Some cur \<Longrightarrow>
     read_matched_count (read d) untaken cur type (endpoint_of c) = (n, i, es) \<Longrightarrow>
     event_step type read untaken out current reads c (apply_effects i es c)"
| take_failed: "reads (dds c) d \<Longrightarrow> event_guards (endpoint_of c) type \<noteq> nullptr \<Longrightarrow>
     read d (endpoint_of c) = (False, i) \<Longrightarrow>
     event_step type read untaken out current reads c (apply_effects i [] c)"
| take: "reads (dds c) d \<Longrightarrow> event_guards (endpoint_of c) type \<noteq> nullptr \<Longrightarrow>
     read d (endpoint_of c) = (True, i) \<Longrightarrow> out i = (info, i') \<Longrightarrow> reset_event type i' = (i'', es) \<Longrightarrow>
     event_step type read untaken out current reads c
       ((apply_effects i'' es c)\<lparr>taken_at := dds c, told := 0\<rparr>)"
| store: "event_guards (endpoint_of c) type \<noteq> nullptr \<Longrightarrow>
     event_step type read untaken out current reads c
       (apply_effects (store_callback type cb ud (endpoint_of c)) [] c)"
| after_set: "event_guards (endpoint_of c) type \<noteq> nullptr \<Longrightarrow>
     after_set_callback type (endpoint_of c) = (i, es) \<Longrightarrow>
     event_step type read untaken out current reads c (apply_effects i es c)"
| init_guard: "init_guard created type (endpoint_of c) = (ok, i) \<Longrightarrow>
     event_step type read untaken out current reads c (apply_effects i [] c)"
| init_count: "reads (dds c) d \<Longrightarrow> event_guards (endpoint_of c) type \<noteq> nullptr \<Longrightarrow>
     init_count (read d) untaken type (endpoint_of c) = (i, es) \<Longrightarrow>
     event_step type read untaken out current reads c (apply_effects i es c)"

text \<open>The configuration right after the endpoint is created: nothing has happened.\<close>

definition no_history :: history where
  "no_history = \<lparr>raised = 0, dropped = 0\<rparr>"

definition initial_config :: "'i \<Rightarrow> 'i config" where
  "initial_config impl =
     \<lparr>endpoint_of = impl, dds = no_history, taken_at = no_history, told = 0, triggered = False\<rparr>"

definition fresh_endpoint :: "'a endpoint_scheme \<Rightarrow> bool" where
  "fresh_endpoint impl \<longleftrightarrow>
     event_guards impl = (\<lambda>_. nullptr) \<and> event_callbacks impl = (\<lambda>_. nullptr) \<and>
     event_count impl = (\<lambda>_. 0) \<and> event_reported impl = (\<lambda>_. 0)"

inductive event_reachable ::
  "rmw_event_type \<Rightarrow> ('d \<Rightarrow> 'a endpoint_scheme \<Rightarrow> bool \<times> 'a endpoint_scheme) \<Rightarrow>
   ('a endpoint_scheme \<Rightarrow> rmw_event_type \<Rightarrow> size_t) \<Rightarrow>
   ('a endpoint_scheme \<Rightarrow> event_info \<times> 'a endpoint_scheme) \<Rightarrow>
   ('a endpoint_scheme \<Rightarrow> int32) option \<Rightarrow> (history \<Rightarrow> 'd \<Rightarrow> bool) \<Rightarrow> 'a endpoint_scheme \<Rightarrow>
   'a endpoint_scheme config \<Rightarrow> bool"
  for type read untaken out current reads impl where
  start: "event_reachable type read untaken out current reads impl (initial_config impl)"
| step: "event_reachable type read untaken out current reads impl c \<Longrightarrow>
     event_step type read untaken out current reads c c' \<Longrightarrow>
     event_reachable type read untaken out current reads impl c'"

inductive_cases event_step_cases: "event_step type read untaken out current reads c c'"

text \<open>\<open>reads\<close> of a status type: what the getter returns is a reading of the history, unless it fails.\<close>

definition getter_reads ::
  "('d \<Rightarrow> 's option) \<Rightarrow> (history \<Rightarrow> 's \<Rightarrow> bool) \<Rightarrow> history \<Rightarrow> 'd \<Rightarrow> bool" where
  "getter_reads getter reading h d \<longleftrightarrow> (case getter d of None \<Rightarrow> True | Some s \<Rightarrow> reading h s)"

section \<open>The invariant\<close>

text \<open>
  The stored status was read when zzdds had seen \<open>seen\<close> and holds the changes since the last take;
  at most these are counted, at most the counted ones were told; the guard is triggered exactly
  when something is counted.
\<close>

definition event_accounting ::
  "rmw_event_type \<Rightarrow> ('a endpoint_scheme \<Rightarrow> 's) \<Rightarrow> (history \<Rightarrow> history \<Rightarrow> 's \<Rightarrow> bool) \<Rightarrow>
   (history \<Rightarrow> nat) \<Rightarrow> history \<Rightarrow> 'a endpoint_scheme config \<Rightarrow> bool" where
  "event_accounting type stored tracks events seen c \<longleftrightarrow>
     later (taken_at c) seen \<and> later seen (dds c) \<and>
     bounded (taken_at c) \<and> bounded seen \<and> bounded (dds c) \<and>
     tracks (taken_at c) seen (stored (endpoint_of c)) \<and>
     unat (event_count (endpoint_of c) type) \<le> events seen - events (taken_at c) \<and>
     told c = unat (event_reported (endpoint_of c) type) \<and>
     unat (event_reported (endpoint_of c) type) \<le> unat (event_count (endpoint_of c) type) \<and>
     triggered c = (event_count (endpoint_of c) type \<noteq> 0) \<and>
     (event_guards (endpoint_of c) type = nullptr \<longrightarrow> event_count (endpoint_of c) type = 0)"

section \<open>The contract of a counted status\<close>

text \<open>
  \<open>add\<close> and \<open>clear\<close> are how the code updates a stored status after a reading and at a take,
  \<open>untaken\<close> the number of events it computes from it.
\<close>

locale counted_status =
  fixes add :: "'s \<Rightarrow> 's \<Rightarrow> 's"
    and clear :: "'s \<Rightarrow> 's"
    and untaken :: "'s \<Rightarrow> size_t"
    and reading :: "history \<Rightarrow> 's \<Rightarrow> bool"
    and tracks :: "history \<Rightarrow> history \<Rightarrow> 's \<Rightarrow> bool"
    and events :: "history \<Rightarrow> nat"
  assumes add_tracks: "tracks t g s \<Longrightarrow> reading h now \<Longrightarrow> tracks t h (add s now)"
    and clear_tracks: "tracks t h s \<Longrightarrow> tracks h h (clear s)"
    and untaken_events: "tracks t h s \<Longrightarrow> later t h \<Longrightarrow> bounded h \<Longrightarrow> bounded t \<Longrightarrow>
      untaken s = of_nat (events h - events t)"
    and events_mono: "later t h \<Longrightarrow> events t \<le> events h"
    and events_bound: "bounded h \<Longrightarrow> events h < 2 ^ 32"
begin

lemma unat_untaken:
  assumes "tracks t h s" "later t h" "bounded h" "bounded t"
  shows "unat (untaken s) = events h - events t"
proof -
  have "events h - events t < 2 ^ 64"
    using events_bound [OF assms(3)] by simp
  then show ?thesis
    using untaken_events [OF assms] by (simp add: unat_of_nat)
qed

lemma read_into_tracks:
  assumes "getter_reads getter reading h d" "tracks t g s"
    and "read_into add s (getter d) = (ok, s')"
  shows "tracks t (if ok then h else g) s'"
  using assms add_tracks
  by (auto simp: getter_reads_def read_into_def split: option.splits)

lemma read_into_failed: "read_into add s (getter d) = (False, s') \<Longrightarrow> s' = s"
  by (auto simp: read_into_def split: option.splits)

end

section \<open>The contract of an endpoint's counted event\<close>

locale counted_event = counted_status add clear untaken reading tracks events
  for add :: "'s \<Rightarrow> 's \<Rightarrow> 's" and clear untaken reading tracks events +
  fixes type :: rmw_event_type
    and stored :: "'a endpoint_scheme \<Rightarrow> 's"
    and getter :: "'d \<Rightarrow> 's option"
    and read :: "'d \<Rightarrow> 'a endpoint_scheme \<Rightarrow> bool \<times> 'a endpoint_scheme"
    and all_untaken :: "'a endpoint_scheme \<Rightarrow> rmw_event_type \<Rightarrow> size_t"
    and out :: "'a endpoint_scheme \<Rightarrow> event_info \<times> 'a endpoint_scheme"
  assumes stored_guards: "stored (i\<lparr>event_guards := a\<rparr>) = stored i"
    and stored_callbacks: "stored (i\<lparr>event_callbacks := b\<rparr>) = stored i"
    and stored_user_data: "stored (i\<lparr>event_user_data := b\<rparr>) = stored i"
    and stored_count: "stored (i\<lparr>event_count := n\<rparr>) = stored i"
    and stored_reported: "stored (i\<lparr>event_reported := n\<rparr>) = stored i"
    and read_result: "fst (read d i) = fst (read_into add (stored i) (getter d))"
    and read_stored: "stored (snd (read d i)) = snd (read_into add (stored i) (getter d))"
    and read_frame: "endpoint.truncate (snd (read d i)) = endpoint.truncate i"
    and out_stored: "stored (snd (out i)) = clear (stored i)"
    and out_frame: "endpoint.truncate (snd (out i)) = endpoint.truncate i"
    and untaken_stored: "all_untaken i type = untaken (stored i)"
begin

lemmas stored_simps = stored_guards stored_callbacks stored_user_data stored_count stored_reported

end
section \<open>Generic lemmas\<close>

lemma truncate_eq_iff:
  "endpoint.truncate i = endpoint.truncate j \<longleftrightarrow>
     event_guards i = event_guards j \<and> event_callbacks i = event_callbacks j \<and>
     event_user_data i = event_user_data j \<and> event_count i = event_count j \<and>
     event_reported i = event_reported j"
  by (simp add: endpoint.truncate_def)

lemma apply_effects_simps [simp]:
  "endpoint_of (apply_effects i es c) = i"
  "dds (apply_effects i es c) = dds c"
  "taken_at (apply_effects i es c) = taken_at c"
  "told (apply_effects i es c) = told c + told_by es"
  "triggered (apply_effects i es c) = trigger_after (triggered c) es"
  by (simp_all add: apply_effects_def)

lemma apply_effects_endpoint [simp]:
  "apply_effects i es (c\<lparr>endpoint_of := j\<rparr>) = apply_effects i es c"
  by (simp add: apply_effects_def)

lemma unat_add_diff_64:
  assumes "unat a \<le> n" "n < 2 ^ 64" "unat b = n - unat a"
  shows "unat (a + b :: 64 word) = n"
  using assms by (simp add: unat_word_ariths)

section \<open>Every step keeps the invariant\<close>

context counted_event begin

abbreviation "accounts \<equiv> event_accounting type stored tracks events"

lemma accountsD:
  assumes "accounts seen c"
  shows "later (taken_at c) seen" "later seen (dds c)" "bounded (taken_at c)" "bounded seen"
    "bounded (dds c)" "tracks (taken_at c) seen (stored (endpoint_of c))"
    "unat (event_count (endpoint_of c) type) \<le> events seen - events (taken_at c)"
    "told c = unat (event_reported (endpoint_of c) type)"
    "unat (event_reported (endpoint_of c) type) \<le> unat (event_count (endpoint_of c) type)"
    "triggered c = (event_count (endpoint_of c) type \<noteq> 0)"
    "event_guards (endpoint_of c) type = nullptr \<longrightarrow> event_count (endpoint_of c) type = 0"
  using assms by (auto simp: event_accounting_def)

lemma events_since_bound:
  assumes "accounts seen c"
  shows "events seen - events (taken_at c) < 2 ^ 32"
  using events_bound [OF accountsD(4) [OF assms]] by simp

lemma read_fields:
  assumes "read d i = (ok, j)"
  shows "event_guards j = event_guards i" "event_callbacks j = event_callbacks i"
    "event_user_data j = event_user_data i" "event_count j = event_count i"
    "event_reported j = event_reported i"
  using read_frame [of d i] assms by (simp_all add: truncate_eq_iff)

lemma read_stored_into:
  assumes "read d i = (ok, j)"
  shows "read_into add (stored i) (getter d) = (ok, stored j)"
  using read_result [of d i] read_stored [of d i] assms by (simp add: prod_eq_iff)

lemma read_accounts:
  assumes inv: "accounts seen c" and reads: "getter_reads getter reading (dds c) d"
    and read: "read d (endpoint_of c) = (ok, j)"
  shows "accounts (if ok then dds c else seen) (c\<lparr>endpoint_of := j\<rparr>)"
proof -
  note I = accountsD [OF inv] and R = read_fields [OF read]
  have T: "tracks (taken_at c) (if ok then dds c else seen) (stored j)"
    by (rule read_into_tracks [OF reads I(6) read_stored_into [OF read]])
  have "events seen - events (taken_at c) \<le> events (dds c) - events (taken_at c)"
    using events_mono [OF I(2)] by simp
  then show ?thesis
    using I R T later_trans [OF I(1,2)] by (auto simp: event_accounting_def)
qed

lemma unat_uncounted:
  assumes "accounts seen c"
  shows "unat (uncounted_events all_untaken type (endpoint_of c)) =
    events seen - events (taken_at c) - unat (event_count (endpoint_of c) type)"
proof -
  note I = accountsD [OF assms]
  let ?u = "all_untaken (endpoint_of c) type" and ?n = "event_count (endpoint_of c) type"
  have u: "unat ?u = events seen - events (taken_at c)"
    using unat_untaken [OF I(6,1,4,3)] by (simp add: untaken_stored)
  show ?thesis
  proof (cases "?u > ?n")
    case True
    then have "unat (?u - ?n) = unat ?u - unat ?n"
      by (simp add: unat_sub)
    with True u show ?thesis by (simp add: uncounted_events_def)
  next
    case False
    then have "unat ?u \<le> unat ?n" by (simp add: word_le_nat_alt word_less_nat_alt)
    with False u I(7) show ?thesis by (simp add: uncounted_events_def)
  qed
qed

text \<open>Counting the uncounted events brings the count to the number of untaken events.\<close>

lemma count_events_accounts:
  assumes inv: "accounts seen c"
    and guard: "event_guards (endpoint_of c) type \<noteq> nullptr"
    and added: "added = uncounted_events all_untaken type (endpoint_of c)" "added \<noteq> 0"
    and count: "count_events_locked type added (endpoint_of c) = (cb, ud, i, es)"
    and es': "es' = es @ (if cb \<noteq> nullptr then [InvokeCallback cb ud added] else [])"
  shows "accounts seen (apply_effects i es' c)"
    and "unat (event_count i type) = events seen - events (taken_at c)"
proof -
  note I = accountsD [OF inv]
  let ?n = "event_count (endpoint_of c) type" and ?r = "event_reported (endpoint_of c) type"
  have sum: "unat (?n + added) = events seen - events (taken_at c)"
    using unat_add_diff_64 [OF I(7)] events_since_bound [OF inv] unat_uncounted [OF inv] added(1)
    by simp
  have i: "event_count i type = ?n + added" "stored i = stored (endpoint_of c)"
    "event_guards i type = event_guards (endpoint_of c) type"
    and es: "es = [SetTrigger (event_guards (endpoint_of c) type) True]"
    and cb: "cb = event_callbacks (endpoint_of c) type"
    and rep: "event_reported i type = (if cb \<noteq> nullptr then ?r + added else ?r)"
    using count by (auto simp: count_events_locked_def Let_def stored_simps split: if_splits)
  show "unat (event_count i type) = events seen - events (taken_at c)"
    using sum i by simp
  have "?n + added \<noteq> 0"
  proof
    assume "?n + added = 0"
    then have "unat ?n + unat added = 0"
      using sum unat_uncounted [OF inv] added(1) I(7) by simp
    then show False using added(2) by (simp add: unsigned_eq_0_iff)
  qed
  have sum': "unat ?n + unat added = unat (?n + added)"
    using sum unat_uncounted [OF inv] added(1) I(7) by simp
  moreover have "unat (?r + added) = unat ?r + unat added"
  proof -
    have "unat ?r + unat added < 2 ^ 64"
      using sum' I(9) unsigned_less [of "?n + added", where ?'a = nat] by simp
    then show ?thesis by (simp add: unat_word_ariths)
  qed
  ultimately show "accounts seen (apply_effects i es' c)"
    using I guard i es cb rep es' sum \<open>?n + added \<noteq> 0\<close>
    by (auto simp: event_accounting_def)
qed


lemma accounts_no_effect:
  assumes "accounts seen (c\<lparr>endpoint_of := j\<rparr>)"
  shows "accounts seen (apply_effects j [] c)"
  using assms by (simp add: event_accounting_def)

lemma listener_accounts:
  assumes inv: "accounts seen c" and reads: "getter_reads getter reading (dds c) d"
    and guard: "event_guards (endpoint_of c) type \<noteq> nullptr"
    and run: "on_counted_status (read d) all_untaken type (endpoint_of c) = (i, es)"
  shows "\<exists>s. accounts s (apply_effects i es c)"
    and "fst (read d (endpoint_of c)) \<Longrightarrow>
      unat (event_count i type) = events (dds c) - events (taken_at c)"
proof -
  obtain ok j where read: "read d (endpoint_of c) = (ok, j)" by fastforce
  let ?c = "c\<lparr>endpoint_of := j\<rparr>" and ?s = "if ok then dds c else seen"
  have inv': "accounts ?s ?c" by (rule read_accounts [OF inv reads read])
  have guard': "event_guards (endpoint_of ?c) type \<noteq> nullptr"
    using guard read_fields [OF read] by simp
  let ?added = "uncounted_events all_untaken type (endpoint_of ?c)"
  have "accounts ?s (apply_effects i es c) \<and>
    unat (event_count i type) = events ?s - events (taken_at c)"
  proof (cases "?added = 0")
    case True
    with run read have "i = j" "es = []"
      by (auto simp: on_counted_status_def on_status_def)
    with inv' unat_uncounted [OF inv'] True accountsD(7) [OF inv'] show ?thesis
      by (auto intro: accounts_no_effect)
  next
    case False
    obtain cb ud i' es' where count: "count_events_locked type ?added j = (cb, ud, i', es')"
      by (metis prod_cases4)
    with run read False have "i = i'"
      "es = es' @ (if cb \<noteq> nullptr then [InvokeCallback cb ud ?added] else [])"
      by (auto simp: on_counted_status_def on_status_def)
    with count_events_accounts [OF inv' guard' refl False] count show ?thesis by simp
  qed
  then show "\<exists>s. accounts s (apply_effects i es c)"
    and "fst (read d (endpoint_of c)) \<Longrightarrow>
      unat (event_count i type) = events (dds c) - events (taken_at c)"
    using read by auto
qed

lemma query_accounts:
  assumes inv: "accounts seen c" and reads: "getter_reads getter reading (dds c) d"
    and run: "read_matched_count (read d) all_untaken cur type (endpoint_of c) = (n, i, es)"
  shows "\<exists>s. accounts s (apply_effects i es c)"
proof -
  obtain ok j where read: "read d (endpoint_of c) = (ok, j)" by fastforce
  let ?c = "c\<lparr>endpoint_of := j\<rparr>" and ?s = "if ok then dds c else seen"
  have inv': "accounts ?s ?c" by (rule read_accounts [OF inv reads read])
  let ?added = "uncounted_events all_untaken type (endpoint_of ?c)"
  show ?thesis
  proof (cases "\<not> ok \<or> event_guards j type = nullptr \<or> ?added = 0")
    case True
    with run read have "i = j" "es = []"
      by (auto simp: read_matched_count_def Let_def split: if_splits)
    with inv' show ?thesis by (auto intro: accounts_no_effect)
  next
    case False
    obtain cb ud i' es' where count: "count_events_locked type ?added j = (cb, ud, i', es')"
      by (metis prod_cases4)
    with run read False have "i = i'"
      "es = es' @ (if cb \<noteq> nullptr then [InvokeCallback cb ud ?added] else [])"
      by (auto simp: read_matched_count_def Let_def split: if_splits)
    with count_events_accounts(1) [OF inv' _ refl] False count show ?thesis
      by (auto intro!: exI [of _ ?s])
  qed
qed

lemma take_accounts:
  assumes inv: "accounts seen c" and reads: "getter_reads getter reading (dds c) d"
    and guard: "event_guards (endpoint_of c) type \<noteq> nullptr"
    and read: "read d (endpoint_of c) = (True, j)" and out: "out j = (info, k)"
    and reset: "reset_event type k = (i, es)"
  shows "accounts (dds c) ((apply_effects i es c)\<lparr>taken_at := dds c, told := 0\<rparr>)"
proof -
  have inv': "accounts (dds c) (c\<lparr>endpoint_of := j\<rparr>)"
    using read_accounts [OF inv reads read] by simp
  note I = accountsD [OF inv', simplified]
  have "tracks (dds c) (dds c) (stored k)"
    using clear_tracks [OF I(6)] out_stored [of j] out by simp
  moreover have "event_guards k = event_guards (endpoint_of c)"
    using out_frame [of j] out read_fields [OF read] by (simp add: truncate_eq_iff)
  ultimately show ?thesis
    using reset I guard
    by (auto simp: event_accounting_def reset_event_def stored_simps)
qed

lemma store_accounts:
  "accounts seen c \<Longrightarrow> accounts seen (apply_effects (store_callback type cb ud (endpoint_of c)) [] c)"
  by (simp add: event_accounting_def store_callback_def stored_simps)

lemma after_set_accounts:
  assumes inv: "accounts seen c" and run: "after_set_callback type (endpoint_of c) = (i, es)"
  shows "accounts seen (apply_effects i es c)"
    and "event_callbacks (endpoint_of c) type \<noteq> nullptr \<Longrightarrow>
      told c + told_by es = unat (event_count i type)"
proof -
  note I = accountsD [OF inv]
  let ?n = "event_count (endpoint_of c) type" and ?r = "event_reported (endpoint_of c) type"
  have d: "unat (?n - ?r) = unat ?n - unat ?r"
    using I(9) by (simp add: unat_sub word_le_nat_alt)
  then have z: "?n - ?r = 0 \<Longrightarrow> unat ?n = unat ?r"
    using I(9) by simp
  show "accounts seen (apply_effects i es c)"
    using run I d z by (auto simp: event_accounting_def after_set_callback_def stored_simps Let_def
        split: if_splits)
  show "event_callbacks (endpoint_of c) type \<noteq> nullptr \<Longrightarrow>
      told c + told_by es = unat (event_count i type)"
    using run I d z by (auto simp: after_set_callback_def Let_def split: if_splits)
qed

lemma init_guard_accounts:
  assumes "accounts seen c" "init_guard created type (endpoint_of c) = (ok, i)"
  shows "accounts seen (apply_effects i [] c)"
  using assms by (auto simp: event_accounting_def init_guard_def stored_simps Let_def)

lemma init_count_accounts:
  assumes inv: "accounts seen c" and reads: "getter_reads getter reading (dds c) d"
    and guard: "event_guards (endpoint_of c) type \<noteq> nullptr"
    and run: "init_count (read d) all_untaken type (endpoint_of c) = (i, es)"
  shows "\<exists>s. accounts s (apply_effects i es c)"
proof -
  obtain ok j where read: "read d (endpoint_of c) = (ok, j)" by fastforce
  let ?c = "c\<lparr>endpoint_of := j\<rparr>" and ?s = "if ok then dds c else seen"
  have inv': "accounts ?s ?c" by (rule read_accounts [OF inv reads read])
  note I = accountsD [OF inv', simplified]
  have u: "unat (all_untaken j type) = events ?s - events (taken_at c)"
    using unat_untaken [OF I(6,1,4,3)] by (simp add: untaken_stored)
  have "accounts ?s (apply_effects i es c)"
    using run read I u guard read_fields [OF read]
    by (auto simp: event_accounting_def init_count_def stored_simps Let_def)
  then show ?thesis by blast
qed

theorem step_accounts:
  assumes inv: "accounts seen c"
    and step: "event_step type read all_untaken out current (getter_reads getter reading) c c'"
  shows "\<exists>s. accounts s c'"
  using step
proof (cases rule: event_step.cases)
  case (change h)
  with inv show ?thesis
    by (auto simp: event_accounting_def intro!: exI [of _ seen] dest: later_trans)
next
  case (listener d i es)
  with listener_accounts(1) [OF inv] show ?thesis by simp
next
  case (query d cur n i es)
  with query_accounts [OF inv] show ?thesis by simp
next
  case (take_failed d i)
  with read_accounts [OF inv, of d False i] show ?thesis by (auto intro: accounts_no_effect)
next
  case (take d i info i' i'' es)
  with take_accounts [OF inv] show ?thesis by blast
next
  case (store cb ud)
  with store_accounts [OF inv] show ?thesis by blast
next
  case (after_set i es)
  with after_set_accounts(1) [OF inv] show ?thesis by blast
next
  case (init_guard created ok i)
  with init_guard_accounts [OF inv] show ?thesis by blast
next
  case (init_count d i es)
  with init_count_accounts [OF inv] show ?thesis by simp
qed

theorem reachable_accounts:
  assumes "event_reachable type read all_untaken out current (getter_reads getter reading) impl c"
    and "fresh_endpoint impl" and "tracks no_history no_history (stored impl)"
  shows "\<exists>s. accounts s c"
  using assms(1)
proof (induction rule: event_reachable.induct)
  case start
  show ?case
    using assms(2,3)
    by (intro exI [of _ no_history])
      (simp add: event_accounting_def initial_config_def fresh_endpoint_def bounded_def no_history_def)
next
  case (step c c')
  then show ?case using step_accounts by blast
qed

section \<open>What the invariant gives\<close>

lemma reachable_counts:
  assumes "event_reachable type read all_untaken out current (getter_reads getter reading) impl c"
    and "fresh_endpoint impl" and "tracks no_history no_history (stored impl)"
  shows "told c \<le> unat (event_count (endpoint_of c) type)"
    and "unat (event_count (endpoint_of c) type) \<le> events (dds c) - events (taken_at c)"
    and "triggered c = (event_count (endpoint_of c) type \<noteq> 0)"
proof -
  obtain seen where inv: "accounts seen c"
    using reachable_accounts [OF assms] by blast
  note I = accountsD [OF inv]
  show "told c \<le> unat (event_count (endpoint_of c) type)"
    "triggered c = (event_count (endpoint_of c) type \<noteq> 0)"
    using I(8,9,10) by auto
  show "unat (event_count (endpoint_of c) type) \<le> events (dds c) - events (taken_at c)"
    using I(7) events_mono [OF I(2)] by simp
qed

lemma reachable_listener:
  assumes "event_reachable type read all_untaken out current (getter_reads getter reading) impl c"
    and "fresh_endpoint impl" and "tracks no_history no_history (stored impl)"
    and "event_guards (endpoint_of c) type \<noteq> nullptr"
    and now: "getter d = Some now" "reading (dds c) now"
    and "on_counted_status (read d) all_untaken type (endpoint_of c) = (i, es)"
  shows "unat (event_count i type) = events (dds c) - events (taken_at c) \<and>
    trigger_after (triggered c) es = (events (dds c) \<noteq> events (taken_at c))"
proof -
  obtain seen where inv: "accounts seen c"
    using reachable_accounts [OF assms(1,2,3)] by blast
  have reads: "getter_reads getter reading (dds c) d" and ok: "fst (read d (endpoint_of c))"
    using now by (simp_all add: getter_reads_def read_result read_into_def)
  have n: "unat (event_count i type) = events (dds c) - events (taken_at c)"
    using listener_accounts(2) [OF inv reads assms(4,7) ok] .
  obtain seen' where "accounts seen' (apply_effects i es c)"
    using listener_accounts(1) [OF inv reads assms(4,7)] by blast
  from accountsD(10) [OF this] have "trigger_after (triggered c) es = (event_count i type \<noteq> 0)"
    by simp
  moreover have "events (taken_at c) \<le> events (dds c)"
    using events_mono [OF later_trans [OF accountsD(1) [OF inv] accountsD(2) [OF inv]]] .
  ultimately show ?thesis
    using n by (metis diff_is_0_eq diff_self_eq_0 le_antisym unat_0 unsigned_eq_0_iff)
qed

lemma reachable_read:
  assumes "event_reachable type read all_untaken out current (getter_reads getter reading) impl c"
    and "fresh_endpoint impl" and "tracks no_history no_history (stored impl)"
    and now: "getter d = Some now" "reading (dds c) now"
    and read: "read d (endpoint_of c) = (ok, j)"
  shows "ok" and "tracks (taken_at c) (dds c) (stored j)"
    and "later (taken_at c) (dds c)" and "bounded (dds c)" and "bounded (taken_at c)"
proof -
  obtain seen where inv: "accounts seen c"
    using reachable_accounts [OF assms(1,2,3)] by blast
  have reads: "getter_reads getter reading (dds c) d" and ok: ok
    using now read_result [of d "endpoint_of c"] read
    by (simp_all add: getter_reads_def read_into_def)
  have inv': "accounts (dds c) (c\<lparr>endpoint_of := j\<rparr>)"
    using read_accounts [OF inv reads read] ok by simp
  show ok by (rule ok)
  show "tracks (taken_at c) (dds c) (stored j)" "later (taken_at c) (dds c)" "bounded (dds c)"
    "bounded (taken_at c)"
    using accountsD [OF inv'] by simp_all
qed

lemma reachable_callback:
  assumes "event_reachable type read all_untaken out current (getter_reads getter reading) impl c"
    and "fresh_endpoint impl" and "tracks no_history no_history (stored impl)"
    and set: "set_callback type cb ud (endpoint_of c) = (i, es)" and cb: "cb \<noteq> nullptr"
  shows "told c + told_by es = unat (event_count (endpoint_of c) type)"
    and "event_reported i type = event_count i type"
proof -
  obtain seen where inv: "accounts seen c"
    using reachable_accounts [OF assms(1,2,3)] by blast
  let ?c = "apply_effects (store_callback type cb ud (endpoint_of c)) [] c"
  have run: "after_set_callback type (endpoint_of ?c) = (i, es)"
    using set by (simp add: set_callback_def)
  have "event_callbacks (endpoint_of ?c) type \<noteq> nullptr"
    using cb by (simp add: store_callback_def)
  from after_set_accounts(2) [OF store_accounts [OF inv] run this]
  have "told c + told_by es = unat (event_count i type)" by simp
  moreover have "event_count i type = event_count (endpoint_of c) type"
    using set by (auto simp: set_callback_def after_set_callback_def store_callback_def Let_def
        split: if_splits)
  ultimately show "told c + told_by es = unat (event_count (endpoint_of c) type)"
    by simp
  show "event_reported i type = event_count i type"
    using set cb by (auto simp: set_callback_def after_set_callback_def store_callback_def Let_def
        split: if_splits)
qed

end

end
