(* ===== verification/Event_Props.thy ===== *)
theory Event_Props
  imports Event_Machine
begin

text \<open>
  The eight counted event types of the two kinds of endpoint satisfy the contracts of
  \<open>Event_Machine\<close>, so their accounting is exact: the interpretations, and the properties of the
  counted events written over the publisher's and the subscription's own operations.
\<close>

section \<open>The stored statuses satisfy the contract\<close>

lemma matched_untaken:
  assumes "matched_tracks t h s" "later t h" "bounded h" "bounded t"
  shows "untaken_matched_events s = of_nat (matched_events h - matched_events t)"
proof -
  have r: "total_count_change s = of_nat (raised h - raised t)"
    using assms by (simp add: matched_tracks_def later_def)
  have d: "total_count_change s - current_count_change s = of_nat (dropped h - dropped t)"
    using assms by (simp add: matched_tracks_def later_def)
  have "raised h - raised t < 2 ^ 31" "dropped h - dropped t < 2 ^ 31"
    using assms(3) by (auto simp: bounded_def)
  then have "untaken_matched_events s = of_nat (raised h - raised t) + of_nat (dropped h - dropped t)"
    unfolding untaken_matched_events_def d unfolding r by (simp only: scast_of_nat_32_64)
  also have "\<dots> = of_nat (matched_events h - matched_events t)"
    using assms(2) by (simp add: matched_events_def later_def)
  finally show ?thesis .
qed

lemma count_untaken:
  assumes "count_tracks t h s" "later t h" "bounded h"
  shows "untaken_count_events s = of_nat (raised h - raised t)"
proof -
  have r: "total_count_change s = of_nat (raised h - raised t)"
    using assms by (simp add: count_tracks_def later_def)
  have "raised h - raised t < 2 ^ 31"
    using assms(3) by (auto simp: bounded_def)
  then show ?thesis
    unfolding untaken_count_events_def r by (simp only: scast_of_nat_32_64)
qed

lemmas event_tracking_defs =
  matched_reading_def matched_tracks_def matched_events_def count_reading_def count_tracks_def
  clear_matched_def clear_count_def later_def bounded_def

interpretation publication_matched: counted_status add_publication_matched clear_matched
  untaken_matched_events matched_reading matched_tracks matched_events
  by unfold_locales
    (auto simp: add_publication_matched_def event_tracking_defs matched_untaken [simplified event_tracking_defs])

interpretation subscription_matched: counted_status add_subscription_matched clear_matched
  untaken_matched_events matched_reading matched_tracks matched_events
  by unfold_locales
    (auto simp: add_subscription_matched_def event_tracking_defs matched_untaken [simplified event_tracking_defs])

interpretation plain_count: counted_status add_count clear_count untaken_count_events
  count_reading count_tracks raised
  by unfold_locales
    (auto simp: add_count_def add_count_changes_def event_tracking_defs
      count_untaken [simplified event_tracking_defs])

interpretation deadline_count: counted_status add_deadline_changes clear_count untaken_count_events
  count_reading count_tracks raised
  by unfold_locales
    (auto simp: add_deadline_changes_def add_count_changes_def Let_def event_tracking_defs
      count_untaken [simplified event_tracking_defs])

interpretation incompatible_qos_count: counted_status add_incompatible_qos_changes clear_count
  untaken_count_events count_reading count_tracks raised
  by unfold_locales
    (auto simp: add_incompatible_qos_changes_def add_count_changes_def Let_def event_tracking_defs
      count_untaken [simplified event_tracking_defs])

section \<open>The endpoints' counted events satisfy the contract\<close>

definition read_publisher ::
  "rmw_event_type \<Rightarrow> writer_status \<Rightarrow> publisher_events \<Rightarrow> bool \<times> publisher_events" where
  "read_publisher type d impl = publisher_read_status d impl type"

definition read_subscription ::
  "rmw_event_type \<Rightarrow> reader_status \<Rightarrow> subscription_events \<Rightarrow> bool \<times> subscription_events" where
  "read_subscription type d impl = subscription_read_status d impl type"

lemmas endpoint_defs =
  read_publisher_def publisher_read_status_def publisher_untaken_def publisher_output_def
  read_subscription_def subscription_read_status_def subscription_untaken_def subscription_output_def
  truncate_eq_iff split_beta Let_def

text \<open>
  A publisher's event part is extended by the rest of \<^verbatim>\<open>PublisherImpl\<close>; the record extension is
  trivial here because the event operations do not look at it.
\<close>

interpretation publication_matched_event: counted_event add_publication_matched clear_matched
  untaken_matched_events matched_reading matched_tracks matched_events RMW_EVENT_PUBLICATION_MATCHED
  publication_matched writer_publication_matched "read_publisher RMW_EVENT_PUBLICATION_MATCHED"
  publisher_untaken "publisher_output ids RMW_EVENT_PUBLICATION_MATCHED" for ids
  by unfold_locales (simp_all add: endpoint_defs)

interpretation liveliness_lost_event: counted_event add_count clear_count untaken_count_events
  count_reading count_tracks raised RMW_EVENT_LIVELINESS_LOST
  liveliness_lost writer_liveliness_lost "read_publisher RMW_EVENT_LIVELINESS_LOST"
  publisher_untaken "publisher_output ids RMW_EVENT_LIVELINESS_LOST" for ids
  by unfold_locales (simp_all add: endpoint_defs)

interpretation offered_deadline_event: counted_event add_deadline_changes clear_count
  untaken_count_events count_reading count_tracks raised RMW_EVENT_OFFERED_DEADLINE_MISSED
  offered_deadline_missed writer_offered_deadline_missed
  "read_publisher RMW_EVENT_OFFERED_DEADLINE_MISSED"
  publisher_untaken "publisher_output ids RMW_EVENT_OFFERED_DEADLINE_MISSED" for ids
  by unfold_locales (simp_all add: endpoint_defs)

interpretation offered_qos_event: counted_event add_incompatible_qos_changes clear_count
  untaken_count_events count_reading count_tracks raised RMW_EVENT_OFFERED_QOS_INCOMPATIBLE
  offered_incompatible_qos writer_offered_incompatible_qos
  "read_publisher RMW_EVENT_OFFERED_QOS_INCOMPATIBLE"
  publisher_untaken "publisher_output ids RMW_EVENT_OFFERED_QOS_INCOMPATIBLE" for ids
  by unfold_locales (simp_all add: endpoint_defs)

interpretation subscription_matched_event: counted_event add_subscription_matched clear_matched
  untaken_matched_events matched_reading matched_tracks matched_events RMW_EVENT_SUBSCRIPTION_MATCHED
  subscription_matched reader_subscription_matched "read_subscription RMW_EVENT_SUBSCRIPTION_MATCHED"
  subscription_untaken "subscription_output ids RMW_EVENT_SUBSCRIPTION_MATCHED" for ids
  by unfold_locales (simp_all add: endpoint_defs)

interpretation requested_deadline_event: counted_event add_deadline_changes clear_count
  untaken_count_events count_reading count_tracks raised RMW_EVENT_REQUESTED_DEADLINE_MISSED
  requested_deadline_missed reader_requested_deadline_missed
  "read_subscription RMW_EVENT_REQUESTED_DEADLINE_MISSED"
  subscription_untaken "subscription_output ids RMW_EVENT_REQUESTED_DEADLINE_MISSED" for ids
  by unfold_locales (simp_all add: endpoint_defs)

interpretation requested_qos_event: counted_event add_incompatible_qos_changes clear_count
  untaken_count_events count_reading count_tracks raised RMW_EVENT_REQUESTED_QOS_INCOMPATIBLE
  requested_incompatible_qos reader_requested_incompatible_qos
  "read_subscription RMW_EVENT_REQUESTED_QOS_INCOMPATIBLE"
  subscription_untaken "subscription_output ids RMW_EVENT_REQUESTED_QOS_INCOMPATIBLE" for ids
  by unfold_locales (simp_all add: endpoint_defs)

interpretation message_lost_event: counted_event add_count clear_count untaken_count_events
  count_reading count_tracks raised RMW_EVENT_MESSAGE_LOST
  sample_lost reader_sample_lost "read_subscription RMW_EVENT_MESSAGE_LOST"
  subscription_untaken "subscription_output ids RMW_EVENT_MESSAGE_LOST" for ids
  by unfold_locales (simp_all add: endpoint_defs)

section \<open>Runs of a publisher's and a subscription's event\<close>

text \<open>
  \<open>event_total\<close> is how many events of a type zzdds has seen. A fresh endpoint is what the
  constructors of \<^verbatim>\<open>PublisherImpl\<close> and \<^verbatim>\<open>SubscriptionImpl\<close> make: no guards, no callbacks, zero
  counts, zero statuses. A run is any interleaving of the steps of \<open>event_step\<close> from there.
\<close>

definition event_total :: "rmw_event_type \<Rightarrow> history \<Rightarrow> nat" where
  "event_total type h =
     (if type = RMW_EVENT_PUBLICATION_MATCHED \<or> type = RMW_EVENT_SUBSCRIPTION_MATCHED
      then matched_events h else raised h)"

definition fresh_publisher :: "publisher_events \<Rightarrow> bool" where
  "fresh_publisher impl \<longleftrightarrow> fresh_endpoint impl \<and>
     publication_matched impl = zero_publication_matched \<and> liveliness_lost impl = zero_count \<and>
     offered_deadline_missed impl = zero_deadline \<and>
     offered_incompatible_qos impl = zero_incompatible_qos"

definition fresh_subscription :: "subscription_events \<Rightarrow> bool" where
  "fresh_subscription impl \<longleftrightarrow> fresh_endpoint impl \<and>
     subscription_matched impl = zero_subscription_matched \<and>
     liveliness_changed impl = zero_liveliness_changed \<and>
     requested_deadline_missed impl = zero_deadline \<and>
     requested_incompatible_qos impl = zero_incompatible_qos \<and> sample_lost impl = zero_count"

text \<open>What a writer's and a reader's getter for the type may return when zzdds has seen \<open>h\<close>.\<close>

definition writer_reads :: "rmw_event_type \<Rightarrow> history \<Rightarrow> writer_status \<Rightarrow> bool" where
  "writer_reads type =
     (if type = RMW_EVENT_PUBLICATION_MATCHED
        then getter_reads writer_publication_matched matched_reading
      else if type = RMW_EVENT_LIVELINESS_LOST then getter_reads writer_liveliness_lost count_reading
      else if type = RMW_EVENT_OFFERED_DEADLINE_MISSED
        then getter_reads writer_offered_deadline_missed count_reading
      else getter_reads writer_offered_incompatible_qos count_reading)"

definition reader_reads :: "rmw_event_type \<Rightarrow> history \<Rightarrow> reader_status \<Rightarrow> bool" where
  "reader_reads type =
     (if type = RMW_EVENT_SUBSCRIPTION_MATCHED
        then getter_reads reader_subscription_matched matched_reading
      else if type = RMW_EVENT_REQUESTED_DEADLINE_MISSED
        then getter_reads reader_requested_deadline_missed count_reading
      else if type = RMW_EVENT_MESSAGE_LOST then getter_reads reader_sample_lost count_reading
      else getter_reads reader_requested_incompatible_qos count_reading)"

definition writer_answers :: "rmw_event_type \<Rightarrow> writer_status \<Rightarrow> bool" where
  "writer_answers type d \<longleftrightarrow>
     (if type = RMW_EVENT_PUBLICATION_MATCHED then writer_publication_matched d \<noteq> None
      else if type = RMW_EVENT_LIVELINESS_LOST then writer_liveliness_lost d \<noteq> None
      else if type = RMW_EVENT_OFFERED_DEADLINE_MISSED then writer_offered_deadline_missed d \<noteq> None
      else writer_offered_incompatible_qos d \<noteq> None)"

definition reader_answers :: "rmw_event_type \<Rightarrow> reader_status \<Rightarrow> bool" where
  "reader_answers type d \<longleftrightarrow>
     (if type = RMW_EVENT_SUBSCRIPTION_MATCHED then reader_subscription_matched d \<noteq> None
      else if type = RMW_EVENT_REQUESTED_DEADLINE_MISSED then reader_requested_deadline_missed d \<noteq> None
      else if type = RMW_EVENT_MESSAGE_LOST then reader_sample_lost d \<noteq> None
      else reader_requested_incompatible_qos d \<noteq> None)"

definition publisher_run ::
  "dds_policy_ids \<Rightarrow> rmw_event_type \<Rightarrow> publisher_events \<Rightarrow> publisher_events config \<Rightarrow> bool" where
  "publisher_run ids type =
     event_reachable type (read_publisher type) publisher_untaken (publisher_output ids type)
       (if type = RMW_EVENT_PUBLICATION_MATCHED
        then Some (\<lambda>impl. current_count (publication_matched impl)) else None)
       (writer_reads type)"

definition subscription_run ::
  "dds_policy_ids \<Rightarrow> rmw_event_type \<Rightarrow> subscription_events \<Rightarrow> subscription_events config \<Rightarrow> bool" where
  "subscription_run ids type =
     event_reachable type (read_subscription type) subscription_untaken (subscription_output ids type)
       (if type = RMW_EVENT_SUBSCRIPTION_MATCHED
        then Some (\<lambda>impl. current_count (subscription_matched impl)) else None)
       (reader_reads type)"

lemmas zero_tracks =
  zero_publication_matched_def zero_subscription_matched_def zero_count_def zero_deadline_def
  zero_incompatible_qos_def matched_tracks_def matched_reading_def count_tracks_def count_reading_def
  no_history_def

lemma fresh_publisherD:
  assumes "fresh_publisher impl"
  shows "fresh_endpoint impl" "matched_tracks no_history no_history (publication_matched impl)"
    "count_tracks no_history no_history (liveliness_lost impl)"
    "count_tracks no_history no_history (offered_deadline_missed impl)"
    "count_tracks no_history no_history (offered_incompatible_qos impl)"
  using assms by (simp_all add: fresh_publisher_def zero_tracks)

lemma fresh_subscriptionD:
  assumes "fresh_subscription impl"
  shows "fresh_endpoint impl" "matched_tracks no_history no_history (subscription_matched impl)"
    "count_tracks no_history no_history (requested_deadline_missed impl)"
    "count_tracks no_history no_history (requested_incompatible_qos impl)"
    "count_tracks no_history no_history (sample_lost impl)"
  using assms by (simp_all add: fresh_subscription_def zero_tracks)

lemmas run_defs =
  publisher_run_def writer_reads_def subscription_run_def reader_reads_def event_total_def

lemma publisher_event_cases:
  assumes "publisher_event type"
  obtains "type = RMW_EVENT_PUBLICATION_MATCHED" | "type = RMW_EVENT_LIVELINESS_LOST"
    | "type = RMW_EVENT_OFFERED_DEADLINE_MISSED" | "type = RMW_EVENT_OFFERED_QOS_INCOMPATIBLE"
  using assms by (auto simp: publisher_event_def)

text \<open>Every subscription event but liveliness changed is counted exactly.\<close>

definition counted_subscription_event :: "rmw_event_type \<Rightarrow> bool" where
  "counted_subscription_event type \<longleftrightarrow>
     subscription_event type \<and> type \<noteq> RMW_EVENT_LIVELINESS_CHANGED"

lemma counted_subscription_event_cases:
  assumes "counted_subscription_event type"
  obtains "type = RMW_EVENT_SUBSCRIPTION_MATCHED" | "type = RMW_EVENT_REQUESTED_DEADLINE_MISSED"
    | "type = RMW_EVENT_REQUESTED_QOS_INCOMPATIBLE" | "type = RMW_EVENT_MESSAGE_LOST"
  using assms by (auto simp: counted_subscription_event_def subscription_event_def)

lemmas publisher_interpretation_counts =
  publication_matched_event.reachable_counts liveliness_lost_event.reachable_counts
  offered_deadline_event.reachable_counts offered_qos_event.reachable_counts

lemmas subscription_interpretation_counts =
  subscription_matched_event.reachable_counts requested_deadline_event.reachable_counts
  requested_qos_event.reachable_counts message_lost_event.reachable_counts

text \<open>
  C1. Events of a publisher are never counted twice nor reported twice: in every interleaving of
  listeners, matched-count queries, takes, callback registrations and initialisations, for each of
  the four event types, callbacks were told about at most the counted events, at most the events
  zzdds saw since the last take are counted, and the event's guard condition is triggered exactly
  when events are counted.
\<close>

theorem publisher_events_accounted:
  assumes "publisher_run ids type impl c" "fresh_publisher impl" "publisher_event type"
  shows "told c \<le> unat (event_count (endpoint_of c) type) \<and>
    unat (event_count (endpoint_of c) type) \<le> event_total type (dds c) - event_total type (taken_at c) \<and>
    triggered c = (event_count (endpoint_of c) type \<noteq> 0)"
  using assms(1,3) fresh_publisherD [OF assms(2)]
  by (auto simp: run_defs elim!: publisher_event_cases dest: publisher_interpretation_counts)

text \<open>
  C2. The same accounting for a subscription's events: matched, deadline missed, incompatible QoS
  and message lost.
\<close>

theorem subscription_events_accounted:
  assumes "subscription_run ids type impl c" "fresh_subscription impl"
    and "counted_subscription_event type"
  shows "told c \<le> unat (event_count (endpoint_of c) type) \<and>
    unat (event_count (endpoint_of c) type) \<le> event_total type (dds c) - event_total type (taken_at c) \<and>
    triggered c = (event_count (endpoint_of c) type \<noteq> 0)"
  using assms(1,3) fresh_subscriptionD [OF assms(2)]
  by (auto simp: run_defs elim!: counted_subscription_event_cases dest: subscription_interpretation_counts)

section \<open>The listener leaves no event uncounted\<close>

lemma publisher_listener_read:
  "publisher_listener type d impl = on_counted_status (read_publisher type d) publisher_untaken type impl"
  by (simp add: publisher_listener_def read_publisher_def [abs_def])

lemma subscription_listener_read:
  "subscription_listener type d impl =
     on_counted_status (read_subscription type d) subscription_untaken type impl"
  by (simp add: subscription_listener_def read_subscription_def [abs_def])

lemmas answers_defs = writer_answers_def reader_answers_def getter_reads_def

text \<open>
  C3. After a writer's listener has run (and the zzdds getter answered it), every event zzdds has
  seen since the last take is counted, exactly once, and the event is triggered iff there is one;
  this holds however listeners, takes and queries raced before.
\<close>

theorem publisher_listener_exact:
  assumes "publisher_run ids type impl c" "fresh_publisher impl" "publisher_event type"
    and "event_guards (endpoint_of c) type \<noteq> nullptr"
    and "writer_answers type d" "writer_reads type (dds c) d"
    and "publisher_listener type d (endpoint_of c) = (i, es)"
  shows "unat (event_count i type) = event_total type (dds c) - event_total type (taken_at c) \<and>
    trigger_after (triggered c) es = (event_total type (dds c) \<noteq> event_total type (taken_at c))"
  using assms(3)
proof (cases rule: publisher_event_cases)
  case 1
  with assms(1,4-) fresh_publisherD [OF assms(2)] show ?thesis
    by (auto simp: run_defs answers_defs publisher_listener_read
        dest: publication_matched_event.reachable_listener)
next
  case 2
  with assms(1,4-) fresh_publisherD [OF assms(2)] show ?thesis
    by (auto simp: run_defs answers_defs publisher_listener_read
        dest: liveliness_lost_event.reachable_listener)
next
  case 3
  with assms(1,4-) fresh_publisherD [OF assms(2)] show ?thesis
    by (auto simp: run_defs answers_defs publisher_listener_read
        dest: offered_deadline_event.reachable_listener)
next
  case 4
  with assms(1,4-) fresh_publisherD [OF assms(2)] show ?thesis
    by (auto simp: run_defs answers_defs publisher_listener_read
        dest: offered_qos_event.reachable_listener)
qed

text \<open>C4. The same for the reader's four counting listeners.\<close>

theorem subscription_listener_exact:
  assumes "subscription_run ids type impl c" "fresh_subscription impl"
    and "counted_subscription_event type" "event_guards (endpoint_of c) type \<noteq> nullptr"
    and "reader_answers type d" "reader_reads type (dds c) d"
    and "subscription_listener type d (endpoint_of c) = (i, es)"
  shows "unat (event_count i type) = event_total type (dds c) - event_total type (taken_at c) \<and>
    trigger_after (triggered c) es = (event_total type (dds c) \<noteq> event_total type (taken_at c))"
  using assms(3)
proof (cases rule: counted_subscription_event_cases)
  case 1
  with assms(1,4-) fresh_subscriptionD [OF assms(2)] show ?thesis
    by (auto simp: run_defs answers_defs subscription_listener_read
        dest: subscription_matched_event.reachable_listener)
next
  case 2
  with assms(1,4-) fresh_subscriptionD [OF assms(2)] show ?thesis
    by (auto simp: run_defs answers_defs subscription_listener_read
        dest: requested_deadline_event.reachable_listener)
next
  case 3
  with assms(1,4-) fresh_subscriptionD [OF assms(2)] show ?thesis
    by (auto simp: run_defs answers_defs subscription_listener_read
        dest: requested_qos_event.reachable_listener)
next
  case 4
  with assms(1,4-) fresh_subscriptionD [OF assms(2)] show ?thesis
    by (auto simp: run_defs answers_defs subscription_listener_read
        dest: message_lost_event.reachable_listener)
qed

section \<open>Two concrete runs\<close>

text \<open>
  A publisher whose matched event was initialised and given a callback, then saw three matches and
  one unmatch; and a subscription whose message lost event saw two losses.
\<close>

definition some_ids :: dds_policy_ids where
  "some_ids = \<lparr>durability_id = 2, deadline_id = 4, liveliness_id = 8, reliability_id = 11,
     history_id = 13, lifespan_id = 21\<rparr>"

definition new_publisher :: publisher_events where
  "new_publisher = \<lparr>event_guards = (\<lambda>_. nullptr), event_callbacks = (\<lambda>_. nullptr),
     event_user_data = (\<lambda>_. nullptr), event_count = (\<lambda>_. 0), event_reported = (\<lambda>_. 0),
     publication_matched = zero_publication_matched, liveliness_lost = zero_count,
     offered_deadline_missed = zero_deadline, offered_incompatible_qos = zero_incompatible_qos\<rparr>"

definition new_subscription :: subscription_events where
  "new_subscription = \<lparr>event_guards = (\<lambda>_. nullptr), event_callbacks = (\<lambda>_. nullptr),
     event_user_data = (\<lambda>_. nullptr), event_count = (\<lambda>_. 0), event_reported = (\<lambda>_. 0),
     subscription_matched = zero_subscription_matched, liveliness_changed = zero_liveliness_changed,
     requested_deadline_missed = zero_deadline, requested_incompatible_qos = zero_incompatible_qos,
     sample_lost = zero_count, reliable_writer_ready_count = 0\<rparr>"

definition demo_writer :: writer_status where
  "demo_writer = \<lparr>writer_publication_matched = Some \<lparr>total_count = 3, total_count_change = 3,
       current_count = 2, current_count_change = 2, last_subscription_handle = 6\<rparr>,
     writer_liveliness_lost = None, writer_offered_deadline_missed = None,
     writer_offered_incompatible_qos = None\<rparr>"

definition demo_reader :: reader_status where
  "demo_reader = \<lparr>reader_subscription_matched = None, reader_liveliness_changed = None,
     reader_requested_deadline_missed = None, reader_requested_incompatible_qos = None,
     reader_sample_lost = Some \<lparr>total_count = 2, total_count_change = 2\<rparr>\<rparr>"

definition demo_publisher_config :: "publisher_events config" where
  "demo_publisher_config =
     (apply_effects (store_callback RMW_EVENT_PUBLICATION_MATCHED 9 5
        (snd (init_guard 7 RMW_EVENT_PUBLICATION_MATCHED new_publisher))) []
        (initial_config new_publisher))\<lparr>dds := \<lparr>raised = 3, dropped = 1\<rparr>\<rparr>"

definition demo_subscription_config :: "subscription_events config" where
  "demo_subscription_config =
     (apply_effects (snd (init_guard 7 RMW_EVENT_MESSAGE_LOST new_subscription)) []
        (initial_config new_subscription))\<lparr>dds := \<lparr>raised = 2, dropped = 0\<rparr>\<rparr>"

lemmas demo_defs =
  demo_publisher_config_def demo_subscription_config_def new_publisher_def new_subscription_def
  demo_writer_def demo_reader_def initial_config_def apply_effects_def init_guard_def
  store_callback_def no_history_def fresh_endpoint_def fresh_publisher_def fresh_subscription_def
  zero_publication_matched_def zero_subscription_matched_def zero_count_def zero_deadline_def
  zero_incompatible_qos_def zero_liveliness_changed_def Let_def

lemma demo_fresh: "fresh_publisher new_publisher" "fresh_subscription new_subscription"
  by (simp_all add: demo_defs)

lemma event_reachable_change:
  assumes "event_reachable type read untaken out current reads impl c" "later (dds c) h" "bounded h"
  shows "event_reachable type read untaken out current reads impl (c\<lparr>dds := h\<rparr>)"
  using assms by (blast intro: event_reachable.step event_step.change)

lemma event_reachable_init_guard:
  assumes "event_reachable type read untaken out current reads impl c"
  shows "event_reachable type read untaken out current reads impl
    (apply_effects (snd (init_guard created type (endpoint_of c))) [] c)"
  using assms by (metis event_reachable.step event_step.init_guard prod.collapse)

lemma event_reachable_store:
  assumes "event_reachable type read untaken out current reads impl c"
    and "event_guards (endpoint_of c) type \<noteq> nullptr"
  shows "event_reachable type read untaken out current reads impl
    (apply_effects (store_callback type cb ud (endpoint_of c)) [] c)"
  using assms by (metis event_reachable.step event_step.store)

lemma demo_publisher_run:
  "publisher_run ids RMW_EVENT_PUBLICATION_MATCHED new_publisher demo_publisher_config"
proof -
  let ?c = "apply_effects (snd (init_guard 7 RMW_EVENT_PUBLICATION_MATCHED new_publisher)) []
    (initial_config new_publisher)"
  have "publisher_run ids RMW_EVENT_PUBLICATION_MATCHED new_publisher ?c"
    using event_reachable_init_guard [OF event_reachable.start, of _ _ _ _ _ _ new_publisher 7]
    by (simp add: publisher_run_def initial_config_def)
  from event_reachable_change [OF event_reachable_store [OF this [unfolded publisher_run_def], of 9 5],
      of "\<lparr>raised = 3, dropped = 1\<rparr>"]
  show ?thesis
    by (simp add: publisher_run_def demo_defs later_def bounded_def)
qed

lemma demo_subscription_run:
  "subscription_run ids RMW_EVENT_MESSAGE_LOST new_subscription demo_subscription_config"
proof -
  let ?c = "apply_effects (snd (init_guard 7 RMW_EVENT_MESSAGE_LOST new_subscription)) []
    (initial_config new_subscription)"
  have "subscription_run ids RMW_EVENT_MESSAGE_LOST new_subscription ?c"
    using event_reachable_init_guard [OF event_reachable.start, of _ _ _ _ _ _ new_subscription 7]
    by (simp add: subscription_run_def initial_config_def)
  from event_reachable_change [OF this [unfolded subscription_run_def],
      of "\<lparr>raised = 2, dropped = 0\<rparr>"]
  show ?thesis
    by (simp add: subscription_run_def demo_defs later_def bounded_def)
qed

lemmas demo_run_defs =
  demo_defs on_counted_status_def on_status_def uncounted_events_def count_events_locked_def
  publisher_listener_def subscription_listener_def publisher_read_status_def
  subscription_read_status_def read_into_def add_publication_matched_def add_count_def
  add_count_changes_def publisher_untaken_def subscription_untaken_def untaken_matched_events_def
  untaken_count_events_def

theorem publisher_events_accounted_witness:
  "told demo_publisher_config \<le> unat (event_count (endpoint_of demo_publisher_config) RMW_EVENT_PUBLICATION_MATCHED) \<and>
   event_total RMW_EVENT_PUBLICATION_MATCHED (dds demo_publisher_config) = 4"
  using publisher_events_accounted [OF demo_publisher_run demo_fresh(1)]
  by (simp add: publisher_event_def) (simp add: event_total_def matched_events_def demo_defs)

theorem subscription_events_accounted_witness:
  "told demo_subscription_config \<le> unat (event_count (endpoint_of demo_subscription_config) RMW_EVENT_MESSAGE_LOST) \<and>
   event_total RMW_EVENT_MESSAGE_LOST (dds demo_subscription_config) = 2"
  using subscription_events_accounted [OF demo_subscription_run demo_fresh(2)]
  by (simp add: counted_subscription_event_def subscription_event_def)
    (simp add: event_total_def demo_defs)

theorem publisher_listener_exact_witness:
  "unat (event_count (fst (publisher_listener RMW_EVENT_PUBLICATION_MATCHED demo_writer
     (endpoint_of demo_publisher_config))) RMW_EVENT_PUBLICATION_MATCHED) = 4"
proof -
  have "publisher_listener RMW_EVENT_PUBLICATION_MATCHED demo_writer (endpoint_of demo_publisher_config) =
    (fst (publisher_listener RMW_EVENT_PUBLICATION_MATCHED demo_writer (endpoint_of demo_publisher_config)),
     snd (publisher_listener RMW_EVENT_PUBLICATION_MATCHED demo_writer (endpoint_of demo_publisher_config)))"
    by simp
  from publisher_listener_exact [OF demo_publisher_run demo_fresh(1) _ _ _ _ this] show ?thesis
    by (simp add: publisher_event_def answers_defs writer_reads_def matched_reading_def
        event_total_def matched_events_def demo_defs)
qed

theorem subscription_listener_exact_witness:
  "unat (event_count (fst (subscription_listener RMW_EVENT_MESSAGE_LOST demo_reader
     (endpoint_of demo_subscription_config))) RMW_EVENT_MESSAGE_LOST) = 2"
proof -
  have "subscription_listener RMW_EVENT_MESSAGE_LOST demo_reader (endpoint_of demo_subscription_config) =
    (fst (subscription_listener RMW_EVENT_MESSAGE_LOST demo_reader (endpoint_of demo_subscription_config)),
     snd (subscription_listener RMW_EVENT_MESSAGE_LOST demo_reader (endpoint_of demo_subscription_config)))"
    by simp
  from subscription_listener_exact [OF demo_subscription_run demo_fresh(2) _ _ _ _ this] show ?thesis
    by (simp add: counted_subscription_event_def subscription_event_def answers_defs reader_reads_def
        count_reading_def event_total_def demo_defs)
qed

section \<open>Taking an event reports the changes since the last take\<close>

text \<open>
  \<open>reports t h info\<close>: the structure that \<^verbatim>\<open>rmw_take_event\<close> fills says, as numbers, what zzdds has
  seen by \<open>h\<close> and what of it since \<open>t\<close>.
\<close>

fun reports :: "history \<Rightarrow> history \<Rightarrow> event_info \<Rightarrow> bool" where
  "reports t h (MatchedInfo all change current current_change) \<longleftrightarrow>
     unat all = raised h \<and> unat change = raised h - raised t \<and>
     unat current = raised h - dropped h \<and>
     sint current_change = (int (raised h) - int (dropped h)) - (int (raised t) - int (dropped t))"
| "reports t h (CountInfo all change) \<longleftrightarrow>
     sint all = int (raised h) \<and> sint change = int (raised h) - int (raised t)"
| "reports t h (MessageLostInfo all change) \<longleftrightarrow>
     unat all = raised h \<and> unat change = raised h - raised t"
| "reports t h (IncompatibleQosInfo all change policy) \<longleftrightarrow>
     sint all = int (raised h) \<and> sint change = int (raised h) - int (raised t)"
| "reports t h (LivelinessChangedInfo _ _ _ _) \<longleftrightarrow> False"

lemma sint_of_int_32:
  assumes "- (2 ^ 31) \<le> k" "k < 2 ^ 31"
  shows "sint (of_int k :: 32 word) = k"
  using assms by (simp add: signed_of_int signed_take_bit_int_eq_self)

lemma unat_of_nat_64:
  assumes "n < 2 ^ 31"
  shows "unat (of_nat n :: 64 word) = n"
  using assms by (simp add: unat_of_nat)

lemma matched_reports:
  assumes "matched_tracks t h s" "later t h" "bounded h" "bounded t"
  shows "reports t h (matched_info s)"
proof -
  have total: "total_count s = of_nat (raised h)"
    and change: "total_count_change s = of_nat (raised h - raised t)"
    and current: "current_count s = of_nat (raised h - dropped h)"
    and current_change: "current_count_change s =
      of_int ((int (raised h) - int (dropped h)) - (int (raised t) - int (dropped t)))"
    using assms by (simp_all add: matched_tracks_def matched_reading_def later_def bounded_def)
  have b: "raised h < 2 ^ 31" "raised h - raised t < 2 ^ 31" "raised h - dropped h < 2 ^ 31"
    using assms by (auto simp: bounded_def)
  show ?thesis
    unfolding matched_info_def total change current current_change reports.simps
      scast_of_nat_32_64 [OF b(1)] scast_of_nat_32_64 [OF b(2)] scast_of_nat_32_64 [OF b(3)]
      unat_of_nat_64 [OF b(1)] unat_of_nat_64 [OF b(2)] unat_of_nat_64 [OF b(3)]
    using assms by (subst sint_of_int_32) (auto simp: bounded_def later_def)
qed

lemma count_reports:
  assumes "count_tracks t h s" "later t h" "bounded h"
  shows "reports t h (CountInfo (total_count s) (total_count_change s))"
    and "reports t h (MessageLostInfo (size_of_int32 (total_count s)) (size_of_int32 (total_count_change s)))"
    and "reports t h (IncompatibleQosInfo (total_count s) (total_count_change s) policy)"
proof -
  have total: "total_count s = of_nat (raised h)"
    and change: "total_count_change s = of_nat (raised h - raised t)"
    using assms by (simp_all add: count_tracks_def count_reading_def later_def)
  have b: "raised h < 2 ^ 31" "raised h - raised t < 2 ^ 31" and l: "raised t \<le> raised h"
    using assms by (auto simp: bounded_def later_def)
  show "reports t h (CountInfo (total_count s) (total_count_change s))"
    "reports t h (IncompatibleQosInfo (total_count s) (total_count_change s) policy)"
    unfolding total change reports.simps sint_of_nat_32 [OF b(1)] sint_of_nat_32 [OF b(2)]
    using l by auto
  show "reports t h (MessageLostInfo (size_of_int32 (total_count s)) (size_of_int32 (total_count_change s)))"
    unfolding total change reports.simps scast_of_nat_32_64 [OF b(1)] scast_of_nat_32_64 [OF b(2)]
      unat_of_nat_64 [OF b(1)] unat_of_nat_64 [OF b(2)]
    by simp
qed

text \<open>What a take leaves behind, whatever the type.\<close>

lemma publisher_take_read:
  "publisher_take ids d type impl =
     (let (ok, i) = read_publisher type d impl
      in if \<not> ok then (None, i, [])
         else let (info, i) = publisher_output ids type i; (i, es) = reset_event type i
           in (Some info, i, es))"
  by (simp add: publisher_take_def read_publisher_def)

lemma subscription_take_read:
  "subscription_take ids d type impl =
     (let (ok, i) = read_subscription type d impl
      in if \<not> ok then (None, i, [])
         else let (info, i) = subscription_output ids type i; (i, es) = reset_event type i
           in (Some info, i, es))"
  by (simp add: subscription_take_def read_subscription_def)

lemma publisher_output_untaken:
  assumes "publisher_event type"
  shows "publisher_untaken (snd (publisher_output ids type impl)) type = 0"
  using assms
  by (cases rule: publisher_event_cases)
    (simp_all add: publisher_untaken_def publisher_output_def clear_matched_def clear_count_def
      untaken_matched_events_def untaken_count_events_def)

lemma subscription_output_untaken:
  assumes "subscription_event type"
  shows "subscription_untaken (snd (subscription_output ids type impl)) type = 0"
  using assms
  by (auto simp: subscription_event_def subscription_untaken_def subscription_output_def
      clear_matched_def clear_count_def clear_liveliness_def untaken_matched_events_def
      untaken_count_events_def untaken_liveliness_events_def max_int32_def abs_int32_def)

lemma reset_publisher:
  assumes "reset_event type impl = (i, es)"
  shows "event_count i type = 0 \<and> event_reported i type = 0 \<and>
    publisher_untaken i type = publisher_untaken impl type \<and> trigger_after b es = False"
  using assms by (auto simp: reset_event_def publisher_untaken_def split: rmw_event_type.split)

lemma reset_subscription:
  assumes "reset_event type impl = (i, es)"
  shows "event_count i type = 0 \<and> event_reported i type = 0 \<and>
    subscription_untaken i type = subscription_untaken impl type \<and> trigger_after b es = False"
  using assms by (auto simp: reset_event_def subscription_untaken_def split: rmw_event_type.split)

lemma publisher_run_output:
  assumes "publisher_run ids type impl c" "fresh_publisher impl" "publisher_event type"
    and "writer_answers type d" "writer_reads type (dds c) d"
    and "read_publisher type d (endpoint_of c) = (ok, i)"
  shows "ok \<and> reports (taken_at c) (dds c) (fst (publisher_output ids type i))"
  using assms(3)
proof (cases rule: publisher_event_cases)
  case 1
  with assms(1,4-) fresh_publisherD [OF assms(2)] show ?thesis
    by (auto simp: run_defs answers_defs publisher_output_def simp del: reports.simps intro!: matched_reports
        dest: publication_matched_event.reachable_read)
next
  case 2
  with assms(1,4-) fresh_publisherD [OF assms(2)] show ?thesis
    by (auto simp: run_defs answers_defs publisher_output_def simp del: reports.simps intro!: count_reports
        dest: liveliness_lost_event.reachable_read)
next
  case 3
  with assms(1,4-) fresh_publisherD [OF assms(2)] show ?thesis
    by (auto simp: run_defs answers_defs publisher_output_def simp del: reports.simps intro!: count_reports
        dest: offered_deadline_event.reachable_read)
next
  case 4
  with assms(1,4-) fresh_publisherD [OF assms(2)] show ?thesis
    by (auto simp: run_defs answers_defs publisher_output_def simp del: reports.simps intro!: count_reports
        dest: offered_qos_event.reachable_read)
qed

lemma subscription_run_output:
  assumes "subscription_run ids type impl c" "fresh_subscription impl" "counted_subscription_event type"
    and "reader_answers type d" "reader_reads type (dds c) d"
    and "read_subscription type d (endpoint_of c) = (ok, i)"
  shows "ok \<and> reports (taken_at c) (dds c) (fst (subscription_output ids type i))"
  using assms(3)
proof (cases rule: counted_subscription_event_cases)
  case 1
  with assms(1,4-) fresh_subscriptionD [OF assms(2)] show ?thesis
    by (auto simp: run_defs answers_defs subscription_output_def simp del: reports.simps
        intro!: matched_reports dest: subscription_matched_event.reachable_read)
next
  case 2
  with assms(1,4-) fresh_subscriptionD [OF assms(2)] show ?thesis
    by (auto simp: run_defs answers_defs subscription_output_def simp del: reports.simps
        intro!: count_reports dest: requested_deadline_event.reachable_read)
next
  case 3
  with assms(1,4-) fresh_subscriptionD [OF assms(2)] show ?thesis
    by (auto simp: run_defs answers_defs subscription_output_def simp del: reports.simps
        intro!: count_reports dest: requested_qos_event.reachable_read)
next
  case 4
  with assms(1,4-) fresh_subscriptionD [OF assms(2)] show ?thesis
    by (auto simp: run_defs answers_defs subscription_output_def simp del: reports.simps
        intro!: count_reports dest: message_lost_event.reachable_read)
qed

text \<open>
  C5. Taking a publisher's event reports exactly what happened since the previous take: the
  structure the application gets holds zzdds's totals now and the numbers of matches, unmatches or
  occurrences since the last take, none lost and none reported by an earlier take, whatever
  listeners and queries read in between; afterwards nothing is counted or untaken and the guard
  condition is not triggered.
\<close>

theorem publisher_take_exact:
  assumes "publisher_run ids type impl c" "fresh_publisher impl" "publisher_event type"
    and "writer_answers type d" "writer_reads type (dds c) d"
    and "publisher_take ids d type (endpoint_of c) = (result, i, es)"
  shows "(\<exists>info. result = Some info \<and> reports (taken_at c) (dds c) info) \<and>
    event_count i type = 0 \<and> event_reported i type = 0 \<and> publisher_untaken i type = 0 \<and>
    \<not> trigger_after (triggered c) es"
proof -
  obtain ok j where read: "read_publisher type d (endpoint_of c) = (ok, j)" by fastforce
  note out = publisher_run_output [OF assms(1-5) read]
  let ?o = "publisher_output ids type j"
  have take: "result = Some (fst ?o)" "reset_event type (snd ?o) = (i, es)"
    using assms(6) read out by (auto simp: publisher_take_read Let_def split: prod.splits)
  with out reset_publisher [OF take(2)] publisher_output_untaken [OF assms(3)] show ?thesis by simp
qed

text \<open>C6. The same for taking a subscription's counted events.\<close>

theorem subscription_take_exact:
  assumes "subscription_run ids type impl c" "fresh_subscription impl"
    and "counted_subscription_event type"
    and "reader_answers type d" "reader_reads type (dds c) d"
    and "subscription_take ids d type (endpoint_of c) = (result, i, es)"
  shows "(\<exists>info. result = Some info \<and> reports (taken_at c) (dds c) info) \<and>
    event_count i type = 0 \<and> event_reported i type = 0 \<and> subscription_untaken i type = 0 \<and>
    \<not> trigger_after (triggered c) es"
proof -
  obtain ok j where read: "read_subscription type d (endpoint_of c) = (ok, j)" by fastforce
  note out = subscription_run_output [OF assms(1-5) read]
  let ?o = "subscription_output ids type j"
  have "subscription_event type" using assms(3) by (simp add: counted_subscription_event_def)
  moreover have take: "result = Some (fst ?o)" "reset_event type (snd ?o) = (i, es)"
    using assms(6) read out by (auto simp: subscription_take_read Let_def split: prod.splits)
  ultimately show ?thesis
    using out reset_subscription [OF take(2)] subscription_output_untaken by simp
qed

theorem publisher_take_exact_witness:
  "\<exists>info i es. publisher_take some_ids demo_writer RMW_EVENT_PUBLICATION_MATCHED
      (endpoint_of demo_publisher_config) = (Some info, i, es) \<and>
    reports no_history \<lparr>raised = 3, dropped = 1\<rparr> info"
proof -
  obtain r i es where take: "publisher_take some_ids demo_writer RMW_EVENT_PUBLICATION_MATCHED
      (endpoint_of demo_publisher_config) = (r, i, es)" by (metis prod_cases3)
  have "taken_at demo_publisher_config = no_history" "dds demo_publisher_config = \<lparr>raised = 3, dropped = 1\<rparr>"
    by (simp_all add: demo_defs)
  with publisher_take_exact [OF demo_publisher_run demo_fresh(1) _ _ _ take] take show ?thesis
    by (auto simp: publisher_event_def answers_defs writer_reads_def matched_reading_def demo_writer_def
        simp del: reports.simps)
qed

theorem subscription_take_exact_witness:
  "\<exists>info i es. subscription_take some_ids demo_reader RMW_EVENT_MESSAGE_LOST
      (endpoint_of demo_subscription_config) = (Some info, i, es) \<and>
    reports no_history \<lparr>raised = 2, dropped = 0\<rparr> info"
proof -
  obtain r i es where take: "subscription_take some_ids demo_reader RMW_EVENT_MESSAGE_LOST
      (endpoint_of demo_subscription_config) = (r, i, es)" by (metis prod_cases3)
  have "taken_at demo_subscription_config = no_history"
    "dds demo_subscription_config = \<lparr>raised = 2, dropped = 0\<rparr>"
    by (simp_all add: demo_defs)
  with subscription_take_exact [OF demo_subscription_run demo_fresh(2) _ _ _ take] take show ?thesis
    by (auto simp: counted_subscription_event_def subscription_event_def answers_defs reader_reads_def
        count_reading_def demo_reader_def simp del: reports.simps)
qed

section \<open>Registering a callback\<close>

text \<open>
  C11. A callback registered on a publisher's event is told, at registration, about exactly the
  counted events that no callback was told about before: with it, the events callbacks were told
  about since the last take are all the counted ones. So nothing counted before a registration is
  missed and nothing is told twice.
\<close>

theorem publisher_callback_told:
  assumes "publisher_run ids type impl c" "fresh_publisher impl" "publisher_event type"
    and "set_callback type cb ud (endpoint_of c) = (i, es)" "cb \<noteq> nullptr"
  shows "told c + told_by es = unat (event_count (endpoint_of c) type) \<and>
    event_reported i type = event_count i type"
  using assms(1,3-) fresh_publisherD [OF assms(2)]
  by (auto simp: run_defs elim!: publisher_event_cases
      dest: publication_matched_event.reachable_callback liveliness_lost_event.reachable_callback
        offered_deadline_event.reachable_callback offered_qos_event.reachable_callback)

text \<open>C12. The same for a callback registered on a subscription's counted event.\<close>

theorem subscription_callback_told:
  assumes "subscription_run ids type impl c" "fresh_subscription impl"
    and "counted_subscription_event type"
    and "set_callback type cb ud (endpoint_of c) = (i, es)" "cb \<noteq> nullptr"
  shows "told c + told_by es = unat (event_count (endpoint_of c) type) \<and>
    event_reported i type = event_count i type"
  using assms(1,3-) fresh_subscriptionD [OF assms(2)]
  by (auto simp: run_defs elim!: counted_subscription_event_cases
      dest: subscription_matched_event.reachable_callback requested_deadline_event.reachable_callback
        requested_qos_event.reachable_callback message_lost_event.reachable_callback)

section \<open>Liveliness changed\<close>

text \<open>
  The counts at the last take are the stored counts minus the untaken changes; readings leave them.
\<close>

definition liveliness_baseline :: "liveliness_changed_status \<Rightarrow> int32 \<times> int32" where
  "liveliness_baseline s =
     (alive_count s - alive_count_change s, not_alive_count s - not_alive_count_change s)"

lemma liveliness_baseline_add [simp]:
  "liveliness_baseline (add_liveliness_changed stored now) = liveliness_baseline stored"
  by (simp add: liveliness_baseline_def add_liveliness_changed_def)

lemma liveliness_differs_baseline:
  "liveliness_differs status stored \<longleftrightarrow>
     (alive_count status, not_alive_count status) \<noteq> liveliness_baseline stored"
  by (auto simp: liveliness_differs_def liveliness_baseline_def)

text \<open>
  C13. The liveliness listener counts one event exactly when the status zzdds passed differs from
  the one at the last take, and none otherwise, however often the status was read in between; the
  stored baseline it compares with is moved by a take, to the counts that take reports, and by
  nothing else.
\<close>

theorem liveliness_changed_counts:
  "event_count (fst (liveliness_changed_listener status d impl)) RMW_EVENT_LIVELINESS_CHANGED =
     event_count impl RMW_EVENT_LIVELINESS_CHANGED +
       (if (alive_count status, not_alive_count status) = liveliness_baseline (liveliness_changed impl)
        then 0 else 1) \<and>
   liveliness_baseline (liveliness_changed (fst (liveliness_changed_listener status d impl))) =
     liveliness_baseline (liveliness_changed impl) \<and>
   (case subscription_take ids d RMW_EVENT_LIVELINESS_CHANGED impl of
      (Some (LivelinessChangedInfo alive not_alive _ _), i, _) \<Rightarrow>
        liveliness_baseline (liveliness_changed i) = (alive, not_alive)
    | (Some _, _, _) \<Rightarrow> False
    | (None, i, _) \<Rightarrow> liveliness_baseline (liveliness_changed i) = liveliness_baseline (liveliness_changed impl))"
  by (auto simp: liveliness_changed_listener_def on_status_def subscription_read_status_def
      read_into_def count_events_locked_def liveliness_differs_baseline Let_def
      subscription_take_def subscription_output_def reset_event_def clear_liveliness_def
      liveliness_baseline_def split: option.splits prod.splits)
    (simp_all add: liveliness_baseline_def add_liveliness_changed_def)

section \<open>Initialising an event again\<close>

text \<open>
  \<open>untold_change untaken type r p i es\<close>: from \<open>p\<close> to \<open>i\<close> with the effects \<open>es\<close>, no callback was told
  anything, what was reported and the callbacks are the same, and on success the count of the type is
  what it was, or the untaken changes if it was zero.
\<close>

definition untold_change ::
  "('a endpoint_scheme \<Rightarrow> rmw_event_type \<Rightarrow> size_t) \<Rightarrow> rmw_event_type \<Rightarrow> rmw_ret \<Rightarrow> 'a endpoint_scheme \<Rightarrow>
   'a endpoint_scheme \<Rightarrow> effect list \<Rightarrow> bool" where
  "untold_change untaken type r p i es \<longleftrightarrow>
     told_by es = 0 \<and> event_reported i = event_reported p \<and> event_callbacks i = event_callbacks p \<and>
     event_count i = (if r = RMW_RET_OK \<and> event_count p type = 0
       then (event_count p)(type := untaken i type) else event_count p)"

lemma initialize_publisher_event:
  "case initialize_event apply_publisher_listener (\<lambda>impl. publisher_read_status d impl type)
      publisher_untaken created installed event data type (p :: publisher_events) of (r, e, i, es) \<Rightarrow>
    untold_change publisher_untaken type r p i es"
proof -
  have read: "event_reported (snd (publisher_read_status d j type)) = event_reported j"
    "event_callbacks (snd (publisher_read_status d j type)) = event_callbacks j"
    "event_count (snd (publisher_read_status d j type)) = event_count j" for j :: publisher_events
    by (simp_all add: publisher_read_status_def split_beta Let_def split: rmw_event_type.split)
  have untaken: "publisher_untaken (j\<lparr>event_count := n\<rparr>) = publisher_untaken j" for j :: publisher_events and n
    by (rule ext) (simp add: publisher_untaken_def split: rmw_event_type.split)
  show ?thesis
    using read untaken
    by (auto simp: untold_change_def initialize_event_def init_guard_def init_count_def
        apply_publisher_listener_def Let_def split_beta split: option.splits if_splits)
qed

lemma initialize_subscription_event:
  "case initialize_event apply_subscription_listener (\<lambda>impl. subscription_read_status d impl type)
      subscription_untaken created installed event data type (p :: subscription_events) of (r, e, i, es) \<Rightarrow>
    untold_change subscription_untaken type r p i es"
proof -
  have read: "event_reported (snd (subscription_read_status d j type)) = event_reported j"
    "event_callbacks (snd (subscription_read_status d j type)) = event_callbacks j"
    "event_count (snd (subscription_read_status d j type)) = event_count j" for j :: subscription_events
    by (simp_all add: subscription_read_status_def split_beta Let_def split: rmw_event_type.split)
  have untaken: "subscription_untaken (j\<lparr>event_count := n\<rparr>) = subscription_untaken j" for j :: subscription_events and n
    by (rule ext) (simp add: subscription_untaken_def split: rmw_event_type.split)
  show ?thesis
    using read untaken
    by (auto simp: untold_change_def initialize_event_def init_guard_def init_count_def
        apply_subscription_listener_def Let_def split_beta split: option.splits if_splits)
qed

text \<open>
  C16. Initialising an event of a publisher or of a subscription never tells a callback anything: the
  changes that \<^verbatim>\<open>initialize_event\<close> finds and counts (when nothing was counted yet) trigger the guard
  condition but are not reported, even when a callback is registered for the type because the event
  was initialised before.
\<close>

theorem initialize_event_untold:
  "(case initialize_event apply_publisher_listener (\<lambda>impl. publisher_read_status wd impl type)
      publisher_untaken created installed event data type (p :: publisher_events) of (r, e, i, es) \<Rightarrow>
    told_by es = 0 \<and> event_reported i = event_reported p \<and> event_callbacks i = event_callbacks p \<and>
    event_count i = (if r = RMW_RET_OK \<and> event_count p type = 0
      then (event_count p)(type := publisher_untaken i type) else event_count p)) \<and>
   (case initialize_event apply_subscription_listener (\<lambda>impl. subscription_read_status rd impl type)
      subscription_untaken created installed event data type (s :: subscription_events) of (r, e, i, es) \<Rightarrow>
    told_by es = 0 \<and> event_reported i = event_reported s \<and> event_callbacks i = event_callbacks s \<and>
    event_count i = (if r = RMW_RET_OK \<and> event_count s type = 0
      then (event_count s)(type := subscription_untaken i type) else event_count s))"
  using initialize_publisher_event initialize_subscription_event unfolding untold_change_def ..

theorem publisher_callback_told_witness:
  "\<exists>i es. set_callback RMW_EVENT_PUBLICATION_MATCHED 4 0 (endpoint_of demo_publisher_config) = (i, es) \<and>
    told demo_publisher_config + told_by es = 0"
proof -
  obtain i es where set: "set_callback RMW_EVENT_PUBLICATION_MATCHED 4 0
      (endpoint_of demo_publisher_config) = (i, es)" by (metis prod.exhaust)
  from publisher_callback_told [OF demo_publisher_run demo_fresh(1) _ this] set show ?thesis
    by (simp add: publisher_event_def) (simp add: demo_defs)
qed

theorem subscription_callback_told_witness:
  "\<exists>i es. set_callback RMW_EVENT_MESSAGE_LOST 4 0 (endpoint_of demo_subscription_config) = (i, es) \<and>
    told demo_subscription_config + told_by es = 0"
proof -
  obtain i es where set: "set_callback RMW_EVENT_MESSAGE_LOST 4 0
      (endpoint_of demo_subscription_config) = (i, es)" by (metis prod.exhaust)
  from subscription_callback_told [OF demo_subscription_run demo_fresh(2) _ this] set show ?thesis
    by (simp add: counted_subscription_event_def subscription_event_def) (simp add: demo_defs)
qed

text \<open>
  The second initialisation of an event with a callback: four changes are counted, the callback is
  registered and hears of none of them.
\<close>

theorem initialize_event_untold_witness:
  "\<exists>e i es. initialize_event apply_publisher_listener
      (\<lambda>impl. publisher_read_status demo_writer impl RMW_EVENT_PUBLICATION_MATCHED) publisher_untaken 8 True
      (Some zero_event) 1 RMW_EVENT_PUBLICATION_MATCHED (endpoint_of demo_publisher_config) =
      (RMW_RET_OK, e, i, es) \<and>
    told_by es = 0 \<and> event_count i RMW_EVENT_PUBLICATION_MATCHED = 4 \<and>
    event_callbacks i RMW_EVENT_PUBLICATION_MATCHED = 9"
proof -
  obtain e i es where run: "initialize_event apply_publisher_listener
      (\<lambda>impl. publisher_read_status demo_writer impl RMW_EVENT_PUBLICATION_MATCHED) publisher_untaken 8 True
      (Some zero_event) 1 RMW_EVENT_PUBLICATION_MATCHED (endpoint_of demo_publisher_config) =
      (RMW_RET_OK, e, i, es)" "event_count i RMW_EVENT_PUBLICATION_MATCHED = 4"
    by (simp add: initialize_event_def init_count_def zero_event_def demo_run_defs
        scast_eq add_publication_matched_def)
  have "event_callbacks (endpoint_of demo_publisher_config) RMW_EVENT_PUBLICATION_MATCHED = 9"
    by (simp add: demo_defs)
  with run initialize_event_untold [where wd = demo_writer
      and type = RMW_EVENT_PUBLICATION_MATCHED and created = 8 and installed = True
      and event = "Some zero_event" and data = 1 and p = "endpoint_of demo_publisher_config", THEN conjunct1]
  show ?thesis
    by simp
qed

end
