(* ===== verification/Names.thy ===== *)
theory Names
  imports Prelude
begin

text \<open>
  Name mangling: how a ROS topic or service name becomes a DDS topic name
  (\<^verbatim>\<open>dds_topic_name\<close> of \<^verbatim>\<open>rmw_data_plane.cpp\<close>, \<^verbatim>\<open>service_topics\<close> of \<^verbatim>\<open>rmw_service.cpp\<close>) and how
  the graph queries of \<^verbatim>\<open>rmw_graph.cpp\<close> read DDS names back. The string functions are those of
  \<^verbatim>\<open>std::string\<close>; positions are \<open>nat\<close> and \<^verbatim>\<open>npos\<close> is \<open>None\<close>.
\<close>

section \<open>The string operations used\<close>

text \<open>\<^verbatim>\<open>s.find(pat, pos)\<close>: the first index from \<open>pos\<close> on where \<open>pat\<close> occurs.\<close>

definition find_str :: "string \<Rightarrow> string \<Rightarrow> nat \<Rightarrow> nat option" where
  "find_str s pat pos =
     List.find (\<lambda>i. take (length pat) (drop i s) = pat) [pos ..< Suc (length s) - length pat]"

lemma find_str_Some:
  assumes "find_str s pat pos = Some i"
  shows "pos \<le> i" and "i + length pat \<le> length s" and "take (length pat) (drop i s) = pat"
    and "\<And>j. pos \<le> j \<Longrightarrow> j < i \<Longrightarrow> take (length pat) (drop j s) \<noteq> pat"
proof -
  let ?xs = "[pos ..< Suc (length s) - length pat]"
  from assms obtain k where k: "k < length ?xs" "?xs ! k = i" "take (length pat) (drop i s) = pat"
    and least: "\<forall>j<k. take (length pat) (drop (?xs ! j) s) \<noteq> pat"
    unfolding find_str_def find_Some_iff by blast
  then have i: "i = pos + k" and kb: "pos + k < Suc (length s) - length pat" by auto
  show "pos \<le> i" "i + length pat \<le> length s" "take (length pat) (drop i s) = pat"
    using i kb k(3) by auto
  fix j assume j: "pos \<le> j" "j < i"
  then have "j - pos < k" "?xs ! (j - pos) = j"
    using i kb by auto
  with least show "take (length pat) (drop j s) \<noteq> pat" by force
qed

lemma find_str_None:
  "find_str s pat pos = None \<longleftrightarrow>
     (\<forall>i. pos \<le> i \<longrightarrow> i + length pat \<le> length s \<longrightarrow> take (length pat) (drop i s) \<noteq> pat)"
  unfolding find_str_def find_None_iff by (auto simp: Suc_diff_le)

section \<open>ROS names to DDS topic names\<close>

text \<open>
  \<^verbatim>\<open>dds_topic_name\<close> writes the prefix, the name and its terminating NUL into a 264-byte array;
  \<open>None\<close> is the branch that rejects a name that does not fit.
\<close>

definition dds_topic_name :: "string \<Rightarrow> bool \<Rightarrow> string option" where
  "dds_topic_name ros_name native =
     (let prefix = (if native then '''' else ''rt'');
          prefix_size = length prefix;
          name_size = length ros_name
      in if prefix_size + name_size + 1 > 264 then None
         else Some (prefix @ ros_name))"

text \<open>
  \<^verbatim>\<open>service_topics\<close>: the ROS topics that carry a service's requests and replies; \<open>None\<close> models
  the null name, the rejected names, and strings that cannot be allocated: \<open>room\<close> is whether the two
  concatenations get their memory, whose exceptions the function catches.
\<close>

definition service_topics :: "string option \<Rightarrow> bool \<Rightarrow> (string \<times> string) option" where
  "service_topics name room =
     (case name of
        None \<Rightarrow> None
      | Some s \<Rightarrow>
          if \<not> starts_with s ''/'' \<or> length s < 2 then None
          else if \<not> room then None
          else Some (''/rq'' @ s @ ''Request'', ''/rr'' @ s @ ''Reply''))"

text \<open>
  The generator's \<^verbatim>\<open>dds_type_name\<close>: the DDS type name each message type support announces, which
  the graph queries read back.
\<close>

fun join :: "string \<Rightarrow> string list \<Rightarrow> string" where
  "join sep [] = []"
| "join sep [x] = x"
| "join sep (x # y # ys) = x @ sep @ join sep (y # ys)"

definition dds_type_name :: "string list \<Rightarrow> string \<Rightarrow> string" where
  "dds_type_name namespaces name = join ''::'' (namespaces @ [''dds_'', name @ ''_''])"

section \<open>DDS names back to ROS names\<close>

definition identity_name :: "string \<Rightarrow> string" where
  "identity_name name = name"

text \<open>The loop of \<^verbatim>\<open>demangle_dds_type\<close> that replaces each \<^verbatim>\<open>::\<close> by a slash.\<close>

function replace_colons :: "string \<Rightarrow> nat \<Rightarrow> string" where
  "replace_colons result position =
     (case find_str result ''::'' position of
        None \<Rightarrow> result
      | Some p \<Rightarrow> replace_colons (take p result @ ''/'' @ drop (p + 2) result) (p + 1))"
  by pat_completeness auto
termination
proof (relation "measure (\<lambda>(s, _). length s)")
  fix s pos p
  assume "find_str s ''::'' pos = Some p"
  then have "p + 2 \<le> length s"
    using find_str_Some(2) by fastforce
  then show "((take p s @ ''/'' @ drop (p + 2) s, p + 1), (s, pos)) \<in> measure (\<lambda>(s, _). length s)"
    by auto
qed auto

declare replace_colons.simps [simp del]

definition erase_dds_marker :: "string \<Rightarrow> string" where
  "erase_dds_marker result =
     (case find_str result ''::dds_::'' 0 of
        None \<Rightarrow> result
      | Some p \<Rightarrow> take p result @ drop (p + (length ''::dds_::'' - 2)) result)"

definition pop_underscore :: "string \<Rightarrow> string" where
  "pop_underscore result =
     (if result \<noteq> [] \<and> last result = CHR ''_'' then butlast result else result)"

definition demangle_dds_type :: "string \<Rightarrow> string" where
  "demangle_dds_type dds_type = replace_colons (pop_underscore (erase_dds_marker dds_type)) 0"

fun strip_first_suffix :: "string list \<Rightarrow> string \<Rightarrow> string" where
  "strip_first_suffix [] result = result"
| "strip_first_suffix (suffix # suffixes) result =
     (if ends_with result suffix then take (length result - length suffix) result
      else strip_first_suffix suffixes result)"

definition demangle_dds_service_type :: "string \<Rightarrow> string" where
  "demangle_dds_service_type dds_type =
     strip_first_suffix [''_Request'', ''_Response''] (demangle_dds_type dds_type)"

definition demangle_dds_topic :: "string \<Rightarrow> string" where
  "demangle_dds_topic dds_topic =
     (if \<not> starts_with dds_topic ''rt/'' then ''''
      else let ros_topic = drop 2 dds_topic in
        if starts_with ros_topic ''/rq'' \<or> starts_with ros_topic ''/rr'' then ''''
        else ros_topic)"


section \<open>Services seen through the graph\<close>

text \<open>
  \<^verbatim>\<open>NamesAndTypes\<close> is \<^verbatim>\<open>std::map<std::string, std::set<std::string>>\<close>: an association list kept
  sorted by key with sorted duplicate-free values, so iterating over it gives the C++ order (bytes
  compare unsigned, as \<^verbatim>\<open>std::char_traits<char>\<close> does). \<open>nt_insert\<close> is \<^verbatim>\<open>result[name].insert(type)\<close>.
\<close>

type_synonym names_and_types = "(string \<times> string list) list"

fun nt_insert :: "string \<Rightarrow> string \<Rightarrow> names_and_types \<Rightarrow> names_and_types" where
  "nt_insert name type [] = [(name, [type])]"
| "nt_insert name type ((k, ts) # rest) =
     (if k = name then (k, insort_insert type ts) # rest
      else if name < k then (name, [type]) # (k, ts) # rest
      else (k, ts) # nt_insert name type rest)"

definition nt_types :: "names_and_types \<Rightarrow> string \<Rightarrow> string set" where
  "nt_types m name = (case map_of m name of None \<Rightarrow> {} | Some ts \<Rightarrow> set ts)"

definition nt_wf :: "names_and_types \<Rightarrow> bool" where
  "nt_wf m \<longleftrightarrow> sorted (map fst m) \<and> distinct (map fst m) \<and>
     (\<forall>(k, ts) \<in> set m. sorted ts \<and> distinct ts \<and> ts \<noteq> [])"

text \<open>
  \<open>endpoints\<close> is what the graph cache reports for a node: the topics of its endpoints with the
  types of each, in the order of \<^verbatim>\<open>rmw_names_and_types_t\<close>.
\<close>

definition extract_topic :: "string \<Rightarrow> string \<Rightarrow> string \<times> string list \<Rightarrow> names_and_types \<Rightarrow> names_and_types"
  where
  "extract_topic prefix suffix endpoint result =
     (let topic = fst endpoint;
          prefix_size = length prefix;
          suffix_size = length suffix
      in if length topic \<le> prefix_size + suffix_size \<or> \<not> starts_with topic prefix
            \<or> \<not> ends_with topic suffix then result
         else let service = take (length topic - prefix_size - suffix_size) (drop prefix_size topic)
           in fold (\<lambda>type. nt_insert service (demangle_dds_service_type type)) (snd endpoint) result)"

definition extract_service_topics :: "(string \<times> string list) list \<Rightarrow> string \<Rightarrow> string \<Rightarrow> names_and_types"
  where
  "extract_service_topics endpoints prefix suffix = fold (extract_topic prefix suffix) endpoints []"

definition intersect_entry ::
  "names_and_types \<Rightarrow> string \<times> string list \<Rightarrow> names_and_types \<Rightarrow> names_and_types" where
  "intersect_entry second entry result =
     (case map_of second (fst entry) of
        None \<Rightarrow> result
      | Some second_types \<Rightarrow>
          fold (\<lambda>type r. if type \<in> set second_types then nt_insert (fst entry) type r else r)
            (snd entry) result)"

definition intersect_services :: "names_and_types \<Rightarrow> names_and_types \<Rightarrow> names_and_types" where
  "intersect_services first second = fold (intersect_entry second) first []"

text \<open>The merge of one node's services into the whole graph's, in \<^verbatim>\<open>rmw_get_service_names_and_types\<close>.\<close>

definition merge_services :: "names_and_types \<Rightarrow> names_and_types \<Rightarrow> names_and_types" where
  "merge_services node_services services =
     fold (\<lambda>(name, types). fold (nt_insert name) types) node_services services"

end
