(* ===== verification/World.thy ===== *)
theory World
  imports Names Qos Events
begin

text \<open>
  The state the entry points of the RMW layer work on. A \<open>world\<close> holds the objects the layer
  allocates (handles, implementation objects, strings, messages) by address, the entities it holds
  in zzdds and other libraries, the conditions attached to wait sets, and the trace of the calls it
  made to code outside the repository.

  An operation takes the world and returns its result with the new world, inside \<open>option\<close>:
  \<open>None\<close> is undefined behaviour (a dangling or mistyped pointer is followed, memory or an entity is
  released twice). Code outside the repository is a parameter \<open>E\<close>, whose answers may depend on
  every earlier call. A section the code runs under a mutex is one function here, so operations
  interleave at the granularity of their locked sections.
\<close>

section \<open>Values\<close>

type_synonym guid = "uint8 list"
type_synonym type_hash = nat

text \<open>
  The value of a ROS message is opaque to this layer. A message's static type support is the
  callback table that the generated code fills; a null function pointer is \<open>None\<close>, and \<open>table\<close> is
  the address the code compares. Serialising writes into a growing buffer (\<open>None\<close>) or one of a fixed
  capacity and gives whether it succeeded with the bytes it wrote; deserialising gives whether it
  succeeded with the value the message is left with.
\<close>

type_synonym ros_value = nat

record message_callbacks =
  table :: ptr
  has_key :: bool
  type_name :: "string option"
  serialize_fn :: "(ros_value \<Rightarrow> nat option \<Rightarrow> bool \<times> uint8 list) option"
  deserialize_fn :: "(uint8 list \<Rightarrow> ros_value \<Rightarrow> bool \<times> ros_value) option"
  serialized_size_fn :: "(ros_value \<Rightarrow> size_t) option"
  key_hash_fn :: "(ros_value \<Rightarrow> uint8 list option) option"
  new_message :: ros_value

record service_type_support =
  ts_request :: message_callbacks
  ts_response :: message_callbacks
  ts_type_hash :: type_hash

section \<open>Objects\<close>

text \<open>
  The options of a context. \<open>enclave\<close> is the address of its string; the security and discovery options
  are filled in by library functions, and stand here for the resources they hold (0: none). The
  discovery options come with the answer of the library's checks on \<open>options_allocator_valid\<close>.
\<close>

record init_options =
  options_instance_id :: uint64
  options_identifier :: impl_id
  options_domain_id :: size_t
  enclave :: ptr
  enforce_security :: bool
  security_options :: ptr
  discovery_options :: ptr
  options_allocator_valid :: bool

record context_settings =
  instance_id :: uint64
  settings_options :: init_options
  actual_domain_id :: size_t

record rmw_context =
  context_identifier :: impl_id
  context_impl_ptr :: ptr
  settings :: context_settings

text \<open>
  The thread that listens on the graph channel: not joinable, or joinable with the address of the wait
  set it has (0 once it has left its loop).
\<close>

datatype listener = NoListener | Listener ptr

text \<open>
  The members \<^verbatim>\<open>factory_\<close> to \<^verbatim>\<open>subscriber_\<close> of \<^verbatim>\<open>DdsContext\<close> come first. The \<^verbatim>\<open>rmw_dds_common::Context\<close> in
  \<^verbatim>\<open>common\<close> gives \<open>common_gid\<close> to \<open>listener_thread\<close>; its graph cache is external.
\<close>

record context_impl =
  factory :: ptr
  dds_factory :: ptr
  participant :: ptr
  dds_publisher :: ptr
  dds_subscriber :: ptr
  local_publication_guids :: "guid set"
  nodes :: "ptr set"
  publishers :: "ptr set"
  subscriptions :: "ptr set"
  clients :: "ptr set"
  services :: "ptr set"
  discovered_writers :: "instance_handle \<rightharpoonup> guid"
  discovered_readers :: "instance_handle \<rightharpoonup> guid"
  graph_guard_native :: ptr
  graph_guard_impl :: ptr
  graph_guard_handle :: ptr
  domain_id :: uint32
  participant_gid :: guid
  common_gid :: guid
  graph_publisher :: ptr
  graph_subscription :: ptr
  listener_guard :: ptr
  publish_callback :: bool
  listener_running :: bool
  listener_thread :: listener
  graph_node :: ptr
  next_content_filter_id :: size_t
  active_entities :: size_t
  suppress_graph_updates :: bool
  shutdown :: bool

record guard_handle =
  guard_identifier :: impl_id
  guard_data :: ptr
  guard_handle_context :: ptr

record guard_impl =
  guard_context :: ptr
  guard_native :: ptr

record node_handle =
  node_identifier :: impl_id
  node_data :: ptr
  node_name :: ptr
  node_namespace :: ptr
  node_context :: ptr

record endpoint_handle =
  handle_identifier :: impl_id
  handle_data :: ptr
  handle_name :: ptr

record subscription_handle = endpoint_handle +
  is_cft_enabled :: bool

record publisher_impl = publisher_events +
  pub_context :: ptr
  pub_node :: ptr
  pub_topic :: ptr
  pub_writer :: ptr
  pub_callbacks :: message_callbacks
  pub_type_hash :: type_hash
  pub_qos :: rmw_qos_profile
  rtps_guid :: guid
  pub_loaned :: "ptr set"
  pub_is_service_endpoint :: bool

record subscription_impl = subscription_events +
  sub_context :: ptr
  sub_node :: ptr
  sub_topic :: ptr
  sub_filtered_topic :: ptr
  sub_reader :: ptr
  sub_read_condition :: ptr
  sub_callbacks :: message_callbacks
  sub_qos :: rmw_qos_profile
  sub_type_hash :: type_hash
  ignore_local_publications :: bool
  sub_loaned :: "ptr set"
  sub_is_service_endpoint :: bool

record client_impl =
  client_context :: ptr
  client_node :: ptr
  request_publisher :: ptr
  response_subscription :: ptr
  client_typesupport :: service_type_support
  next_sequence :: int64

record service_impl =
  service_context :: ptr
  service_node :: ptr
  request_subscription :: ptr
  response_publisher :: ptr
  service_typesupport :: service_type_support

record wait_set_impl =
  wait_context :: ptr
  wait_native :: ptr
  max_conditions :: size_t

text \<open>\<open>buffer\<close> is the whole memory of the buffer, of which the first \<open>buffer_length\<close> bytes are the message.\<close>

record serialized_message =
  buffer :: "uint8 list"
  buffer_length :: nat
  buffer_null :: bool
  allocator_valid :: bool

definition buffer_capacity :: "serialized_message \<Rightarrow> nat" where
  "buffer_capacity m = length (buffer m)"

text \<open>Publisher, client, service and wait set handles share a record: identifier, data, name.\<close>

datatype object =
    Context rmw_context
  | ContextImpl context_impl
  | GuardHandle guard_handle
  | GuardImpl guard_impl
  | NodeHandle node_handle
  | NodeImpl ptr
  | PublisherHandle endpoint_handle
  | PublisherImpl publisher_impl
  | SubscriptionHandle subscription_handle
  | SubscriptionImpl subscription_impl
  | ClientHandle endpoint_handle
  | ClientImpl client_impl
  | ServiceHandle endpoint_handle
  | ServiceImpl service_impl
  | WaitSetHandle endpoint_handle
  | WaitSetImpl wait_set_impl
  | EventHandle rmw_event
  | CString string
  | InitOptions init_options
  | SerializedMessage serialized_message
  | RosMessage ros_value

section \<open>Entities outside the repository\<close>

datatype entity_kind =
    GuardConditionEntity | WaitSetEntity | TopicEntity | DataWriterEntity | DataReaderEntity
  | ReadConditionEntity | FilteredTopicEntity | WriterQos | ReaderQos | ActiveConditions
  | RosMessageEntity | CdrWriter | RawSampleLoan | StringSequence
  | FactoryEntity | ParticipantEntity | DdsPublisherEntity | DdsSubscriberEntity
  | SecurityOptionsEntity | DiscoveryOptionsEntity | BuiltinLoan | BuiltinData
  | NamesAndTypes | StringArrays | EndpointInfos | ServiceInfos

text \<open>What an entity is created from: other entities, strings and QoS settings.\<close>

type_synonym creation = "ptr list \<times> string list \<times> dds_qos list"

abbreviation (input) plain :: creation where
  "plain \<equiv> ([], [], [])"

datatype "call" =
    AllocateMemory
  | Create entity_kind creation
  | Delete entity_kind ptr
  | SetTriggerValue ptr bool
  | AttachCondition ptr ptr
  | DetachCondition ptr ptr
  | WaitFor ptr dds_duration
  | GrowContainer
  | ValidateNodeName string
  | ValidateNamespace string
  | ValidateTopicName string
  | AddNodeGraph string string
  | RemoveNodeGraph string string
  | RegisterTypeSupport string
  | EncodeTypeHash type_hash
  | EncodeServiceTypeHash type_hash
  | WriterGuid ptr
  | ReaderGuid ptr
  | PublicationGuid ptr instance_handle
  | AddEntity guid string string bool
  | RemoveEntity guid bool
  | AddEndpointGraph guid string string bool
  | RemoveEndpointGraph guid string string bool
  | ClearListener ptr
  | WriteRaw ptr "uint8 list" "uint8 list"
  | WaitForAcks ptr dds_duration
  | TakeRaw ptr
  | SystemTimeNow
  | SetFilterExpression ptr string "string list"
  | ResizeArray nat
  | WriterStatus ptr
  | ReaderStatus ptr
  | InstallWriterListener ptr bool status_mask
  | InstallReaderListener ptr status_mask
  | TellCallback ptr ptr size_t
  | GetFilterExpression ptr
  | GetFilterParameters ptr
  | InitFilterOptions string "string list"
  | InitArray nat
  | DeleteContained ptr
  | InitDiscoveryOptions
  | CopySecurityOptions ptr
  | CopyDiscoveryOptions ptr
  | CopyEnclave string
  | ParticipantGuid ptr
  | AddParticipant guid string
  | StartThread
  | UpdateParticipantEntities ros_value
  | BuiltinSubscriber ptr
  | LookupReader ptr string
  | TakeBuiltin ptr
  | ReturnBuiltin ptr
  | AddDiscovered guid string string type_hash guid rmw_qos_profile bool "type_hash option"
  | CacheNodes bool
  | CacheNames
  | CacheWritersByNode string string
  | CacheReadersByNode string string
  | CacheWriterInfos string
  | CacheReaderInfos string
  | CacheClientInfos "nat list" "nat list"
  | CacheServerInfos "nat list" "nat list"
  | CacheWriterCount string
  | CacheReaderCount string

text \<open>One call of \<^verbatim>\<open>DDS_DataReader_take_raw\<close>: the sequences' lengths and, per sample, its data and info.\<close>

record sample_info =
  valid_data :: bool
  publication_handle :: instance_handle
  source_sec :: int32
  source_nanosec :: uint32

record raw_take =
  raw_payloads :: "uint8 list list"
  raw_payloads_null :: bool
  raw_infos :: "sample_info list"
  raw_infos_null :: bool

text \<open>
  What a take on a built-in discovery reader gives: per sample whether it has data and its instance,
  the serialized data, and the key hashes of all samples in one sequence of bytes (\<open>None\<close>: a null
  buffer). \<open>builtin_data\<close> is the part of \<^verbatim>\<open>DDS_PublicationBuiltinTopicData\<close> (or its counterpart for
  readers) that is read; a null name is \<open>None\<close>.
\<close>

record builtin_info =
  builtin_valid :: bool
  builtin_instance :: instance_handle

record builtin_take =
  builtin_payloads :: "uint8 list option list"
  builtin_hashes :: "uint8 list option"
  builtin_infos :: "builtin_info list"

record builtin_data =
  data_topic_name :: "string option"
  data_type_name :: "string option"
  data_user_data :: "uint8 list"
  data_reliable :: bool
  data_volatile :: bool
  data_automatic :: bool

text \<open>
  The answers of external code, as functions of the calls made before (newest first) and the call.
  \<open>ok\<close> answers calls that succeed or fail (a creating call that fails returns a nil handle, a
  container that cannot grow throws \<^verbatim>\<open>std::bad_alloc\<close>), the others give return codes and values.
  \<open>cdr_readable\<close> is whether \<^verbatim>\<open>zidl_cdr_reader_init\<close> accepts some bytes, \<open>gid_padding\<close> how much longer than
  an RTPS GUID the storage of a GID is.
\<close>

record env =
  ok :: "call list \<Rightarrow> call \<Rightarrow> bool"
  dds_code :: "call list \<Rightarrow> call \<Rightarrow> dds_ret"
  rmw_code :: "call list \<Rightarrow> call \<Rightarrow> rmw_ret"
  guid_answer :: "call list \<Rightarrow> call \<Rightarrow> guid option"
  string_answer :: "call list \<Rightarrow> call \<Rightarrow> string"
  active_answer :: "call list \<Rightarrow> call \<Rightarrow> ptr list"
  take_answer :: "call list \<Rightarrow> call \<Rightarrow> raw_take"
  time_answer :: "call list \<Rightarrow> int64 option"
  writer_status_answer :: "call list \<Rightarrow> ptr \<Rightarrow> writer_status"
  reader_status_answer :: "call list \<Rightarrow> ptr \<Rightarrow> reader_status"
  string_list_answer :: "call list \<Rightarrow> call \<Rightarrow> string list"
  handle_answer :: "call list \<Rightarrow> call \<Rightarrow> ptr"
  builtin_answer :: "call list \<Rightarrow> call \<Rightarrow> builtin_take"
  read_builtin :: "bool \<Rightarrow> uint8 list \<Rightarrow> builtin_data option"
  parse_type_hash :: "uint8 list \<Rightarrow> type_hash option"
  parse_service_hash :: "uint8 list \<Rightarrow> rmw_ret \<times> type_hash"
  entities_gid :: "ros_value \<Rightarrow> guid"
  node_names_answer :: "call list \<Rightarrow> call \<Rightarrow> (string \<times> string \<times> string) list"
  names_answer :: "call list \<Rightarrow> call \<Rightarrow> (string \<Rightarrow> string) \<Rightarrow> (string \<Rightarrow> string) \<Rightarrow> (string \<times> string list) list"
  infos_answer :: "call list \<Rightarrow> call \<Rightarrow> (string \<Rightarrow> string) \<Rightarrow> nat list"
  count_answer :: "call list \<Rightarrow> call \<Rightarrow> size_t"
  cdr_readable :: "uint8 list \<Rightarrow> bool"
  gid_padding :: nat
  infinite :: dds_duration
  default_writer_qos :: dds_qos
  default_reader_qos :: dds_qos

section \<open>The world\<close>

record world =
  heap :: "ptr \<Rightarrow> object option"
  next_ptr :: ptr
  entities :: "(entity_kind \<times> ptr) multiset"
  attached :: "ptr \<Rightarrow> ptr set"
  trace :: "call list"
  service_hash_override :: "type_hash option"

text \<open>
  Addresses are handed out in order, so an address that was never handed out holds nothing. The
  handles of entities come from the same supply: zzdds returns handles that are not in use.
\<close>

definition wf_world :: "world \<Rightarrow> bool" where
  "wf_world w \<longleftrightarrow> 0 < next_ptr w \<and> heap w nullptr = None \<and> (\<forall>p \<ge> next_ptr w. heap w p = None)"

type_synonym 'a result = "('a \<times> world) option"

definition record_call :: "call \<Rightarrow> world \<Rightarrow> world" where
  "record_call c w = w\<lparr>trace := c # trace w\<rparr>"

text \<open>Calls that answer with success, a return code or a value.\<close>

definition call_ok :: "env \<Rightarrow> call \<Rightarrow> world \<Rightarrow> bool \<times> world" where
  "call_ok E c w = (ok E (trace w) c, record_call c w)"

definition call_dds :: "env \<Rightarrow> call \<Rightarrow> world \<Rightarrow> dds_ret \<times> world" where
  "call_dds E c w = (dds_code E (trace w) c, record_call c w)"

definition call_rmw :: "env \<Rightarrow> call \<Rightarrow> world \<Rightarrow> rmw_ret \<times> world" where
  "call_rmw E c w = (rmw_code E (trace w) c, record_call c w)"

definition call_guid :: "env \<Rightarrow> call \<Rightarrow> world \<Rightarrow> guid option \<times> world" where
  "call_guid E c w = (guid_answer E (trace w) c, record_call c w)"

definition call_handle :: "env \<Rightarrow> call \<Rightarrow> world \<Rightarrow> ptr \<times> world" where
  "call_handle E c w = (handle_answer E (trace w) c, record_call c w)"

text \<open>Creating an entity: a nil handle (0) or a new one.\<close>

definition create :: "env \<Rightarrow> entity_kind \<Rightarrow> creation \<Rightarrow> world \<Rightarrow> ptr \<times> world" where
  "create E kind args w =
     (let (good, w) = call_ok E (Create kind args) w
      in if good then (next_ptr w, w\<lparr>next_ptr := next_ptr w + 1,
                                     entities := add_mset (kind, next_ptr w) (entities w)\<rparr>)
         else (nullptr, w))"

text \<open>A resource that filling in a structure takes, without a way to fail.\<close>

definition hold :: "entity_kind \<Rightarrow> world \<Rightarrow> ptr \<times> world" where
  "hold kind w =
     (next_ptr w, w\<lparr>next_ptr := next_ptr w + 1, entities := add_mset (kind, next_ptr w) (entities w)\<rparr>)"

text \<open>
  Releasing an entity that is not held is undefined. \<open>destroy\<close> is for the calls without a result,
  \<open>delete\<close> for those that may refuse and then keep the entity.
\<close>

definition destroy :: "entity_kind \<Rightarrow> ptr \<Rightarrow> world \<Rightarrow> world option" where
  "destroy kind p w =
     (if (kind, p) \<in># entities w
      then Some (record_call (Delete kind p) (w\<lparr>entities := entities w - {#(kind, p)#}\<rparr>))
      else None)"

definition delete :: "env \<Rightarrow> entity_kind \<Rightarrow> ptr \<Rightarrow> world \<Rightarrow> dds_ret result" where
  "delete E kind p w =
     (if (kind, p) \<in># entities w
      then let (ret, w) = call_dds E (Delete kind p) w
        in Some (ret, if ret = DDS_RETCODE_OK then w\<lparr>entities := entities w - {#(kind, p)#}\<rparr> else w)
      else None)"

section \<open>Memory\<close>

text \<open>\<^verbatim>\<open>allocate_object\<close>, \<^verbatim>\<open>deallocate_object\<close> and \<^verbatim>\<open>duplicate_string\<close> of \<^verbatim>\<open>allocator.hpp\<close>.\<close>

definition allocate_object :: "env \<Rightarrow> object \<Rightarrow> world \<Rightarrow> ptr \<times> world" where
  "allocate_object E obj w =
     (let (good, w) = call_ok E AllocateMemory w
      in if good then (next_ptr w, w\<lparr>next_ptr := next_ptr w + 1, heap := (heap w)(next_ptr w \<mapsto> obj)\<rparr>)
         else (nullptr, w))"

definition deallocate :: "ptr \<Rightarrow> world \<Rightarrow> world option" where
  "deallocate p w = (if heap w p = None then None else Some (w\<lparr>heap := (heap w)(p := None)\<rparr>))"

definition deallocate_object :: "ptr \<Rightarrow> world \<Rightarrow> world option" where
  "deallocate_object p w = (if p = nullptr then Some w else deallocate p w)"

definition duplicate_string :: "env \<Rightarrow> string \<Rightarrow> world \<Rightarrow> ptr \<times> world" where
  "duplicate_string E s w = allocate_object E (CString s) w"

definition store :: "ptr \<Rightarrow> object \<Rightarrow> world \<Rightarrow> world" where
  "store p obj w = w\<lparr>heap := (heap w)(p \<mapsto> obj)\<rparr>"

section \<open>Following a pointer\<close>

text \<open>\<open>None\<close> if the pointer does not point to an object of the type the code expects.\<close>

definition context_at :: "ptr \<Rightarrow> world \<Rightarrow> rmw_context option" where
  "context_at p w = (case heap w p of Some (Context x) \<Rightarrow> Some x | _ \<Rightarrow> None)"

definition context_impl_at :: "ptr \<Rightarrow> world \<Rightarrow> context_impl option" where
  "context_impl_at p w = (case heap w p of Some (ContextImpl x) \<Rightarrow> Some x | _ \<Rightarrow> None)"

definition guard_handle_at :: "ptr \<Rightarrow> world \<Rightarrow> guard_handle option" where
  "guard_handle_at p w = (case heap w p of Some (GuardHandle x) \<Rightarrow> Some x | _ \<Rightarrow> None)"

definition guard_impl_at :: "ptr \<Rightarrow> world \<Rightarrow> guard_impl option" where
  "guard_impl_at p w = (case heap w p of Some (GuardImpl x) \<Rightarrow> Some x | _ \<Rightarrow> None)"

definition node_handle_at :: "ptr \<Rightarrow> world \<Rightarrow> node_handle option" where
  "node_handle_at p w = (case heap w p of Some (NodeHandle x) \<Rightarrow> Some x | _ \<Rightarrow> None)"

definition node_impl_at :: "ptr \<Rightarrow> world \<Rightarrow> ptr option" where
  "node_impl_at p w = (case heap w p of Some (NodeImpl x) \<Rightarrow> Some x | _ \<Rightarrow> None)"

definition publisher_at :: "ptr \<Rightarrow> world \<Rightarrow> endpoint_handle option" where
  "publisher_at p w = (case heap w p of Some (PublisherHandle x) \<Rightarrow> Some x | _ \<Rightarrow> None)"

definition publisher_impl_at :: "ptr \<Rightarrow> world \<Rightarrow> publisher_impl option" where
  "publisher_impl_at p w = (case heap w p of Some (PublisherImpl x) \<Rightarrow> Some x | _ \<Rightarrow> None)"

definition subscription_at :: "ptr \<Rightarrow> world \<Rightarrow> subscription_handle option" where
  "subscription_at p w = (case heap w p of Some (SubscriptionHandle x) \<Rightarrow> Some x | _ \<Rightarrow> None)"

definition subscription_impl_at :: "ptr \<Rightarrow> world \<Rightarrow> subscription_impl option" where
  "subscription_impl_at p w = (case heap w p of Some (SubscriptionImpl x) \<Rightarrow> Some x | _ \<Rightarrow> None)"

definition client_at :: "ptr \<Rightarrow> world \<Rightarrow> endpoint_handle option" where
  "client_at p w = (case heap w p of Some (ClientHandle x) \<Rightarrow> Some x | _ \<Rightarrow> None)"

definition client_impl_at :: "ptr \<Rightarrow> world \<Rightarrow> client_impl option" where
  "client_impl_at p w = (case heap w p of Some (ClientImpl x) \<Rightarrow> Some x | _ \<Rightarrow> None)"

definition service_at :: "ptr \<Rightarrow> world \<Rightarrow> endpoint_handle option" where
  "service_at p w = (case heap w p of Some (ServiceHandle x) \<Rightarrow> Some x | _ \<Rightarrow> None)"

definition service_impl_at :: "ptr \<Rightarrow> world \<Rightarrow> service_impl option" where
  "service_impl_at p w = (case heap w p of Some (ServiceImpl x) \<Rightarrow> Some x | _ \<Rightarrow> None)"

definition wait_set_at :: "ptr \<Rightarrow> world \<Rightarrow> endpoint_handle option" where
  "wait_set_at p w = (case heap w p of Some (WaitSetHandle x) \<Rightarrow> Some x | _ \<Rightarrow> None)"

definition wait_set_impl_at :: "ptr \<Rightarrow> world \<Rightarrow> wait_set_impl option" where
  "wait_set_impl_at p w = (case heap w p of Some (WaitSetImpl x) \<Rightarrow> Some x | _ \<Rightarrow> None)"

definition event_at :: "ptr \<Rightarrow> world \<Rightarrow> rmw_event option" where
  "event_at p w = (case heap w p of Some (EventHandle x) \<Rightarrow> Some x | _ \<Rightarrow> None)"

definition c_string_at :: "ptr \<Rightarrow> world \<Rightarrow> string option" where
  "c_string_at p w = (case heap w p of Some (CString x) \<Rightarrow> Some x | _ \<Rightarrow> None)"

definition init_options_at :: "ptr \<Rightarrow> world \<Rightarrow> init_options option" where
  "init_options_at p w = (case heap w p of Some (InitOptions x) \<Rightarrow> Some x | _ \<Rightarrow> None)"

definition serialized_at :: "ptr \<Rightarrow> world \<Rightarrow> serialized_message option" where
  "serialized_at p w = (case heap w p of Some (SerializedMessage x) \<Rightarrow> Some x | _ \<Rightarrow> None)"

definition ros_message_at :: "ptr \<Rightarrow> world \<Rightarrow> ros_value option" where
  "ros_message_at p w = (case heap w p of Some (RosMessage x) \<Rightarrow> Some x | _ \<Rightarrow> None)"

lemma context_at_iff: "context_at p w = Some x \<longleftrightarrow> heap w p = Some (Context x)"
  by (auto simp: context_at_def split: option.splits object.splits)

lemma context_impl_at_iff: "context_impl_at p w = Some x \<longleftrightarrow> heap w p = Some (ContextImpl x)"
  by (auto simp: context_impl_at_def split: option.splits object.splits)

lemma guard_handle_at_iff: "guard_handle_at p w = Some x \<longleftrightarrow> heap w p = Some (GuardHandle x)"
  by (auto simp: guard_handle_at_def split: option.splits object.splits)

lemma guard_impl_at_iff: "guard_impl_at p w = Some x \<longleftrightarrow> heap w p = Some (GuardImpl x)"
  by (auto simp: guard_impl_at_def split: option.splits object.splits)

lemma node_handle_at_iff: "node_handle_at p w = Some x \<longleftrightarrow> heap w p = Some (NodeHandle x)"
  by (auto simp: node_handle_at_def split: option.splits object.splits)

lemma node_impl_at_iff: "node_impl_at p w = Some x \<longleftrightarrow> heap w p = Some (NodeImpl x)"
  by (auto simp: node_impl_at_def split: option.splits object.splits)

lemma publisher_at_iff: "publisher_at p w = Some x \<longleftrightarrow> heap w p = Some (PublisherHandle x)"
  by (auto simp: publisher_at_def split: option.splits object.splits)

lemma publisher_impl_at_iff: "publisher_impl_at p w = Some x \<longleftrightarrow> heap w p = Some (PublisherImpl x)"
  by (auto simp: publisher_impl_at_def split: option.splits object.splits)

lemma subscription_at_iff: "subscription_at p w = Some x \<longleftrightarrow> heap w p = Some (SubscriptionHandle x)"
  by (auto simp: subscription_at_def split: option.splits object.splits)

lemma subscription_impl_at_iff: "subscription_impl_at p w = Some x \<longleftrightarrow> heap w p = Some (SubscriptionImpl x)"
  by (auto simp: subscription_impl_at_def split: option.splits object.splits)

lemma client_at_iff: "client_at p w = Some x \<longleftrightarrow> heap w p = Some (ClientHandle x)"
  by (auto simp: client_at_def split: option.splits object.splits)

lemma client_impl_at_iff: "client_impl_at p w = Some x \<longleftrightarrow> heap w p = Some (ClientImpl x)"
  by (auto simp: client_impl_at_def split: option.splits object.splits)

lemma service_at_iff: "service_at p w = Some x \<longleftrightarrow> heap w p = Some (ServiceHandle x)"
  by (auto simp: service_at_def split: option.splits object.splits)

lemma service_impl_at_iff: "service_impl_at p w = Some x \<longleftrightarrow> heap w p = Some (ServiceImpl x)"
  by (auto simp: service_impl_at_def split: option.splits object.splits)

lemma wait_set_at_iff: "wait_set_at p w = Some x \<longleftrightarrow> heap w p = Some (WaitSetHandle x)"
  by (auto simp: wait_set_at_def split: option.splits object.splits)

lemma wait_set_impl_at_iff: "wait_set_impl_at p w = Some x \<longleftrightarrow> heap w p = Some (WaitSetImpl x)"
  by (auto simp: wait_set_impl_at_def split: option.splits object.splits)

lemma event_at_iff: "event_at p w = Some x \<longleftrightarrow> heap w p = Some (EventHandle x)"
  by (auto simp: event_at_def split: option.splits object.splits)

lemma c_string_at_iff: "c_string_at p w = Some x \<longleftrightarrow> heap w p = Some (CString x)"
  by (auto simp: c_string_at_def split: option.splits object.splits)

lemma init_options_at_iff: "init_options_at p w = Some x \<longleftrightarrow> heap w p = Some (InitOptions x)"
  by (auto simp: init_options_at_def split: option.splits object.splits)

lemma serialized_at_iff: "serialized_at p w = Some x \<longleftrightarrow> heap w p = Some (SerializedMessage x)"
  by (auto simp: serialized_at_def split: option.splits object.splits)

lemma ros_message_at_iff: "ros_message_at p w = Some x \<longleftrightarrow> heap w p = Some (RosMessage x)"
  by (auto simp: ros_message_at_def split: option.splits object.splits)

lemmas at_iff =
  context_at_iff context_impl_at_iff guard_handle_at_iff guard_impl_at_iff
  node_handle_at_iff node_impl_at_iff publisher_at_iff publisher_impl_at_iff
  subscription_at_iff subscription_impl_at_iff client_at_iff client_impl_at_iff
  service_at_iff service_impl_at_iff wait_set_at_iff wait_set_impl_at_iff
  event_at_iff c_string_at_iff init_options_at_iff serialized_at_iff ros_message_at_iff

section \<open>Total correctness of an operation\<close>

text \<open>
  \<open>post m Q\<close>: the operation is defined and its result satisfies \<open>Q\<close>. The rules compute it along
  the code: \<open>do\<close>, \<open>if\<close>, \<open>let\<close> and the primitives above.
\<close>

definition post :: "'r option \<Rightarrow> ('r \<Rightarrow> bool) \<Rightarrow> bool" where
  "post m Q \<longleftrightarrow> (case m of None \<Rightarrow> False | Some r \<Rightarrow> Q r)"

lemma post_simps [simp]: "post None Q \<longleftrightarrow> False" "post (Some r) Q \<longleftrightarrow> Q r"
  by (simp_all add: post_def)

lemma post_bind: "post (Option.bind m f) Q \<longleftrightarrow> post m (\<lambda>r. post (f r) Q)"
  by (cases m) simp_all

lemma post_if: "post (if b then m else n) Q \<longleftrightarrow> (if b then post m Q else post n Q)"
  by simp

lemma post_Some: "m = Some r \<Longrightarrow> post m Q \<longleftrightarrow> Q r"
  by simp

lemma post_mono: "post m P \<Longrightarrow> (\<And>r. P r \<Longrightarrow> Q r) \<Longrightarrow> post m Q"
  by (cases m) auto

lemma post_conj: "post m (\<lambda>r. P r \<and> Q r) \<longleftrightarrow> post m P \<and> post m Q"
  by (cases m) auto

lemma postD: "post m Q \<Longrightarrow> m = Some r \<Longrightarrow> Q r"
  by simp

lemma post_ex: "post m Q \<longleftrightarrow> (\<exists>r. m = Some r \<and> Q r)"
  by (cases m) auto

section \<open>Lemmas on the primitives\<close>

lemma record_call_simps [simp]:
  "heap (record_call c w) = heap w" "next_ptr (record_call c w) = next_ptr w"
  "entities (record_call c w) = entities w" "attached (record_call c w) = attached w"
  "trace (record_call c w) = c # trace w"
  "service_hash_override (record_call c w) = service_hash_override w"
  by (simp_all add: record_call_def)

lemma at_record_call [simp]:
  "context_at p (record_call c w) = context_at p w"
  "context_impl_at p (record_call c w) = context_impl_at p w"
  "guard_handle_at p (record_call c w) = guard_handle_at p w"
  "guard_impl_at p (record_call c w) = guard_impl_at p w"
  "node_handle_at p (record_call c w) = node_handle_at p w"
  "node_impl_at p (record_call c w) = node_impl_at p w"
  "publisher_at p (record_call c w) = publisher_at p w"
  "publisher_impl_at p (record_call c w) = publisher_impl_at p w"
  "subscription_at p (record_call c w) = subscription_at p w"
  "subscription_impl_at p (record_call c w) = subscription_impl_at p w"
  "client_at p (record_call c w) = client_at p w"
  "client_impl_at p (record_call c w) = client_impl_at p w"
  "service_at p (record_call c w) = service_at p w"
  "service_impl_at p (record_call c w) = service_impl_at p w"
  "wait_set_at p (record_call c w) = wait_set_at p w"
  "wait_set_impl_at p (record_call c w) = wait_set_impl_at p w"
  "event_at p (record_call c w) = event_at p w"
  "c_string_at p (record_call c w) = c_string_at p w"
  "init_options_at p (record_call c w) = init_options_at p w"
  "serialized_at p (record_call c w) = serialized_at p w"
  "ros_message_at p (record_call c w) = ros_message_at p w"
  by (simp_all add: context_at_def context_impl_at_def guard_handle_at_def guard_impl_at_def node_handle_at_def
    node_impl_at_def publisher_at_def publisher_impl_at_def subscription_at_def subscription_impl_at_def
    client_at_def client_impl_at_def service_at_def service_impl_at_def wait_set_at_def
    wait_set_impl_at_def event_at_def c_string_at_def init_options_at_def serialized_at_def ros_message_at_def)

lemma store_simps [simp]:
  "heap (store p obj w) = (heap w)(p \<mapsto> obj)" "next_ptr (store p obj w) = next_ptr w"
  "entities (store p obj w) = entities w" "attached (store p obj w) = attached w"
  "trace (store p obj w) = trace w"
  "service_hash_override (store p obj w) = service_hash_override w"
  by (simp_all add: store_def)

lemma deallocate_object_simps [simp]:
  "deallocate_object nullptr w = Some w"
  "p \<noteq> nullptr \<Longrightarrow> deallocate_object p w = deallocate p w"
  by (simp_all add: deallocate_object_def)

lemma wf_worldD:
  assumes "wf_world w"
  shows "0 < next_ptr w" "next_ptr w \<noteq> nullptr" "heap w nullptr = None"
    "next_ptr w \<le> p \<Longrightarrow> heap w p = None" "heap w p = Some x \<Longrightarrow> p < next_ptr w"
  using assms by (auto simp: wf_world_def not_le [symmetric])

section \<open>A concrete environment\<close>

text \<open>One in which every call succeeds; the examples instantiate the parameter with it.\<close>

definition all_succeed :: env where
  "all_succeed = \<lparr>ok = (\<lambda>_ _. True), dds_code = (\<lambda>_ _. DDS_RETCODE_OK), rmw_code = (\<lambda>_ _. RMW_RET_OK),
     guid_answer = (\<lambda>_ _. Some (replicate 16 7)), string_answer = (\<lambda>_ _. ''''),
     active_answer = (\<lambda>_ _. [7]),
     take_answer = (\<lambda>_ _. \<lparr>raw_payloads = [], raw_payloads_null = True, raw_infos = [], raw_infos_null = True\<rparr>),
     time_answer = (\<lambda>_. None),
     writer_status_answer = (\<lambda>_ _. \<lparr>writer_publication_matched = None, writer_liveliness_lost = None,
       writer_offered_deadline_missed = None, writer_offered_incompatible_qos = None\<rparr>),
     reader_status_answer = (\<lambda>_ _. \<lparr>reader_subscription_matched = None, reader_liveliness_changed = None,
       reader_requested_deadline_missed = None, reader_requested_incompatible_qos = None,
       reader_sample_lost = None\<rparr>),
     string_list_answer = (\<lambda>_ _. []),
     handle_answer = (\<lambda>_ _. 60),
     builtin_answer = (\<lambda>_ _. \<lparr>builtin_payloads = [], builtin_hashes = None, builtin_infos = []\<rparr>),
     read_builtin = (\<lambda>_ _. None), parse_type_hash = (\<lambda>_. Some 0), parse_service_hash = (\<lambda>_. (RMW_RET_UNSUPPORTED, 0)),
     entities_gid = (\<lambda>_. []), node_names_answer = (\<lambda>_ _. []), names_answer = (\<lambda>_ _ _ _. []),
     infos_answer = (\<lambda>_ _ _. []), count_answer = (\<lambda>_ _. 0), cdr_readable = (\<lambda>bytes. 4 \<le> length bytes), gid_padding = 0, infinite = \<lparr>dur_sec = 2147483647, dur_nanosec = 4294967295\<rparr>,
     default_writer_qos = example_default, default_reader_qos = example_default\<rparr>"

definition empty_context :: context_impl where
  "empty_context = \<lparr>factory = nullptr, dds_factory = nullptr, participant = 50, dds_publisher = 51, dds_subscriber = 52,
     local_publication_guids = {}, nodes = {}, publishers = {}, subscriptions = {}, clients = {},
     services = {}, discovered_writers = Map.empty, discovered_readers = Map.empty,
     graph_guard_native = nullptr, graph_guard_impl = nullptr, graph_guard_handle = nullptr, domain_id = 0,
     participant_gid = [], common_gid = [], graph_publisher = nullptr, graph_subscription = nullptr,
     listener_guard = nullptr, publish_callback = False, listener_running = False,
     listener_thread = NoListener, graph_node = nullptr, next_content_filter_id = 0, active_entities = 0,
     suppress_graph_updates = False, shutdown = False\<rparr>"

text \<open>A world with an initialised context at address 1, its implementation at 2, and nothing else.\<close>

definition zero_init_options :: init_options where
  "zero_init_options = \<lparr>options_instance_id = 0, options_identifier = NullIdentifier, options_domain_id = 0,
     enclave = nullptr, enforce_security = False, security_options = nullptr, discovery_options = nullptr,
     options_allocator_valid = False\<rparr>"

definition zero_settings :: context_settings where
  "zero_settings = \<lparr>instance_id = 0, settings_options = zero_init_options, actual_domain_id = 0\<rparr>"

definition small_world :: world where
  "small_world = \<lparr>heap = [1 \<mapsto> Context \<lparr>context_identifier = ZzddsIdentifier, context_impl_ptr = 2, settings = zero_settings\<rparr>,
                          2 \<mapsto> ContextImpl empty_context],
     next_ptr = 100, entities = {#}, attached = (\<lambda>_. {}), trace = [], service_hash_override = None\<rparr>"

text \<open>A call that may throw \<^verbatim>\<open>std::bad_alloc\<close>: \<open>None\<close> if it does, its return code otherwise.\<close>

definition call_throwing :: "env \<Rightarrow> call \<Rightarrow> world \<Rightarrow> rmw_ret option \<times> world" where
  "call_throwing E c w =
     ((if ok E (trace w) c then Some (rmw_code E (trace w) c) else None), record_call c w)"

end
