(* ===== verification/Shared_Context.thy ===== *)
theory Shared_Context
  imports World
begin

text \<open>
  What the entry points share of the context: its count of active entities, the notification of a
  graph change (\<^verbatim>\<open>context_impl.hpp\<close>), and the state in which a context is alive.
\<close>

section \<open>Parts shared by the components\<close>

text \<open>\<^verbatim>\<open>++context->active_entities\<close> and \<^verbatim>\<open>--context->active_entities\<close>.\<close>

definition add_active :: "size_t \<Rightarrow> ptr \<Rightarrow> world \<Rightarrow> world option" where
  "add_active n ci w = do {
     c \<leftarrow> context_impl_at ci w;
     Some (store ci (ContextImpl (c\<lparr>active_entities := active_entities c + n\<rparr>)) w) }"

text \<open>Updates of the context implementation at an address.\<close>

definition update_context :: "(context_impl \<Rightarrow> context_impl) \<Rightarrow> ptr \<Rightarrow> world \<Rightarrow> world option" where
  "update_context f ci w = do {
     c \<leftarrow> context_impl_at ci w;
     Some (store ci (ContextImpl (f c)) w) }"

definition notify_graph_change :: "env \<Rightarrow> ptr \<Rightarrow> world \<Rightarrow> world option" where
  "notify_graph_change E ci w = do {
     c \<leftarrow> context_impl_at ci w;
     Some (if graph_guard_native c \<noteq> nullptr
           then snd (call_dds E (SetTriggerValue (graph_guard_native c) True) w) else w) }"

text \<open>\<^verbatim>\<open>if (p != nullptr) {allocator.deallocate(p, allocator.state);}\<close>\<close>

definition free_if_not_null :: "ptr \<Rightarrow> world \<Rightarrow> world option" where
  "free_if_not_null p w = (if p \<noteq> nullptr then deallocate p w else Some w)"

section \<open>A live context\<close>

lemmas primitive_defs =
  create_def destroy_def delete_def allocate_object_def duplicate_string_def deallocate_def
  call_ok_def call_dds_def call_rmw_def call_guid_def Let_def split_beta

lemma add_active_eq:
  "heap w ci = Some (ContextImpl c) \<Longrightarrow>
   add_active n ci w = Some (store ci (ContextImpl (c\<lparr>active_entities := active_entities c + n\<rparr>)) w)"
  by (simp add: add_active_def context_impl_at_def)

text \<open>A context handle and its implementation, as the creating operations find them.\<close>

definition live_context :: "ptr \<Rightarrow> ptr \<Rightarrow> context_impl \<Rightarrow> world \<Rightarrow> bool" where
  "live_context context ci c w \<longleftrightarrow> wf_world w \<and> context \<noteq> nullptr \<and> ci \<noteq> nullptr \<and>
     (\<exists>x. heap w context = Some (Context \<lparr>context_identifier = ZzddsIdentifier, context_impl_ptr = ci, settings = x\<rparr>)) \<and>
     heap w ci = Some (ContextImpl c)"

lemma live_contextD:
  assumes "live_context context ci c w"
  shows "wf_world w" "context \<noteq> nullptr" "ci \<noteq> nullptr"
    "\<exists>x. heap w context = Some (Context \<lparr>context_identifier = ZzddsIdentifier, context_impl_ptr = ci, settings = x\<rparr>)"
    "heap w ci = Some (ContextImpl c)" "context < next_ptr w" "ci < next_ptr w" "context \<noteq> ci"
  using assms wf_worldD(5) [of w] by (auto simp: live_context_def)

lemmas context_frame_defs =
  primitive_defs post_bind add_active_def context_at_def context_impl_at_def fun_eq_iff

end
