(* ===== verification/Ledger.thy ===== *)
theory Ledger
  imports Shared_Context
begin

text \<open>
  A calculus for the operations that create things. The resources an operation has taken since it
  began are a stack (the ledger); \<open>given\<close> is the total-correctness judgement that carries it. Each
  rule steps over one primitive: an allocation pushes, a release pops, an update of an older object
  changes the base heap. With an empty ledger heap and entities are what they were. The rules are
  collected in \<open>step\<close> and applied by \<open>intro step\<close>.
\<close>

named_theorems step

section \<open>Ledgers\<close>

datatype resource = Memory ptr object | Entity entity_kind ptr

fun claim :: "resource list \<Rightarrow> (ptr \<Rightarrow> object option) \<Rightarrow> ptr \<Rightarrow> object option" where
  "claim [] h = h"
| "claim (Memory p x # rs) h = (if p = nullptr then claim rs h else (claim rs h)(p \<mapsto> x))"
| "claim (Entity k p # rs) h = claim rs h"

fun claimed :: "resource list \<Rightarrow> (entity_kind \<times> ptr) multiset" where
  "claimed [] = {#}"
| "claimed (Memory p x # rs) = claimed rs"
| "claimed (Entity k p # rs) = (if p = nullptr then claimed rs else add_mset (k, p) (claimed rs))"

fun fits :: "(ptr \<Rightarrow> object option) \<Rightarrow> resource list \<Rightarrow> bool" where
  "fits h [] \<longleftrightarrow> True"
| "fits h (Memory p x # rs) \<longleftrightarrow> (p \<noteq> nullptr \<longrightarrow> claim rs h p = None) \<and> fits h rs"
| "fits h (Entity k p # rs) \<longleftrightarrow> fits h rs"

definition ledger ::
  "(ptr \<Rightarrow> object option) \<Rightarrow> (entity_kind \<times> ptr) multiset \<Rightarrow> resource list \<Rightarrow> world \<Rightarrow> bool" where
  "ledger h e rs w \<longleftrightarrow>
     wf_world w \<and> fits h rs \<and> heap w = claim rs h \<and> entities w = e + claimed rs"

definition given ::
  "(ptr \<Rightarrow> object option) \<Rightarrow> (entity_kind \<times> ptr) multiset \<Rightarrow> resource list \<Rightarrow> world \<Rightarrow>
   'r option \<Rightarrow> ('r \<Rightarrow> bool) \<Rightarrow> bool" where
  "given h e rs w m Q \<longleftrightarrow> (ledger h e rs w \<longrightarrow> post m Q)"

lemma ledger_start: "wf_world w \<Longrightarrow> ledger (heap w) (entities w) [] w"
  by (simp add: ledger_def)

lemma given_start:
  "wf_world w \<Longrightarrow> given (heap w) (entities w) [] w m Q \<Longrightarrow> post m Q"
  by (simp add: given_def ledger_start)

lemma ledger_empty: "ledger h e [] w \<Longrightarrow> heap w = h \<and> entities w = e \<and> wf_world w"
  by (simp add: ledger_def)

lemma claim_old: "h p = Some x \<Longrightarrow> fits h rs \<Longrightarrow> claim rs h p = Some x"
  by (induction rs h rule: claim.induct) auto

lemma claim_fresh: "claim rs h p = None \<Longrightarrow> h p = None"
  by (induction rs h rule: claim.induct) (auto split: if_splits)

lemma ledger_old: "ledger h e rs w \<Longrightarrow> h p = Some x \<Longrightarrow> heap w p = Some x"
  by (simp add: ledger_def claim_old)

lemma ledger_same: "ledger h e rs w \<Longrightarrow> h p \<noteq> None \<Longrightarrow> heap w p = h p"
  using ledger_old by fastforce

lemma ledger_null: "ledger h e rs w \<Longrightarrow> h p = Some x \<Longrightarrow> p \<noteq> nullptr"
  using ledger_old wf_worldD(3) by (fastforce simp: ledger_def)

lemma claim_update:
  "h p = Some x \<Longrightarrow> fits h rs \<Longrightarrow> claim rs (h(p \<mapsto> y)) = (claim rs h)(p \<mapsto> y) \<and> fits (h(p \<mapsto> y)) rs"
proof (induction rs h rule: claim.induct)
  case (2 q z rs h)
  then have "claim rs h p = Some x" by (simp add: claim_old)
  with 2 show ?case by (auto simp: fun_upd_twist)
qed simp_all

lemma wf_world_update:
  assumes "wf_world w" "heap w p = Some x"
  shows "wf_world (store p y w)"
  using assms wf_worldD(5) [OF assms] by (auto simp: wf_world_def)

lemma ledger_update:
  assumes "ledger h e rs w" "h p = Some x"
  shows "ledger (h(p \<mapsto> y)) e rs (store p y w)"
  using assms claim_update [of h p x rs y] wf_world_update [of w p x y] ledger_old [OF assms]
  by (simp add: ledger_def)

lemma ledger_record [simp]: "ledger h e rs (record_call c w) \<longleftrightarrow> ledger h e rs w"
  by (simp add: ledger_def wf_world_def)

text \<open>A null pointer is no resource.\<close>

lemma ledger_nothing [simp]:
  "ledger h e (Entity k nullptr # rs) w \<longleftrightarrow> ledger h e rs w"
  "ledger h e (Memory nullptr x # rs) w \<longleftrightarrow> ledger h e rs w"
  by (simp_all add: ledger_def)

section \<open>Control structure\<close>

lemma given_Some [step]: "(ledger h e rs w \<Longrightarrow> Q r) \<Longrightarrow> given h e rs w (Some r) Q"
  by (simp add: given_def)

lemma given_if_known [step]:
  "given h e rs w m Q \<Longrightarrow> given h e rs w (if True then m else n) Q"
  "given h e rs w n Q \<Longrightarrow> given h e rs w (if False then m else n) Q"
  "given h e rs w n Q \<Longrightarrow> given h e rs w (if \<not> True then m else n) Q"
  "given h e rs w m Q \<Longrightarrow> given h e rs w (if \<not> False then m else n) Q"
  by simp_all

lemma given_if [step]:
  "(b \<Longrightarrow> given h e rs w m Q) \<Longrightarrow> (\<not> b \<Longrightarrow> given h e rs w n Q) \<Longrightarrow> given h e rs w (if b then m else n) Q"
  by simp

lemma given_bind_if_known [step]:
  "given h e rs w (Option.bind m f) Q \<Longrightarrow> given h e rs w (Option.bind (if True then m else n) f) Q"
  "given h e rs w (Option.bind n f) Q \<Longrightarrow> given h e rs w (Option.bind (if False then m else n) f) Q"
  "given h e rs w (Option.bind n f) Q \<Longrightarrow> given h e rs w (Option.bind (if \<not> True then m else n) f) Q"
  "given h e rs w (Option.bind m f) Q \<Longrightarrow> given h e rs w (Option.bind (if \<not> False then m else n) f) Q"
  by simp_all

lemma given_bind_if [step]:
  "(b \<Longrightarrow> given h e rs w (Option.bind m f) Q) \<Longrightarrow> (\<not> b \<Longrightarrow> given h e rs w (Option.bind n f) Q) \<Longrightarrow>
   given h e rs w (Option.bind (if b then m else n) f) Q"
  by simp

lemma given_bind_Some [step]: "given h e rs w (f r) Q \<Longrightarrow> given h e rs w (Option.bind (Some r) f) Q"
  by simp

lemma given_case_known [step]:
  "given h e rs w m Q \<Longrightarrow> given h e rs w (case None of None \<Rightarrow> m | Some y \<Rightarrow> f y) Q"
  "given h e rs w (f y) Q \<Longrightarrow> given h e rs w (case Some y of None \<Rightarrow> m | Some y \<Rightarrow> f y) Q"
  by simp_all

lemma given_case_option [step]:
  "(x = None \<Longrightarrow> given h e rs w m Q) \<Longrightarrow> (\<And>y. x = Some y \<Longrightarrow> given h e rs w (f y) Q) \<Longrightarrow>
   given h e rs w (case x of None \<Rightarrow> m | Some y \<Rightarrow> f y) Q"
  by (cases x) simp_all

text \<open>Sequencing is flattened before it is stepped over.\<close>

lemma given_bind_let_pair [step]:
  "given h e rs w (let (a, b) = v in Option.bind (f a b) g) Q \<Longrightarrow>
   given h e rs w (Option.bind (let (a, b) = v in f a b) g) Q"
  by (simp add: split_beta)

lemma given_bind_let [step]:
  "given h e rs w (let a = v in Option.bind (f a) g) Q \<Longrightarrow>
   given h e rs w (Option.bind (let a = v in f a) g) Q"
  by simp

lemma given_bind_bind [step]:
  "given h e rs w (Option.bind m (\<lambda>r. Option.bind (f r) g)) Q \<Longrightarrow>
   given h e rs w (Option.bind (Option.bind m f) g) Q"
  by simp

lemma given_bind_pair [step]:
  "given h e rs w (Option.bind (f a b) g) Q \<Longrightarrow>
   given h e rs w (Option.bind (case (a, b) of (x, y) \<Rightarrow> f x y) g) Q"
  by simp

lemma given_bind_case_known [step]:
  "given h e rs w (Option.bind m g) Q \<Longrightarrow>
   given h e rs w (Option.bind (case None of None \<Rightarrow> m | Some y \<Rightarrow> f y) g) Q"
  "given h e rs w (Option.bind (f y) g) Q \<Longrightarrow>
   given h e rs w (Option.bind (case Some y of None \<Rightarrow> m | Some y \<Rightarrow> f y) g) Q"
  by simp_all

lemma given_bind_case_option [step]:
  "(x = None \<Longrightarrow> given h e rs w (Option.bind m g) Q) \<Longrightarrow>
   (\<And>y. x = Some y \<Longrightarrow> given h e rs w (Option.bind (f y) g) Q) \<Longrightarrow>
   given h e rs w (Option.bind (case x of None \<Rightarrow> m | Some y \<Rightarrow> f y) g) Q"
  by (cases x) simp_all

lemma given_pair [step]:
  "given h e rs w (f a b) Q \<Longrightarrow> given h e rs w (case (a, b) of (x, y) \<Rightarrow> f x y) Q"
  by simp

text \<open>A part of the operation with a contract of its own.\<close>

lemma given_part:
  assumes "given h e rs w m R"
    and "\<And>r. R r \<Longrightarrow> post (f r) Q"
  shows "given h e rs w (Option.bind m f) Q"
  using assms by (cases m) (auto simp: given_def)

section \<open>Calls\<close>

lemma given_call_ok [step]:
  assumes "\<And>t w'. ok E t c \<Longrightarrow> given h e rs w' (f True w') Q"
    and "\<And>t w'. \<not> ok E t c \<Longrightarrow> given h e rs w' (f False w') Q"
  shows "given h e rs w (let (b, w') = call_ok E c w in f b w') Q"
  using assms [of "trace w" "record_call c w"]
  by (cases "ok E (trace w) c") (auto simp: call_ok_def given_def)

lemma given_call_dds [step]:
  assumes "\<And>t r w'. r = dds_code E t c \<Longrightarrow> given h e rs w' (f r w') Q"
  shows "given h e rs w (let (r, w') = call_dds E c w in f r w') Q"
  using assms [of _ "trace w" "record_call c w"] by (simp add: call_dds_def given_def)

lemma given_call_rmw [step]:
  assumes "\<And>t r w'. r = rmw_code E t c \<Longrightarrow> given h e rs w' (f r w') Q"
  shows "given h e rs w (let (r, w') = call_rmw E c w in f r w') Q"
  using assms [of _ "trace w" "record_call c w"] by (simp add: call_rmw_def given_def)

lemma given_call_guid [step]:
  assumes "\<And>t r w'. r = guid_answer E t c \<Longrightarrow> given h e rs w' (f r w') Q"
  shows "given h e rs w (let (r, w') = call_guid E c w in f r w') Q"
  using assms [of _ "trace w" "record_call c w"] by (simp add: call_guid_def given_def)

lemma given_call_throwing [step]:
  assumes "\<And>t w'. \<not> ok E t c \<Longrightarrow> given h e rs w' (f None w') Q"
    and "\<And>t r w'. ok E t c \<Longrightarrow> r = rmw_code E t c \<Longrightarrow> given h e rs w' (f (Some r) w') Q"
  shows "given h e rs w (let (r, w') = call_throwing E c w in f r w') Q"
  using assms(1) [of "trace w" "record_call c w"] assms(2) [of "trace w" _ "record_call c w"]
  by (simp add: call_throwing_def given_def)

lemma given_record [step]:
  "(\<And>w'. given h e rs w' (f w') Q) \<Longrightarrow> given h e rs w (let w' = snd (call_rmw E c w) in f w') Q"
  "(\<And>w'. given h e rs w' (f w') Q) \<Longrightarrow> given h e rs w (let w' = snd (call_dds E c w) in f w') Q"
  by (simp_all add: call_rmw_def call_dds_def given_def)

section \<open>Taking\<close>

lemma given_create [step]:
  assumes "\<And>p w'. (p = nullptr \<Longrightarrow> \<exists>t. \<not> ok E t (Create kind args)) \<Longrightarrow>
      given h e (Entity kind p # rs) w' (f p w') Q"
  shows "given h e rs w (let (p, w') = create E kind args w in f p w') Q"
proof -
  have "ledger h e (Entity kind (fst (create E kind args w)) # rs) (snd (create E kind args w)) \<and>
      (fst (create E kind args w) = nullptr \<longrightarrow> (\<exists>t. \<not> ok E t (Create kind args)))"
    if "ledger h e rs w"
    using that by (auto simp: create_def call_ok_def ledger_def wf_world_def)
  then show ?thesis using assms by (simp add: given_def split_beta)
qed

lemma given_hold [step]:
  assumes "\<And>q w'. q \<noteq> nullptr \<Longrightarrow> given h e (Entity kind q # rs) w' (f q w') Q"
  shows "given h e rs w (let (q, w') = hold kind w in f q w') Q"
proof -
  have "ledger h e (Entity kind (next_ptr w) # rs) (snd (hold kind w))" "next_ptr w \<noteq> nullptr"
    if "ledger h e rs w"
    using that by (auto simp: hold_def ledger_def wf_world_def)
  then show ?thesis using assms by (simp add: given_def hold_def)
qed

lemma given_allocate [step]:
  assumes "\<And>p w'. (p \<noteq> nullptr \<Longrightarrow> h p = None) \<Longrightarrow> (p = nullptr \<Longrightarrow> \<exists>t. \<not> ok E t AllocateMemory) \<Longrightarrow>
      given h e (Memory p x # rs) w' (f p w') Q"
  shows "given h e rs w (let (p, w') = allocate_object E x w in f p w') Q"
proof -
  have "ledger h e (Memory (fst (allocate_object E x w)) x # rs) (snd (allocate_object E x w)) \<and>
      (fst (allocate_object E x w) \<noteq> nullptr \<longrightarrow> h (fst (allocate_object E x w)) = None) \<and>
      (fst (allocate_object E x w) = nullptr \<longrightarrow> (\<exists>t. \<not> ok E t AllocateMemory))"
    if "ledger h e rs w"
    using that claim_fresh [of rs h "next_ptr w"]
    by (auto simp: allocate_object_def call_ok_def ledger_def wf_world_def)
  then show ?thesis using assms by (simp add: given_def split_beta)
qed

lemma given_duplicate [step]:
  assumes "\<And>p w'. (p \<noteq> nullptr \<Longrightarrow> h p = None) \<Longrightarrow> (p = nullptr \<Longrightarrow> \<exists>t. \<not> ok E t AllocateMemory) \<Longrightarrow>
      given h e (Memory p (CString s) # rs) w' (f p w') Q"
  shows "given h e rs w (let (p, w') = duplicate_string E s w in f p w') Q"
  unfolding duplicate_string_def by (intro step assms)

section \<open>Releasing\<close>

text \<open>Releasing a resource anywhere in the ledger, and the rules for the depths that occur.\<close>

lemma claim_append: "claim (as @ bs) h = claim as (claim bs h)"
  by (induction as h rule: claim.induct) auto

lemma claimed_append: "claimed (as @ bs) = claimed as + claimed bs"
  by (induction as rule: claimed.induct) auto

lemma fits_without:
  assumes "fits h (as @ Memory p x # bs)" "p \<noteq> nullptr"
  shows "fits h (as @ bs)" "(claim (as @ Memory p x # bs) h)(p := None) = claim (as @ bs) h"
    "claim (as @ Memory p x # bs) h p = Some x"
proof -
  have "fits h (as @ bs) \<and> (claim (as @ Memory p x # bs) h)(p := None) = claim (as @ bs) h \<and>
      claim (as @ Memory p x # bs) h p = Some x"
    using assms(1)
  proof (induction as)
    case Nil with assms(2) show ?case by auto
  next
    case (Cons a as)
    then have "fits h (as @ Memory p x # bs)" by (cases a) simp_all
    then have IH: "fits h (as @ bs)" "(claim (as @ Memory p x # bs) h)(p := None) = claim (as @ bs) h"
      "claim (as @ Memory p x # bs) h p = Some x"
      using Cons.IH by blast+
    show ?case
    proof (cases a)
      case (Memory q y)
      show ?thesis
      proof (cases "q = nullptr")
        case False
        with Cons.prems Memory have q: "claim (as @ Memory p x # bs) h q = None" by simp
        with IH(3) have "q \<noteq> p" by auto
        with IH(2) q have "claim (as @ bs) h q = None" by (metis fun_upd_other)
        with False Memory IH \<open>q \<noteq> p\<close> show ?thesis
          by (simp add: fun_upd_twist [of q p] del: fun_upd_apply)
             (simp add: fun_upd_def)
      qed (use Memory IH in simp)
    qed (use IH in simp)
  qed
  then show "fits h (as @ bs)" "(claim (as @ Memory p x # bs) h)(p := None) = claim (as @ bs) h"
    "claim (as @ Memory p x # bs) h p = Some x"
    by blast+
qed

lemma wf_world_shrink: "wf_world w \<Longrightarrow> wf_world (w\<lparr>heap := (heap w)(p := None)\<rparr>)"
  by (simp add: wf_world_def)

lemma ledger_without_memory:
  assumes "ledger h e (as @ Memory p x # bs) w" "p \<noteq> nullptr"
  shows "heap w p \<noteq> None \<and> ledger h e (as @ bs) (w\<lparr>heap := (heap w)(p := None)\<rparr>)"
  using fits_without [of h as p x bs] wf_world_shrink [of w p] assms
  by (simp add: ledger_def claimed_append)

lemma ledger_without_null:
  "ledger h e (as @ Memory nullptr x # bs) w \<longleftrightarrow> ledger h e (as @ bs) w"
proof -
  have "fits h (as @ Memory nullptr x # bs) = fits h (as @ bs)"
  proof (induction as)
    case (Cons a as)
    then show ?case by (cases a) (simp_all add: claim_append)
  qed simp
  then show ?thesis by (simp add: ledger_def claim_append claimed_append)
qed

lemma ledger_without_entity:
  assumes "ledger h e (as @ Entity k p # bs) w" "p \<noteq> nullptr"
  shows "(k, p) \<in># entities w \<and> ledger h e (as @ bs) (w\<lparr>entities := entities w - {#(k, p)#}\<rparr>)"
proof -
  have "fits h (as @ Entity k p # bs) = fits h (as @ bs)"
  proof (induction as)
    case (Cons a as)
    then show ?case by (cases a) (simp_all add: claim_append)
  qed simp
  with assms show ?thesis by (auto simp: ledger_def claim_append claimed_append wf_world_def)
qed

lemma given_deallocate_object:
  assumes "\<And>w'. given h e (as @ bs) w' (f w') Q"
  shows "given h e (as @ Memory p x # bs) w (Option.bind (deallocate_object p w) f) Q"
proof (cases "p = nullptr")
  case True
  then show ?thesis using assms by (simp add: given_def ledger_without_null)
next
  case False
  then show ?thesis
    using assms ledger_without_memory [of h e as p x bs w] by (auto simp: given_def deallocate_def)
qed

lemma given_deallocate:
  assumes "p \<noteq> nullptr" "\<And>w'. given h e (as @ bs) w' (f w') Q"
  shows "given h e (as @ Memory p x # bs) w (Option.bind (deallocate p w) f) Q"
  using given_deallocate_object [of h e as bs f Q p x w, OF assms(2)] assms(1) by simp

text \<open>\<^verbatim>\<open>if (p != nullptr) {allocator.deallocate(p, ...);}\<close>\<close>

lemma given_free_if_not_null:
  assumes "\<And>w'. given h e (as @ bs) w' (f w') Q"
  shows "given h e (as @ Memory p x # bs) w (Option.bind (free_if_not_null p w) f) Q"
  using given_deallocate_object [of h e as bs f Q p x w, OF assms]
  by (cases "p = nullptr") (simp_all add: free_if_not_null_def deallocate_object_def)

lemma given_destroy:
  assumes "p \<noteq> nullptr" "\<And>w'. given h e (as @ bs) w' (f w') Q"
  shows "given h e (as @ Entity kind p # bs) w (Option.bind (destroy kind p w) f) Q"
  using assms ledger_without_entity [of h e as kind p bs w] by (simp add: given_def destroy_def)

text \<open>zzdds does not refuse to delete an entity.\<close>

definition deletes_succeed :: "env \<Rightarrow> bool" where
  "deletes_succeed E \<longleftrightarrow> (\<forall>t kind p. dds_code E t (Delete kind p) = DDS_RETCODE_OK)"

lemma ledger_record_entities:
  "ledger h e rs (record_call c w\<lparr>entities := es\<rparr>) \<longleftrightarrow> ledger h e rs (w\<lparr>entities := es\<rparr>)"
  by (simp add: ledger_def wf_world_def)

lemma given_delete:
  assumes "deletes_succeed E" "p \<noteq> nullptr" "\<And>w'. given h e (as @ bs) w' (f (DDS_RETCODE_OK, w')) Q"
  shows "given h e (as @ Entity kind p # bs) w (Option.bind (delete E kind p w) f) Q"
  using assms ledger_without_entity [of h e as kind p bs w]
  by (auto simp: given_def delete_def call_dds_def deletes_succeed_def ledger_record_entities)

lemmas given_release_depths =
  given_deallocate_object given_deallocate given_free_if_not_null given_destroy given_delete

lemmas given_release_0 [step] = given_release_depths [where as = "[]", unfolded append.simps]
lemmas given_release_1 [step] = given_release_depths [where as = "[r1]" for r1, unfolded append.simps]
lemmas given_release_2 [step] = given_release_depths [where as = "[r1, r2]" for r1 r2, unfolded append.simps]
lemmas given_release_3 [step] =
  given_release_depths [where as = "[r1, r2, r3]" for r1 r2 r3, unfolded append.simps]
lemmas given_release_4 [step] =
  given_release_depths [where as = "[r1, r2, r3, r4]" for r1 r2 r3 r4, unfolded append.simps]

section \<open>Objects\<close>

text \<open>Filling in an object the operation allocated, at the depths that occur.\<close>

lemma ledger_fill:
  assumes "ledger h e (as @ Memory p x # bs) w" "p \<noteq> nullptr"
  shows "ledger h e (as @ Memory p y # bs) (store p y w)"
proof -
  have "fits h (as @ Memory p x # bs) \<Longrightarrow> fits h (as @ Memory p y # bs) \<and>
      claim (as @ Memory p y # bs) h = (claim (as @ Memory p x # bs) h)(p \<mapsto> y) \<and>
      claimed (as @ Memory p y # bs) = claimed (as @ Memory p x # bs) \<and>
      claim (as @ Memory p x # bs) h p = Some x"
  proof (induction as)
    case Nil with assms(2) show ?case by (simp add: fun_eq_iff)
  next
    case (Cons a as)
    then show ?case by (cases a) (auto simp: fun_upd_twist split: if_splits)
  qed
  with assms show ?thesis using wf_world_update [of w p x y] by (simp add: ledger_def)
qed

lemma given_fill:
  assumes "p \<noteq> nullptr" "\<And>w'. given h e (as @ Memory p y # bs) w' (f w') Q"
  shows "given h e (as @ Memory p x # bs) w (let w' = store p y w in f w') Q"
  using assms ledger_fill by (auto simp: given_def)

lemmas given_fill_depths [step] =
  given_fill [of _ _ _ "[]", unfolded append.simps] given_fill [of _ _ _ "[r1]" for r1, unfolded append.simps]
  given_fill [of _ _ _ "[r1, r2]" for r1 r2, unfolded append.simps]
  given_fill [of _ _ _ "[r1, r2, r3]" for r1 r2 r3, unfolded append.simps]

text \<open>Following a pointer to an older object.\<close>

lemma given_context_at [step]:
  assumes "\<exists>x. h p = Some (Context x)" "\<And>x. Some (Context x) = h p \<Longrightarrow> given h e rs w (f x) Q"
  shows "given h e rs w (Option.bind (context_at p w) f) Q"
  using assms by (auto simp: given_def context_at_def ledger_same [of h e rs w])

lemma given_context_impl_at [step]:
  assumes "\<exists>x. h p = Some (ContextImpl x)" "\<And>x. Some (ContextImpl x) = h p \<Longrightarrow> given h e rs w (f x) Q"
  shows "given h e rs w (Option.bind (context_impl_at p w) f) Q"
  using assms by (auto simp: given_def context_impl_at_def ledger_same [of h e rs w])

lemma given_node_handle_at [step]:
  assumes "\<exists>x. h p = Some (NodeHandle x)" "\<And>x. Some (NodeHandle x) = h p \<Longrightarrow> given h e rs w (f x) Q"
  shows "given h e rs w (Option.bind (node_handle_at p w) f) Q"
  using assms by (auto simp: given_def node_handle_at_def ledger_same [of h e rs w])

lemma given_c_string_at [step]:
  assumes "\<exists>x. h p = Some (CString x)" "\<And>x. Some (CString x) = h p \<Longrightarrow> given h e rs w (f x) Q"
  shows "given h e rs w (Option.bind (c_string_at p w) f) Q"
  using assms by (auto simp: given_def c_string_at_def ledger_same [of h e rs w])

lemma given_add_active [step]:
  assumes "\<exists>c. h ci = Some (ContextImpl c)"
    and "\<And>c w'. Some (ContextImpl c) = h ci \<Longrightarrow>
      given (h(ci \<mapsto> ContextImpl (c\<lparr>active_entities := active_entities c + n\<rparr>))) e rs w' (f w') Q"
  shows "given h e rs w (Option.bind (add_active n ci w) f) Q"
  using assms by (auto simp: given_def add_active_eq ledger_same [of h e rs w] ledger_update)

lemma given_update_context [step]:
  assumes "\<exists>c. h ci = Some (ContextImpl c)"
    and "\<And>c w'. Some (ContextImpl c) = h ci \<Longrightarrow>
      given (h(ci \<mapsto> ContextImpl (g c))) e rs w' (f w') Q"
  shows "given h e rs w (Option.bind (update_context g ci w) f) Q"
  using assms by (auto simp: given_def update_context_def context_impl_at_def ledger_same [of h e rs w] ledger_update)

lemma given_notify_graph_change [step]:
  assumes "\<exists>c. h ci = Some (ContextImpl c)" "\<And>w'. given h e rs w' (f w') Q"
  shows "given h e rs w (Option.bind (notify_graph_change E ci w) f) Q"
  using assms
  by (auto simp: given_def notify_graph_change_def context_impl_at_def call_dds_def
    ledger_same [of h e rs w])

text \<open>Back at the state the operation began with.\<close>

lemma ledger_back:
  assumes "ledger (h(ci \<mapsto> x)) e rs w" "heap w' = h" "entities w' = e" "next_ptr w' = next_ptr w"
  shows "ledger h e [] w'"
proof -
  have "h p = None" if "heap w p = None" for p
    using claim_fresh [of rs "h(ci \<mapsto> x)" p] that assms(1) by (auto simp: ledger_def split: if_splits)
  with assms show ?thesis by (auto simp: ledger_def wf_world_def)
qed

section \<open>The life of an entity\<close>

text \<open>
  The contract of a pair of operations that create and destroy something: from a state in which it
  is \<open>ready\<close>, creating either changes nothing or gives a handle with \<open>created\<close>, and destroying that
  succeeds and restores heap and entities.
\<close>

locale lifecycle =
  fixes ready :: "world \<Rightarrow> bool"
    and make :: "world \<Rightarrow> ptr result"
    and discard :: "ptr \<Rightarrow> world \<Rightarrow> rmw_ret result"
    and created :: "(ptr \<Rightarrow> object option) \<Rightarrow> (entity_kind \<times> ptr) multiset \<Rightarrow> ptr \<Rightarrow> world \<Rightarrow> bool"
  assumes make_outcome: "ready w \<Longrightarrow> post (make w) (\<lambda>(p, w').
      if p = nullptr then ledger (heap w) (entities w) [] w' else created (heap w) (entities w) p w')"
    and discard_outcome: "ready w0 \<Longrightarrow> created (heap w0) (entities w0) p w \<Longrightarrow>
      post (discard p w) (\<lambda>(ret, w'). ret = RMW_RET_OK \<and> ledger (heap w0) (entities w0) [] w')"
begin

lemma restores:
  assumes "ready w"
  shows "post (make w) (\<lambda>(p, w1).
    if p = nullptr then heap w1 = heap w \<and> entities w1 = entities w
    else post (discard p w1) (\<lambda>(ret, w2).
      ret = RMW_RET_OK \<and> heap w2 = heap w \<and> entities w2 = entities w))"
  by (rule post_mono [OF make_outcome [OF assms]])
     (auto dest: ledger_empty intro: post_mono [OF discard_outcome [OF assms]] split: if_splits)

end

text \<open>
  The same contract where the heap is given back up to \<open>same\<close>: some operations leave a trace in an
  object that was there before. The exact contract is the case of equality.
\<close>

locale lifecycle_upto =
  fixes ready :: "world \<Rightarrow> bool"
    and make :: "world \<Rightarrow> ptr result"
    and discard :: "ptr \<Rightarrow> world \<Rightarrow> rmw_ret result"
    and created :: "(ptr \<Rightarrow> object option) \<Rightarrow> (entity_kind \<times> ptr) multiset \<Rightarrow> ptr \<Rightarrow> world \<Rightarrow> bool"
    and same :: "(ptr \<Rightarrow> object option) \<Rightarrow> (ptr \<Rightarrow> object option) \<Rightarrow> bool"
  assumes make_upto: "ready w \<Longrightarrow> post (make w) (\<lambda>(p, w').
      if p = nullptr then same (heap w) (heap w') \<and> entities w' = entities w \<and> wf_world w'
      else created (heap w) (entities w) p w')"
    and discard_upto: "ready w0 \<Longrightarrow> created (heap w0) (entities w0) p w \<Longrightarrow>
      post (discard p w) (\<lambda>(ret, w').
        ret = RMW_RET_OK \<and> same (heap w0) (heap w') \<and> entities w' = entities w0 \<and> wf_world w')"
begin

lemma restores_upto:
  assumes "ready w"
  shows "post (make w) (\<lambda>(p, w1).
    if p = nullptr then same (heap w) (heap w1) \<and> entities w1 = entities w
    else post (discard p w1) (\<lambda>(ret, w2).
      ret = RMW_RET_OK \<and> same (heap w) (heap w2) \<and> entities w2 = entities w))"
  by (rule post_mono [OF make_upto [OF assms]])
     (auto intro: post_mono [OF discard_upto [OF assms]] split: if_splits)

end

sublocale lifecycle \<subseteq> upto: lifecycle_upto ready make discard created "(=)"
proof unfold_locales
  fix w0 w :: world and p
  show "post (make w) (\<lambda>(p, w'). if p = nullptr then heap w = heap w' \<and> entities w' = entities w \<and> wf_world w'
      else created (heap w) (entities w) p w')" if "ready w"
    using make_outcome [OF that] by (rule post_mono) (auto dest: ledger_empty split: if_splits)
  show "post (discard p w) (\<lambda>(ret, w'). ret = RMW_RET_OK \<and> heap w0 = heap w' \<and> entities w' = entities w0 \<and> wf_world w')"
    if "ready w0" "created (heap w0) (entities w0) p w"
    using discard_outcome [OF that] by (rule post_mono) (auto dest: ledger_empty)
qed

text \<open>The example world has a live context.\<close>

lemma small_world_live: "live_context 1 2 empty_context small_world"
  by (simp add: live_context_def wf_world_def small_world_def)

end
