(* ===== verification/Guard_Condition.thy ===== *)
theory Guard_Condition
  imports Ledger
begin

text \<open>
  \<^verbatim>\<open>rmw_guard_condition.cpp\<close>: creating, destroying and triggering a guard condition.
\<close>

section \<open>The operations\<close>

definition zero_guard_handle :: guard_handle where
  "zero_guard_handle =
     \<lparr>guard_identifier = NullIdentifier, guard_data = nullptr, guard_handle_context = nullptr\<rparr>"

definition rmw_create_guard_condition :: "env \<Rightarrow> ptr \<Rightarrow> world \<Rightarrow> ptr result" where
  "rmw_create_guard_condition E context w =
     (if context = nullptr then Some (nullptr, w)
      else do {
        ctx \<leftarrow> context_at context w;
        if context_impl_ptr ctx = nullptr then Some (nullptr, w)
        else if context_identifier ctx \<noteq> ZzddsIdentifier then Some (nullptr, w)
        else do {
          c \<leftarrow> context_impl_at (context_impl_ptr ctx) w;
          if shutdown c then Some (nullptr, w)
          else let (native, w) = create E GuardConditionEntity plain w
          in if native = nullptr then Some (nullptr, w)
          else let (impl, w) = allocate_object E (GuardImpl \<lparr>guard_context = context, guard_native = native\<rparr>) w;
                   (handle, w) = allocate_object E (GuardHandle zero_guard_handle) w
          in if impl = nullptr \<or> handle = nullptr
          then do {
            w \<leftarrow> deallocate_object handle w;
            w \<leftarrow> deallocate_object impl w;
            w \<leftarrow> destroy GuardConditionEntity native w;
            Some (nullptr, w) }
          else do {
            let w = store handle (GuardHandle \<lparr>guard_identifier = ZzddsIdentifier, guard_data = impl,
                                               guard_handle_context = context\<rparr>) w;
            w \<leftarrow> add_active 1 (context_impl_ptr ctx) w;
            Some (handle, w) } } })"

definition rmw_destroy_guard_condition :: "ptr \<Rightarrow> world \<Rightarrow> rmw_ret result" where
  "rmw_destroy_guard_condition guard_condition w =
     (if guard_condition = nullptr then Some (RMW_RET_INVALID_ARGUMENT, w)
      else do {
        h \<leftarrow> guard_handle_at guard_condition w;
        if guard_data h = nullptr \<or> guard_handle_context h = nullptr
        then Some (RMW_RET_INVALID_ARGUMENT, w)
        else if guard_identifier h \<noteq> ZzddsIdentifier
        then Some (RMW_RET_INCORRECT_RMW_IMPLEMENTATION, w)
        else do {
          ctx \<leftarrow> context_at (guard_handle_context h) w;
          if context_impl_ptr ctx = nullptr then Some (RMW_RET_INVALID_ARGUMENT, w)
          else do {
            impl \<leftarrow> guard_impl_at (guard_data h) w;
            w \<leftarrow> destroy GuardConditionEntity (guard_native impl) w;
            w \<leftarrow> deallocate_object (guard_data h) w;
            w \<leftarrow> deallocate_object guard_condition w;
            w \<leftarrow> add_active (- 1) (context_impl_ptr ctx) w;
            Some (RMW_RET_OK, w) } } })"

definition rmw_trigger_guard_condition :: "env \<Rightarrow> ptr \<Rightarrow> world \<Rightarrow> rmw_ret result" where
  "rmw_trigger_guard_condition E guard_condition w =
     (if guard_condition = nullptr then Some (RMW_RET_INVALID_ARGUMENT, w)
      else do {
        h \<leftarrow> guard_handle_at guard_condition w;
        if guard_data h = nullptr then Some (RMW_RET_INVALID_ARGUMENT, w)
        else if guard_identifier h \<noteq> ZzddsIdentifier
        then Some (RMW_RET_INCORRECT_RMW_IMPLEMENTATION, w)
        else do {
          impl \<leftarrow> guard_impl_at (guard_data h) w;
          let (ret, w) = call_dds E (SetTriggerValue (guard_native impl) True) w;
          Some (if ret \<noteq> DDS_RETCODE_OK then RMW_RET_ERROR else RMW_RET_OK, w) } })"

section \<open>Its life\<close>

definition guard_created ::
  "ptr \<Rightarrow> ptr \<Rightarrow> context_impl \<Rightarrow> (ptr \<Rightarrow> object option) \<Rightarrow> (entity_kind \<times> ptr) multiset \<Rightarrow> ptr \<Rightarrow> world \<Rightarrow> bool" where
  "guard_created context ci c h e p w \<longleftrightarrow> (\<exists>impl native. p \<noteq> nullptr \<and> impl \<noteq> nullptr \<and> native \<noteq> nullptr \<and>
     ledger (h(ci \<mapsto> ContextImpl (c\<lparr>active_entities := active_entities c + 1\<rparr>))) e
       [Memory p (GuardHandle \<lparr>guard_identifier = ZzddsIdentifier, guard_data = impl,
                                guard_handle_context = context\<rparr>),
        Memory impl (GuardImpl \<lparr>guard_context = context, guard_native = native\<rparr>),
        Entity GuardConditionEntity native] w)"

lemma create_guard_outcome:
  assumes "live_context context ci c w"
  shows "post (rmw_create_guard_condition E context w) (\<lambda>(p, w').
    if p = nullptr then ledger (heap w) (entities w) [] w'
    else guard_created context ci c (heap w) (entities w) p w')"
  unfolding rmw_create_guard_condition_def
  apply (rule given_start [OF live_contextD(1) [OF assms]])
  apply (insert live_contextD [OF assms], elim exE)
  apply (intro step)
  apply simp_all
  apply (elim conjE, hypsubst, simp add: guard_created_def, intro exI conjI; assumption)
  done

lemma destroy_guard_outcome:
  assumes "live_context context ci c w0" "guard_created context ci c (heap w0) (entities w0) p w"
  shows "post (rmw_destroy_guard_condition p w) (\<lambda>(ret, w').
    ret = RMW_RET_OK \<and> ledger (heap w0) (entities w0) [] w')"
proof -
  let ?c = "c\<lparr>active_entities := active_entities c + 1\<rparr>"
  obtain impl native where nz: "p \<noteq> nullptr" "impl \<noteq> nullptr" "native \<noteq> nullptr"
    and l: "ledger ((heap w0)(ci \<mapsto> ContextImpl ?c)) (entities w0)
       [Memory p (GuardHandle \<lparr>guard_identifier = ZzddsIdentifier, guard_data = impl,
                                guard_handle_context = context\<rparr>),
        Memory impl (GuardImpl \<lparr>guard_context = context, guard_native = native\<rparr>),
        Entity GuardConditionEntity native] w"
    using assms(2) unfolding guard_created_def by blast
  note L = live_contextD [OF assms(1)]
  from L(4) obtain x where ch: "heap w0 context =
      Some (Context \<lparr>context_identifier = ZzddsIdentifier, context_impl_ptr = ci, settings = x\<rparr>)" by blast
  have "distinct [p, impl, ci, context]" "distinct [context, ci, impl, p]"
    and "heap w0 p = None" "heap w0 impl = None"
    and "\<And>q. heap w q = ((heap w0)(ci \<mapsto> ContextImpl ?c,
      impl \<mapsto> GuardImpl \<lparr>guard_context = context, guard_native = native\<rparr>,
      p \<mapsto> GuardHandle \<lparr>guard_identifier = ZzddsIdentifier, guard_data = impl,
                                guard_handle_context = context\<rparr>)) q"
    and "entities w = add_mset (GuardConditionEntity, native) (entities w0)"
    using l nz L by (auto simp: ledger_def split: if_splits)
  with nz L(1-3,5-8) ch have "post (rmw_destroy_guard_condition p w) (\<lambda>(ret, w').
      ret = RMW_RET_OK \<and> heap w' = heap w0 \<and> entities w' = entities w0 \<and> next_ptr w' = next_ptr w)"
    by (simp add: rmw_destroy_guard_condition_def context_frame_defs guard_handle_at_def guard_impl_at_def)
  then show ?thesis by (rule post_mono) (auto intro: ledger_back [OF l])
qed

interpretation guard_life: lifecycle "live_context ctx ci c" "rmw_create_guard_condition E ctx"
    rmw_destroy_guard_condition "guard_created ctx ci c"
  for ctx ci c E
  by unfold_locales (rule create_guard_outcome, assumption, rule destroy_guard_outcome)

text \<open>
  A guard condition's life leaves nothing behind: creating one never has undefined behaviour;
  when it fails, memory and zzdds entities are exactly as before; when it succeeds, destroying it
  is accepted, releases everything the creation took, once each, and restores the context's count
  of active entities.
\<close>

theorem guard_condition_lifecycle:
  assumes "live_context context ci c w"
  shows "post (rmw_create_guard_condition E context w) (\<lambda>(p, w1).
    if p = nullptr then heap w1 = heap w \<and> entities w1 = entities w
    else post (rmw_destroy_guard_condition p w1) (\<lambda>(ret, w2).
      ret = RMW_RET_OK \<and> heap w2 = heap w \<and> entities w2 = entities w))"
  using assms by (rule guard_life.restores)

theorem guard_condition_lifecycle_witness:
  "post (rmw_create_guard_condition all_succeed 1 small_world) (\<lambda>(p, w1).
    if p = nullptr then heap w1 = heap small_world \<and> entities w1 = entities small_world
    else post (rmw_destroy_guard_condition p w1) (\<lambda>(ret, w2).
      ret = RMW_RET_OK \<and> heap w2 = heap small_world \<and> entities w2 = entities small_world))"
  by (rule guard_condition_lifecycle [OF small_world_live])

end
