(* ===== verification/Wait_Set.thy ===== *)
theory Wait_Set
  imports Guard_Condition
begin

text \<open>
  \<^verbatim>\<open>rmw_wait.cpp\<close>: wait sets and \<^verbatim>\<open>rmw_wait\<close>, which attaches the condition of every entry of its
  five arrays to the zzdds wait set, waits, detaches them all and sets the entries that are not
  ready to null.
\<close>

section \<open>Creating and destroying a wait set\<close>

definition rmw_create_wait_set :: "env \<Rightarrow> ptr \<Rightarrow> size_t \<Rightarrow> world \<Rightarrow> ptr result" where
  "rmw_create_wait_set E context capacity w =
     (if context = nullptr then Some (nullptr, w)
      else do {
        ctx \<leftarrow> context_at context w;
        if context_impl_ptr ctx = nullptr then Some (nullptr, w)
        else if context_identifier ctx \<noteq> ZzddsIdentifier then Some (nullptr, w)
        else do {
          c \<leftarrow> context_impl_at (context_impl_ptr ctx) w;
          if shutdown c then Some (nullptr, w)
          else let (native, w) = create E WaitSetEntity plain w
          in if native = nullptr then Some (nullptr, w)
          else let (impl, w) = allocate_object E (WaitSetImpl \<lparr>wait_context = context_impl_ptr ctx,
                                 wait_native = native, max_conditions = capacity\<rparr>) w;
                   (handle, w) = allocate_object E (WaitSetHandle \<lparr>handle_identifier = NullIdentifier,
                                   handle_data = nullptr, handle_name = nullptr\<rparr>) w
          in if impl = nullptr \<or> handle = nullptr
          then do {
            w \<leftarrow> deallocate_object handle w;
            w \<leftarrow> deallocate_object impl w;
            w \<leftarrow> destroy WaitSetEntity native w;
            Some (nullptr, w) }
          else do {
            let w = store handle (WaitSetHandle \<lparr>handle_identifier = ZzddsIdentifier,
                      handle_data = impl, handle_name = nullptr\<rparr>) w;
            w \<leftarrow> add_active 1 (context_impl_ptr ctx) w;
            Some (handle, w) } } })"

definition rmw_destroy_wait_set :: "ptr \<Rightarrow> world \<Rightarrow> rmw_ret result" where
  "rmw_destroy_wait_set wait_set w =
     (if wait_set = nullptr then Some (RMW_RET_INVALID_ARGUMENT, w)
      else do {
        h \<leftarrow> wait_set_at wait_set w;
        if handle_data h = nullptr then Some (RMW_RET_INVALID_ARGUMENT, w)
        else if handle_identifier h \<noteq> ZzddsIdentifier
        then Some (RMW_RET_INCORRECT_RMW_IMPLEMENTATION, w)
        else do {
          impl \<leftarrow> wait_set_impl_at (handle_data h) w;
          w \<leftarrow> destroy WaitSetEntity (wait_native impl) w;
          w \<leftarrow> deallocate_object (handle_data h) w;
          w \<leftarrow> deallocate_object wait_set w;
          w \<leftarrow> add_active (- 1) (wait_context impl) w;
          Some (RMW_RET_OK, w) } })"

section \<open>Arrays of entries\<close>

text \<open>
  One of the five array arguments: its count and its entries (\<open>None\<close>: a null array). The caller's
  array has room for its count; reading past the entries is undefined.
\<close>

record entry_array =
  entry_count :: size_t
  entries :: "ptr list option"

fun all_present :: "nat \<Rightarrow> ptr list \<Rightarrow> bool option" where
  "all_present 0 _ = Some True"
| "all_present (Suc n) [] = None"
| "all_present (Suc n) (p # ps) = (if p = nullptr then Some False else all_present n ps)"

definition validate_array :: "size_t \<Rightarrow> ptr list option \<Rightarrow> bool option" where
  "validate_array n es =
     (if n = 0 then Some True
      else case es of None \<Rightarrow> Some False | Some ps \<Rightarrow> all_present (unat n) ps)"

text \<open>A null argument counts no entries and is not validated.\<close>

definition array_count :: "entry_array option \<Rightarrow> size_t" where
  "array_count a = (case a of None \<Rightarrow> 0 | Some x \<Rightarrow> entry_count x)"

definition validate_entries :: "entry_array option \<Rightarrow> bool option" where
  "validate_entries a =
     (case a of None \<Rightarrow> Some True | Some x \<Rightarrow> validate_array (entry_count x) (entries x))"

text \<open>The entries the loops go over: the first \<open>count\<close> ones.\<close>

definition array_entries :: "entry_array option \<Rightarrow> ptr list" where
  "array_entries a =
     (case a of None \<Rightarrow> []
      | Some x \<Rightarrow> (case entries x of None \<Rightarrow> [] | Some ps \<Rightarrow> take (unat (entry_count x)) ps))"

fun validate_all :: "entry_array option list \<Rightarrow> bool option" where
  "validate_all [] = Some True"
| "validate_all (a # as) = do { good \<leftarrow> validate_entries a; if good then validate_all as else Some False }"

section \<open>Conditions of the entries\<close>

text \<open>
  What the loops look up for an entry: the context implementation it belongs to, and its condition.
  The event's test of its identifier and data precedes both.
\<close>

definition subscription_condition :: "ptr \<Rightarrow> world \<Rightarrow> (ptr \<times> ptr) option" where
  "subscription_condition p w = do {
     s \<leftarrow> subscription_impl_at p w;
     Some (sub_context s, sub_read_condition s) }"

definition guard_entry_condition :: "ptr \<Rightarrow> world \<Rightarrow> (ptr \<times> ptr) option" where
  "guard_entry_condition p w = do {
     g \<leftarrow> guard_impl_at p w;
     if guard_context g = nullptr then Some (nullptr, guard_native g)
     else do {
       ctx \<leftarrow> context_at (guard_context g) w;
       Some (context_impl_ptr ctx, guard_native g) } }"

definition service_condition :: "ptr \<Rightarrow> world \<Rightarrow> (ptr \<times> ptr) option" where
  "service_condition p w = do {
     s \<leftarrow> service_impl_at p w;
     h \<leftarrow> subscription_at (request_subscription s) w;
     i \<leftarrow> subscription_impl_at (handle_data h) w;
     Some (service_context s, sub_read_condition i) }"

definition client_condition :: "ptr \<Rightarrow> world \<Rightarrow> (ptr \<times> ptr) option" where
  "client_condition p w = do {
     c \<leftarrow> client_impl_at p w;
     h \<leftarrow> subscription_at (response_subscription c) w;
     i \<leftarrow> subscription_impl_at (handle_data h) w;
     Some (client_context c, sub_read_condition i) }"

definition event_context :: "rmw_event \<Rightarrow> world \<Rightarrow> ptr option" where
  "event_context event w =
     (if publisher_event (event_type event)
      then map_option pub_context (publisher_impl_at (event_data event) w)
      else map_option sub_context (subscription_impl_at (event_data event) w))"

definition event_condition :: "rmw_event \<Rightarrow> world \<Rightarrow> ptr option" where
  "event_condition event w =
     (if publisher_event (event_type event)
      then map_option (\<lambda>i. event_guards i (event_type event)) (publisher_impl_at (event_data event) w)
      else map_option (\<lambda>i. event_guards i (event_type event)) (subscription_impl_at (event_data event) w))"

section \<open>Attaching and detaching\<close>

definition attach :: "env \<Rightarrow> ptr \<Rightarrow> ptr \<Rightarrow> world \<Rightarrow> bool \<times> world" where
  "attach E native condition w =
     (let (ret, w) = call_dds E (AttachCondition native condition) w
      in if ret \<noteq> DDS_RETCODE_OK then (False, w)
         else (True, w\<lparr>attached := (attached w)(native := insert condition (attached w native))\<rparr>))"

text \<open>
  \<^verbatim>\<open>DDS_WaitSet_detach_condition\<close>: the condition is not attached afterwards if it succeeds and stays
  as it was otherwise. The code ignores the result.
\<close>

definition detach :: "env \<Rightarrow> ptr \<Rightarrow> ptr \<Rightarrow> world \<Rightarrow> world" where
  "detach E native condition w =
     (let (ret, w) = call_dds E (DetachCondition native condition) w
      in if ret \<noteq> DDS_RETCODE_OK then w
         else w\<lparr>attached := (attached w)(native := attached w native - {condition})\<rparr>)"

definition detach_all :: "env \<Rightarrow> ptr \<Rightarrow> ptr list \<Rightarrow> world \<Rightarrow> world" where
  "detach_all E native conditions w = fold (detach E native) conditions w"

text \<open>
  The loop over an array: \<open>done\<close> are the conditions attached so far, newest last. A failure detaches
  them all and gives its return code; events give \<^verbatim>\<open>RMW_RET_INVALID_ARGUMENT\<close> whatever failed.
\<close>

fun attach_entries ::
  "env \<Rightarrow> (ptr \<Rightarrow> world \<Rightarrow> (ptr \<times> ptr) option) \<Rightarrow> ptr \<Rightarrow> ptr \<Rightarrow> ptr list \<Rightarrow> ptr list \<Rightarrow> world \<Rightarrow>
   (rmw_ret option \<times> ptr list) result" where
  "attach_entries E condition_of native ci [] attached_list w = Some ((None, attached_list), w)"
| "attach_entries E condition_of native ci (p # ps) attached_list w = do {
     (entry_ci, condition) \<leftarrow> condition_of p w;
     if entry_ci \<noteq> ci
     then Some ((Some RMW_RET_INVALID_ARGUMENT, attached_list), detach_all E native attached_list w)
     else let (good, w) = attach E native condition w
     in if \<not> good then Some ((Some RMW_RET_ERROR, attached_list), detach_all E native attached_list w)
     else attach_entries E condition_of native ci ps (attached_list @ [condition]) w }"

fun attach_events ::
  "env \<Rightarrow> ptr \<Rightarrow> ptr \<Rightarrow> ptr list \<Rightarrow> ptr list \<Rightarrow> world \<Rightarrow> (rmw_ret option \<times> ptr list) result" where
  "attach_events E native ci [] attached_list w = Some ((None, attached_list), w)"
| "attach_events E native ci (p # ps) attached_list w = do {
     event \<leftarrow> event_at p w;
     let refuse = (\<lambda>w. Some ((Some RMW_RET_INVALID_ARGUMENT, attached_list), detach_all E native attached_list w));
     if event_identifier event \<noteq> ZzddsIdentifier \<or> event_data event = nullptr then refuse w
     else do {
       entry_ci \<leftarrow> event_context event w;
       if entry_ci \<noteq> ci then refuse w
       else do {
         condition \<leftarrow> event_condition event w;
         let (good, w) = attach E native condition w;
         if \<not> good then refuse w
         else attach_events E native ci ps (attached_list @ [condition]) w } } }"

section \<open>After the wait\<close>

text \<open>The loops that null the entries whose condition is not active; a ready guard is reset.\<close>

fun null_entries :: "(ptr \<Rightarrow> world \<Rightarrow> ptr option) \<Rightarrow> ptr list \<Rightarrow> ptr list \<Rightarrow> world \<Rightarrow> ptr list option" where
  "null_entries condition_of active [] w = Some []"
| "null_entries condition_of active (p # ps) w = do {
     condition \<leftarrow> condition_of p w;
     rest \<leftarrow> null_entries condition_of active ps w;
     Some ((if condition \<in> set active then p else nullptr) # rest) }"

fun null_guards :: "env \<Rightarrow> ptr list \<Rightarrow> ptr list \<Rightarrow> world \<Rightarrow> ptr list result" where
  "null_guards E active [] w = Some ([], w)"
| "null_guards E active (p # ps) w = do {
     g \<leftarrow> guard_impl_at p w;
     let w = (if guard_native g \<in> set active
              then snd (call_dds E (SetTriggerValue (guard_native g) False) w) else w);
     (rest, w) \<leftarrow> null_guards E active ps w;
     Some ((if guard_native g \<in> set active then p else nullptr) # rest, w) }"

definition subscription_read_condition :: "ptr \<Rightarrow> world \<Rightarrow> ptr option" where
  "subscription_read_condition p w = map_option snd (subscription_condition p w)"

definition service_read_condition :: "ptr \<Rightarrow> world \<Rightarrow> ptr option" where
  "service_read_condition p w = map_option snd (service_condition p w)"

definition client_read_condition :: "ptr \<Rightarrow> world \<Rightarrow> ptr option" where
  "client_read_condition p w = map_option snd (client_condition p w)"

definition event_entry_condition :: "ptr \<Rightarrow> world \<Rightarrow> ptr option" where
  "event_entry_condition p w = Option.bind (event_at p w) (\<lambda>e. event_condition e w)"

text \<open>An array argument with its first entries replaced.\<close>

definition put_entries :: "ptr list \<Rightarrow> entry_array option \<Rightarrow> entry_array option" where
  "put_entries new a =
     map_option (\<lambda>x. x\<lparr>entries := map_option (\<lambda>ps. new @ drop (length new) ps) (entries x)\<rparr>) a"

section \<open>rmw\_wait\<close>

record wait_arrays =
  wait_subscriptions :: "entry_array option"
  wait_guards :: "entry_array option"
  wait_services :: "entry_array option"
  wait_clients :: "entry_array option"
  wait_events :: "entry_array option"

definition condition_count :: "wait_arrays \<Rightarrow> size_t" where
  "condition_count a =
     array_count (wait_subscriptions a) + array_count (wait_guards a) + array_count (wait_services a) +
     array_count (wait_clients a) + array_count (wait_events a)"

definition exceeds_capacity :: "wait_arrays \<Rightarrow> size_t \<Rightarrow> bool" where
  "exceeds_capacity a capacity \<longleftrightarrow>
     condition_count a < array_count (wait_subscriptions a) \<or>
     condition_count a < array_count (wait_guards a) \<or>
     condition_count a < array_count (wait_services a) \<or>
     condition_count a < array_count (wait_clients a) \<or>
     condition_count a < array_count (wait_events a) \<or>
     (capacity \<noteq> 0 \<and> condition_count a > capacity)"

text \<open>
  The five attaching loops in order. A loop that fails has detached everything and ends the call.
\<close>

fun attach_in_turn ::
  "(ptr list \<Rightarrow> world \<Rightarrow> (rmw_ret option \<times> ptr list) result) list \<Rightarrow> ptr list \<Rightarrow> world \<Rightarrow>
   (rmw_ret option \<times> ptr list) result" where
  "attach_in_turn [] l w = Some ((None, l), w)"
| "attach_in_turn (loop # loops) l w = do {
     ((e, l), w) \<leftarrow> loop l w;
     if e \<noteq> None then Some ((e, l), w) else attach_in_turn loops l w }"

definition attach_arrays ::
  "env \<Rightarrow> ptr \<Rightarrow> ptr \<Rightarrow> wait_arrays \<Rightarrow> world \<Rightarrow> (rmw_ret option \<times> ptr list) result" where
  "attach_arrays E native ci a w =
     attach_in_turn
       [attach_entries E subscription_condition native ci (array_entries (wait_subscriptions a)),
        attach_entries E guard_entry_condition native ci (array_entries (wait_guards a)),
        attach_entries E service_condition native ci (array_entries (wait_services a)),
        attach_entries E client_condition native ci (array_entries (wait_clients a)),
        attach_events E native ci (array_entries (wait_events a))] [] w"

definition null_arrays :: "env \<Rightarrow> ptr list \<Rightarrow> wait_arrays \<Rightarrow> world \<Rightarrow> wait_arrays result" where
  "null_arrays E active a w = do {
     s \<leftarrow> null_entries subscription_read_condition active (array_entries (wait_subscriptions a)) w;
     (g, w) \<leftarrow> null_guards E active (array_entries (wait_guards a)) w;
     v \<leftarrow> null_entries service_read_condition active (array_entries (wait_services a)) w;
     c \<leftarrow> null_entries client_read_condition active (array_entries (wait_clients a)) w;
     e \<leftarrow> null_entries event_entry_condition active (array_entries (wait_events a)) w;
     Some (\<lparr>wait_subscriptions = put_entries s (wait_subscriptions a),
            wait_guards = put_entries g (wait_guards a),
            wait_services = put_entries v (wait_services a),
            wait_clients = put_entries c (wait_clients a),
            wait_events = put_entries e (wait_events a)\<rparr>, w) }"

text \<open>\<^verbatim>\<open>DDS_WaitSet_wait\<close> fills the sequence of active conditions, which the caller frees.\<close>

definition wait_for :: "env \<Rightarrow> ptr \<Rightarrow> dds_duration \<Rightarrow> world \<Rightarrow> (dds_ret \<times> ptr list \<times> ptr) \<times> world" where
  "wait_for E native timeout w =
     (let active = active_answer E (trace w) (WaitFor native timeout);
          (ret, w) = call_dds E (WaitFor native timeout) w
      in ((ret, active, next_ptr w),
          w\<lparr>next_ptr := next_ptr w + 1, entities := add_mset (ActiveConditions, next_ptr w) (entities w)\<rparr>))"

text \<open>From the attaching loops on: everything after the arguments were accepted.\<close>

definition wait_attached ::
  "env \<Rightarrow> wait_set_impl \<Rightarrow> wait_arrays \<Rightarrow> dds_duration \<Rightarrow> world \<Rightarrow> (rmw_ret \<times> wait_arrays) result" where
  "wait_attached E impl a timeout w = do {
     ((e, l), w) \<leftarrow> attach_arrays E (wait_native impl) (wait_context impl) a w;
     case e of
       Some ret \<Rightarrow> Some ((ret, a), w)
     | None \<Rightarrow>
         let ((wait_result, active, seq), w) = wait_for E (wait_native impl) timeout w;
             w = detach_all E (wait_native impl) l w
         in if wait_result \<noteq> DDS_RETCODE_OK \<and> wait_result \<noteq> DDS_RETCODE_TIMEOUT
         then do {
           w \<leftarrow> destroy ActiveConditions seq w;
           Some ((RMW_RET_ERROR, a), w) }
         else do {
           (a, w) \<leftarrow> null_arrays E active a w;
           w \<leftarrow> destroy ActiveConditions seq w;
           Some ((if wait_result = DDS_RETCODE_TIMEOUT then RMW_RET_TIMEOUT else RMW_RET_OK, a), w) } }"

text \<open>\<open>Inr\<close>: the arguments are accepted, with the wait set and the converted timeout.\<close>

definition wait_arguments ::
  "env \<Rightarrow> wait_arrays \<Rightarrow> ptr \<Rightarrow> rmw_time option \<Rightarrow> world \<Rightarrow>
   (rmw_ret + wait_set_impl \<times> dds_duration) option" where
  "wait_arguments E a wait_set wait_timeout w =
     (if wait_set = nullptr then Some (Inl RMW_RET_INVALID_ARGUMENT)
      else do {
        h \<leftarrow> wait_set_at wait_set w;
        if handle_data h = nullptr then Some (Inl RMW_RET_INVALID_ARGUMENT)
        else if handle_identifier h \<noteq> ZzddsIdentifier
        then Some (Inl RMW_RET_INCORRECT_RMW_IMPLEMENTATION)
        else do {
          valid \<leftarrow> validate_all [wait_subscriptions a, wait_guards a, wait_services a, wait_clients a,
                                wait_events a];
          if \<not> valid then Some (Inl RMW_RET_INVALID_ARGUMENT)
          else do {
            impl \<leftarrow> wait_set_impl_at (handle_data h) w;
            if exceeds_capacity a (max_conditions impl) then Some (Inl RMW_RET_INVALID_ARGUMENT)
            else case to_dds_duration (infinite E) wait_timeout of
              None \<Rightarrow> Some (Inl RMW_RET_INVALID_ARGUMENT)
            | Some timeout \<Rightarrow> Some (Inr (impl, timeout)) } } })"

definition rmw_wait ::
  "env \<Rightarrow> wait_arrays \<Rightarrow> ptr \<Rightarrow> rmw_time option \<Rightarrow> world \<Rightarrow> (rmw_ret \<times> wait_arrays) result" where
  "rmw_wait E a wait_set wait_timeout w = do {
     arguments \<leftarrow> wait_arguments E a wait_set wait_timeout w;
     case arguments of
       Inl ret \<Rightarrow> Some ((ret, a), w)
     | Inr (impl, timeout) \<Rightarrow>
         let (room, w) = call_ok E GrowContainer w
         in if \<not> room then Some ((RMW_RET_BAD_ALLOC, a), w)
         else wait_attached E impl a timeout w }"

section \<open>The life of a wait set\<close>

definition wait_set_created ::
  "ptr \<Rightarrow> context_impl \<Rightarrow> size_t \<Rightarrow> (ptr \<Rightarrow> object option) \<Rightarrow> (entity_kind \<times> ptr) multiset \<Rightarrow>
   ptr \<Rightarrow> world \<Rightarrow> bool" where
  "wait_set_created ci c capacity h e p w \<longleftrightarrow>
     (\<exists>impl native. p \<noteq> nullptr \<and> impl \<noteq> nullptr \<and> native \<noteq> nullptr \<and>
       ledger (h(ci \<mapsto> ContextImpl (c\<lparr>active_entities := active_entities c + 1\<rparr>))) e
         [Memory p (WaitSetHandle \<lparr>handle_identifier = ZzddsIdentifier, handle_data = impl,
                                    handle_name = nullptr\<rparr>),
          Memory impl (WaitSetImpl \<lparr>wait_context = ci, wait_native = native, max_conditions = capacity\<rparr>),
          Entity WaitSetEntity native] w)"

lemma create_wait_set_outcome:
  assumes "live_context context ci c w"
  shows "post (rmw_create_wait_set E context capacity w) (\<lambda>(p, w').
    if p = nullptr then ledger (heap w) (entities w) [] w'
    else wait_set_created ci c capacity (heap w) (entities w) p w')"
  unfolding rmw_create_wait_set_def
  apply (rule given_start [OF live_contextD(1) [OF assms]])
  apply (insert live_contextD [OF assms], elim exE)
  apply (intro step)
  apply simp_all
  apply (elim conjE, hypsubst, simp add: wait_set_created_def, intro exI conjI; assumption)
  done

lemma destroy_wait_set_outcome:
  assumes "live_context context ci c w0" "wait_set_created ci c capacity (heap w0) (entities w0) p w"
  shows "post (rmw_destroy_wait_set p w) (\<lambda>(ret, w').
    ret = RMW_RET_OK \<and> ledger (heap w0) (entities w0) [] w')"
proof -
  let ?c = "c\<lparr>active_entities := active_entities c + 1\<rparr>"
  obtain impl native where nz: "p \<noteq> nullptr" "impl \<noteq> nullptr" "native \<noteq> nullptr"
    and l: "ledger ((heap w0)(ci \<mapsto> ContextImpl ?c)) (entities w0)
         [Memory p (WaitSetHandle \<lparr>handle_identifier = ZzddsIdentifier, handle_data = impl,
                                    handle_name = nullptr\<rparr>),
          Memory impl (WaitSetImpl \<lparr>wait_context = ci, wait_native = native, max_conditions = capacity\<rparr>),
          Entity WaitSetEntity native] w"
    using assms(2) unfolding wait_set_created_def by blast
  note L = live_contextD [OF assms(1)]
  from L(4) obtain x where ch: "heap w0 context =
      Some (Context \<lparr>context_identifier = ZzddsIdentifier, context_impl_ptr = ci, settings = x\<rparr>)" by blast
  have "distinct [p, impl, ci]" "distinct [ci, impl, p]"
    and "heap w0 p = None" "heap w0 impl = None"
    and "\<And>q. heap w q = ((heap w0)(ci \<mapsto> ContextImpl ?c,
      impl \<mapsto> WaitSetImpl \<lparr>wait_context = ci, wait_native = native, max_conditions = capacity\<rparr>,
      p \<mapsto> WaitSetHandle \<lparr>handle_identifier = ZzddsIdentifier, handle_data = impl,
                          handle_name = nullptr\<rparr>)) q"
    and "entities w = add_mset (WaitSetEntity, native) (entities w0)"
    using l nz L by (auto simp: ledger_def split: if_splits)
  with nz L(1-3,5-8) ch have "post (rmw_destroy_wait_set p w) (\<lambda>(ret, w').
      ret = RMW_RET_OK \<and> heap w' = heap w0 \<and> entities w' = entities w0 \<and> next_ptr w' = next_ptr w)"
    by (simp add: rmw_destroy_wait_set_def context_frame_defs wait_set_at_def wait_set_impl_at_def)
  then show ?thesis by (rule post_mono) (auto intro: ledger_back [OF l])
qed

interpretation wait_set_life: lifecycle "live_context ctx ci c" "rmw_create_wait_set E ctx capacity"
    rmw_destroy_wait_set "wait_set_created ci c capacity"
  for ctx ci c E capacity
  by unfold_locales (rule create_wait_set_outcome, assumption, rule destroy_wait_set_outcome)

text \<open>
  A wait set's life leaves nothing behind: whatever creating it does (every allocation may
  fail), memory and zzdds entities are unchanged when it fails, and destroying the wait set it
  returns succeeds and restores them, with the context's count of active entities.
\<close>

theorem wait_set_lifecycle:
  assumes "live_context context ci c w"
  shows "post (rmw_create_wait_set E context capacity w) (\<lambda>(p, w1).
    if p = nullptr then heap w1 = heap w \<and> entities w1 = entities w
    else post (rmw_destroy_wait_set p w1) (\<lambda>(ret, w2).
      ret = RMW_RET_OK \<and> heap w2 = heap w \<and> entities w2 = entities w))"
  using assms by (rule wait_set_life.restores)

theorem wait_set_lifecycle_witness:
  "post (rmw_create_wait_set all_succeed 1 4 small_world) (\<lambda>(p, w1).
    if p = nullptr then heap w1 = heap small_world \<and> entities w1 = entities small_world
    else post (rmw_destroy_wait_set p w1) (\<lambda>(ret, w2).
      ret = RMW_RET_OK \<and> heap w2 = heap small_world \<and> entities w2 = entities small_world))"
  by (rule wait_set_lifecycle [OF small_world_live])

end
