(* ===== verification/Wait_Props.thy ===== *)
theory Wait_Props
  imports Wait_Set
begin

text \<open>
  What \<^verbatim>\<open>rmw_wait\<close> guarantees, read off the calls it makes: it holds nothing of its own on any branch and
  leaves no condition in the zzdds wait set that zzdds lets it detach, and the answer of its one wait
  decides the return code and which entries stay.
\<close>

section \<open>Attaching and detaching\<close>

lemma detach_frame [simp]:
  "heap (detach E n c w) = heap w" "entities (detach E n c w) = entities w"
  "trace (detach E n c w) = DetachCondition n c # trace w"
  "attached (detach E n c w) =
     (if dds_code E (trace w) (DetachCondition n c) = DDS_RETCODE_OK
      then (attached w)(n := attached w n - {c}) else attached w)"
  by (simp_all add: detach_def call_dds_def)

lemma detach_all_frame [simp]:
  "heap (detach_all E n cs w) = heap w" "entities (detach_all E n cs w) = entities w"
  by (induction cs arbitrary: w) (auto simp: detach_all_def)

lemma attach_frame:
  assumes "attach E n c w = (good, w')"
  shows "heap w' = heap w" "entities w' = entities w" "trace w' = AttachCondition n c # trace w"
    "attached w' = (if good then (attached w)(n := insert c (attached w n)) else attached w)"
  using assms by (auto simp: attach_def call_dds_def split: if_splits)

text \<open>
  What the calls made since \<open>old\<close> say (newest first, as the trace is): the conditions whose detaching
  from \<open>n\<close> zzdds refused, and the waits, each with the calls before it.
\<close>

fun failed_detaches :: "env \<Rightarrow> ptr \<Rightarrow> call list \<Rightarrow> call list \<Rightarrow> ptr set" where
  "failed_detaches E n [] old = {}"
| "failed_detaches E n (c # new) old =
     (case c of
        DetachCondition m x \<Rightarrow>
          if m = n \<and> dds_code E (new @ old) c \<noteq> DDS_RETCODE_OK then insert x (failed_detaches E n new old)
          else failed_detaches E n new old
      | _ \<Rightarrow> failed_detaches E n new old)"

fun waits_made :: "call list \<Rightarrow> call list \<Rightarrow> (call list \<times> call) list" where
  "waits_made [] old = []"
| "waits_made (c # new) old =
     (case c of WaitFor n d \<Rightarrow> (new @ old, c) # waits_made new old | _ \<Rightarrow> waits_made new old)"

text \<open>
  \<open>tracks E n w0 es waits l w\<close>: since \<open>w0\<close> the memory and the other wait sets are the same, the
  entities are \<open>es\<close>, \<open>waits\<close> are the waits made, and what is attached to \<open>n\<close> is among \<open>l\<close> or could not
  be detached.
\<close>

definition tracks ::
  "env \<Rightarrow> ptr \<Rightarrow> world \<Rightarrow> (entity_kind \<times> ptr) multiset \<Rightarrow> (call list \<times> call) list \<Rightarrow> ptr list \<Rightarrow>
   world \<Rightarrow> bool" where
  "tracks E n w0 es waits l w \<longleftrightarrow>
     heap w = heap w0 \<and> entities w = es \<and> (\<forall>m. m \<noteq> n \<longrightarrow> attached w m = attached w0 m) \<and>
     (\<exists>new. trace w = new @ trace w0 \<and> waits_made new (trace w0) = waits \<and>
        attached w n \<subseteq> set l \<union> failed_detaches E n new (trace w0))"

lemma tracks_start: "attached w n = {} \<Longrightarrow> tracks E n w (entities w) [] [] w"
  by (simp add: tracks_def)

lemma tracksD:
  assumes "tracks E n w0 es waits l w"
  shows "heap w = heap w0" "entities w = es"
  using assms by (simp_all add: tracks_def)

lemma tracks_step:
  assumes "tracks E n w0 es waits l w" "heap w' = heap w" "trace w' = c # trace w"
    "\<forall>m. m \<noteq> n \<longrightarrow> attached w' m = attached w m"
    "waits' = (case c of WaitFor m d \<Rightarrow> (trace w, c) # waits | _ \<Rightarrow> waits)"
    "attached w' n \<subseteq> set l' \<union> (attached w n - set l) \<union>
      (case c of DetachCondition m x \<Rightarrow>
         if m = n \<and> dds_code E (trace w) c \<noteq> DDS_RETCODE_OK then {x} else {} | _ \<Rightarrow> {})"
  shows "tracks E n w0 (entities w') waits' l' w'"
proof -
  obtain new where new: "trace w = new @ trace w0" "waits_made new (trace w0) = waits"
    "attached w n \<subseteq> set l \<union> failed_detaches E n new (trace w0)"
    using assms(1) by (auto simp: tracks_def)
  have "waits_made (c # new) (trace w0) = waits'"
    using assms(5) new by (simp split: call.splits)
  moreover have "attached w' n \<subseteq> set l' \<union> failed_detaches E n (c # new) (trace w0)"
    using assms(6) new(1,3) by (auto split: call.splits if_splits)
  ultimately show ?thesis
    using assms(1-4) new(1) unfolding tracks_def by (metis append_Cons)
qed

lemma tracks_record:
  assumes "tracks E n w0 es waits l w" "\<And>m d. c \<noteq> WaitFor m d"
  shows "tracks E n w0 es waits l (record_call c w)"
proof -
  have "tracks E n w0 (entities (record_call c w)) waits l (record_call c w)"
    by (rule tracks_step [OF assms(1), where c = c]) (use assms(2) in \<open>auto split: call.split\<close>)
  with tracksD [OF assms(1)] show ?thesis by simp
qed

lemma tracks_attach:
  assumes "tracks E n w0 es waits l w" "attach E n c w = (good, w')"
  shows "tracks E n w0 es waits (if good then l @ [c] else l) w'"
proof -
  note F = attach_frame [OF assms(2)]
  have "tracks E n w0 (entities w') waits (if good then l @ [c] else l) w'"
    by (rule tracks_step [OF assms(1), where c = "AttachCondition n c"]) (use F in auto)
  with F tracksD [OF assms(1)] show ?thesis by simp
qed

lemma tracks_detach:
  assumes "tracks E n w0 es waits (c # l) w"
  shows "tracks E n w0 es waits l (detach E n c w)"
proof -
  have "tracks E n w0 (entities (detach E n c w)) waits l (detach E n c w)"
    by (rule tracks_step [OF assms, where c = "DetachCondition n c"]) auto
  with tracksD [OF assms] show ?thesis by simp
qed

lemma tracks_detach_all:
  "tracks E n w0 es waits l w \<Longrightarrow> tracks E n w0 es waits [] (detach_all E n l w)"
  by (induction l arbitrary: w) (auto simp: detach_all_def dest!: tracks_detach)

lemma attach_entries_tracks:
  assumes "attach_entries E f n ci ps l w = Some ((e, l'), w')" "tracks E n w0 es waits l w"
  shows "tracks E n w0 es waits (if e = None then l' else []) w'"
  using assms
proof (induction ps arbitrary: l w)
  case (Cons p ps)
  obtain ec c where f: "f p w = Some (ec, c)"
    using Cons.prems(1) by (auto simp: bind_eq_Some_conv)
  obtain good w1 where a: "attach E n c w = (good, w1)" by fastforce
  note A = tracks_attach [OF Cons.prems(2) a]
  show ?case
    using Cons.prems f a A Cons.IH [of "l @ [c]" w1]
    by (auto split: if_splits intro: tracks_detach_all)
qed simp

lemma attach_events_tracks:
  assumes "attach_events E n ci ps l w = Some ((e, l'), w')" "tracks E n w0 es waits l w"
  shows "tracks E n w0 es waits (if e = None then l' else []) w'"
  using assms
proof (induction ps arbitrary: l w)
  case (Cons p ps)
  obtain ev where ev: "event_at p w = Some ev"
    using Cons.prems(1) by (auto simp: bind_eq_Some_conv)
  show ?case
  proof (cases "event_identifier ev \<noteq> ZzddsIdentifier \<or> event_data ev = nullptr \<or> event_context ev w \<noteq> Some ci")
    case True
    with Cons.prems ev show ?thesis
      by (auto simp: Let_def bind_eq_Some_conv intro: tracks_detach_all split: if_splits)
  next
    case False
    obtain c where c: "event_condition ev w = Some c"
      using Cons.prems(1) ev False by (auto simp: Let_def bind_eq_Some_conv split: if_splits)
    obtain good w1 where a: "attach E n c w = (good, w1)" by fastforce
    note A = tracks_attach [OF Cons.prems(2) a]
    show ?thesis
      using Cons.prems(1) Cons.IH [of "l @ [c]" w1] ev False c a A
      by (auto simp: Let_def split: if_splits intro: tracks_detach_all)
  qed
qed simp

text \<open>The contract of an attaching loop: it tracks what it attached, and a failure detaches it.\<close>

definition attaching ::
  "env \<Rightarrow> ptr \<Rightarrow> (ptr list \<Rightarrow> world \<Rightarrow> (rmw_ret option \<times> ptr list) result) \<Rightarrow> bool" where
  "attaching E n loop \<longleftrightarrow> (\<forall>w0 es waits l w e l' w'. loop l w = Some ((e, l'), w') \<longrightarrow>
     tracks E n w0 es waits l w \<longrightarrow> tracks E n w0 es waits (if e = None then l' else []) w')"

lemma attachingD:
  "attaching E n loop \<Longrightarrow> loop l w = Some ((e, l'), w') \<Longrightarrow> tracks E n w0 es waits l w \<Longrightarrow>
   tracks E n w0 es waits (if e = None then l' else []) w'"
  unfolding attaching_def by blast

lemma attaching_entries: "attaching E n (attach_entries E f n ci ps)"
  unfolding attaching_def using attach_entries_tracks by blast

lemma attaching_events: "attaching E n (attach_events E n ci ps)"
  unfolding attaching_def using attach_events_tracks by blast

lemma attaching_in_turn:
  assumes "\<And>loop. loop \<in> set loops \<Longrightarrow> attaching E n loop"
  shows "attaching E n (attach_in_turn loops)"
  using assms
proof (induction loops)
  case (Cons loop loops)
  have "tracks E n w0 es waits (if e = None then l' else []) w'"
    if run: "attach_in_turn (loop # loops) l w = Some ((e, l'), w')" and t: "tracks E n w0 es waits l w"
    for w0 es waits l w e l' w'
  proof -
    obtain e1 l1 w1 where one: "loop l w = Some ((e1, l1), w1)"
      using run by (auto simp: bind_eq_Some_conv split: if_splits)
    have same: "tracks E n w0 es waits (if e1 = None then l1 else []) w1"
      using attachingD [of E n loop, OF _ one t] Cons.prems by simp
    show ?thesis
    proof (cases e1)
      case None
      then show ?thesis
        using attachingD [OF Cons.IH, of l1 w1 e l' w'] Cons.prems run one same by simp
    next
      case (Some r)
      with same run one show ?thesis by auto
    qed
  qed
  then show ?case by (simp only: attaching_def) blast
qed (simp add: attaching_def)

lemma attach_arrays_tracks:
  assumes "attach_arrays E n ci a w = Some ((e, l), w')" "tracks E n w0 es waits [] w"
  shows "tracks E n w0 es waits (if e = None then l else []) w'"
proof -
  have "attaching E n (attach_in_turn
    [attach_entries E subscription_condition n ci (array_entries (wait_subscriptions a)),
     attach_entries E guard_entry_condition n ci (array_entries (wait_guards a)),
     attach_entries E service_condition n ci (array_entries (wait_services a)),
     attach_entries E client_condition n ci (array_entries (wait_clients a)),
     attach_events E n ci (array_entries (wait_events a))])"
    by (rule attaching_in_turn) (auto intro: attaching_entries attaching_events)
  from attachingD [OF this assms(1) [unfolded attach_arrays_def] assms(2)] show ?thesis .
qed

section \<open>Nulling\<close>

definition keep_active :: "ptr list \<Rightarrow> (ptr \<Rightarrow> world \<Rightarrow> ptr option) \<Rightarrow> world \<Rightarrow> ptr list \<Rightarrow> ptr list" where
  "keep_active active condition_of w ps =
     map (\<lambda>p. if the (condition_of p w) \<in> set active then p else nullptr) ps"

lemma null_entries_eq:
  assumes "null_entries f active ps w = Some qs"
  shows "qs = keep_active active f w ps"
  using assms
  by (induction ps arbitrary: qs) (auto simp: keep_active_def bind_eq_Some_conv)

lemma null_guards_frame:
  assumes "null_guards E active ps w = Some (qs, w')"
  shows "heap w' = heap w \<and> entities w' = entities w"
  using assms
  by (induction ps arbitrary: w qs)
    (auto simp: bind_eq_Some_conv call_dds_def split: if_splits)

lemma null_guards_tracks:
  assumes "null_guards E active ps w = Some (qs, w')" "tracks E n w0 es waits l w"
  shows "tracks E n w0 es waits l w'"
  using assms
proof (induction ps arbitrary: w qs)
  case (Cons p ps)
  obtain g where g: "guard_impl_at p w = Some g"
    using Cons.prems by (auto simp: bind_eq_Some_conv)
  let ?w = "if guard_native g \<in> set active then snd (call_dds E (SetTriggerValue (guard_native g) False) w) else w"
  obtain rest where "null_guards E active ps ?w = Some (rest, w')"
    using Cons.prems g by (auto simp: bind_eq_Some_conv Let_def)
  moreover have "tracks E n w0 es waits l ?w"
    using Cons.prems(2) tracks_record [OF Cons.prems(2)] by (simp add: call_dds_def)
  ultimately show ?case by (rule Cons.IH)
qed simp

lemma null_guards_eq:
  assumes "null_guards E active ps w = Some (qs, w')"
  shows "qs = keep_active active (\<lambda>p w. map_option guard_native (guard_impl_at p w)) w ps"
  using assms
proof (induction ps arbitrary: w qs)
  case (Cons p ps)
  obtain g where g: "guard_impl_at p w = Some g"
    using Cons.prems by (auto simp: bind_eq_Some_conv)
  let ?w = "if guard_native g \<in> set active then snd (call_dds E (SetTriggerValue (guard_native g) False) w) else w"
  obtain rest where rest: "null_guards E active ps ?w = Some (rest, w')"
    and qs: "qs = (if guard_native g \<in> set active then p else nullptr) # rest"
    using Cons.prems g by (auto simp: bind_eq_Some_conv Let_def)
  have "guard_impl_at q ?w = guard_impl_at q w" for q by (simp add: call_dds_def)
  then show ?case
    using Cons.IH [OF rest] g qs by (simp add: keep_active_def)
qed (simp add: keep_active_def)

lemma null_arrays_frame:
  assumes "null_arrays E active a w = Some (a', w')"
  shows "heap w' = heap w \<and> entities w' = entities w"
  using assms by (auto simp: null_arrays_def bind_eq_Some_conv dest!: null_guards_frame)

lemma null_arrays_tracks:
  assumes "null_arrays E active a w = Some (a', w')" "tracks E n w0 es waits l w"
  shows "tracks E n w0 es waits l w'"
  using assms by (auto simp: null_arrays_def bind_eq_Some_conv intro: null_guards_tracks)

lemma length_keep_active [simp]: "length (keep_active active f w ps) = length ps"
  by (simp add: keep_active_def)

lemma array_entries_put:
  "length new = length (array_entries a) \<Longrightarrow> array_entries (put_entries new a) = new"
  by (auto simp: array_entries_def put_entries_def split: option.splits)

lemma array_count_put [simp]: "array_count (put_entries new a) = array_count a"
  by (simp add: array_count_def put_entries_def split: option.splits)

text \<open>
  The arrays after a wait that found the conditions \<open>active\<close>: each entry is kept if its condition is
  among them and null otherwise, in all five arrays.
\<close>

definition only_ready :: "ptr list \<Rightarrow> world \<Rightarrow> wait_arrays \<Rightarrow> wait_arrays \<Rightarrow> bool" where
  "only_ready active w a a' \<longleftrightarrow>
     array_entries (wait_subscriptions a') =
       keep_active active subscription_read_condition w (array_entries (wait_subscriptions a)) \<and>
     array_entries (wait_guards a') =
       keep_active active (\<lambda>p w. map_option guard_native (guard_impl_at p w)) w (array_entries (wait_guards a)) \<and>
     array_entries (wait_services a') =
       keep_active active service_read_condition w (array_entries (wait_services a)) \<and>
     array_entries (wait_clients a') =
       keep_active active client_read_condition w (array_entries (wait_clients a)) \<and>
     array_entries (wait_events a') =
       keep_active active event_entry_condition w (array_entries (wait_events a))"

text \<open>The lookups depend on the heap only.\<close>

lemma condition_cong:
  assumes "heap w' = heap w"
  shows "subscription_read_condition p w' = subscription_read_condition p w"
    "service_read_condition p w' = service_read_condition p w"
    "client_read_condition p w' = client_read_condition p w"
    "event_entry_condition p w' = event_entry_condition p w"
    "guard_impl_at p w' = guard_impl_at p w"
  using assms
  by (simp_all add: subscription_read_condition_def subscription_condition_def
      service_read_condition_def service_condition_def client_read_condition_def
      client_condition_def event_entry_condition_def event_condition_def [abs_def] event_at_def
      subscription_at_def subscription_impl_at_def publisher_impl_at_def service_impl_at_def
      client_impl_at_def guard_impl_at_def cong: if_cong)

lemma keep_active_cong:
  assumes "heap w' = heap w"
  shows "keep_active active subscription_read_condition w' = keep_active active subscription_read_condition w"
    "keep_active active service_read_condition w' = keep_active active service_read_condition w"
    "keep_active active client_read_condition w' = keep_active active client_read_condition w"
    "keep_active active event_entry_condition w' = keep_active active event_entry_condition w"
    "keep_active active (\<lambda>p w. map_option guard_native (guard_impl_at p w)) w' =
      keep_active active (\<lambda>p w. map_option guard_native (guard_impl_at p w)) w"
  by (rule ext, simp only: keep_active_def condition_cong [OF assms])+

lemma null_arrays_ready:
  assumes "null_arrays E active a w = Some (a', w')"
  shows "only_ready active w a a'"
proof -
  obtain s g v c e w1 where run:
    "null_entries subscription_read_condition active (array_entries (wait_subscriptions a)) w = Some s"
    "null_guards E active (array_entries (wait_guards a)) w = Some (g, w1)"
    "null_entries service_read_condition active (array_entries (wait_services a)) w1 = Some v"
    "null_entries client_read_condition active (array_entries (wait_clients a)) w1 = Some c"
    "null_entries event_entry_condition active (array_entries (wait_events a)) w1 = Some e"
    and a': "a' = \<lparr>wait_subscriptions = put_entries s (wait_subscriptions a),
            wait_guards = put_entries g (wait_guards a),
            wait_services = put_entries v (wait_services a),
            wait_clients = put_entries c (wait_clients a),
            wait_events = put_entries e (wait_events a)\<rparr>"
    using assms by (auto simp: null_arrays_def bind_eq_Some_conv)
  have heap: "heap w1 = heap w" using null_guards_frame [OF run(2)] by simp
  show ?thesis
    using a'
    by (simp add: only_ready_def array_entries_put keep_active_cong [OF heap]
        null_entries_eq [OF run(1)] null_guards_eq [OF run(2)] null_entries_eq [OF run(3)]
        null_entries_eq [OF run(4)] null_entries_eq [OF run(5)])
qed

section \<open>The wait as a whole\<close>

lemma wait_for_frame:
  assumes "wait_for E n timeout w = ((result, active, seq), w')"
  shows "heap w' = heap w" "entities w' = add_mset (ActiveConditions, seq) (entities w)"
    "result = dds_code E (trace w) (WaitFor n timeout)"
    "active = active_answer E (trace w) (WaitFor n timeout)"
  using assms by (auto simp: wait_for_def call_dds_def)

lemma wait_for_tracks:
  assumes "wait_for E n timeout w = ((result, active, seq), w')" "tracks E n w0 es [] l w"
  shows "tracks E n w0 (add_mset (ActiveConditions, seq) es) [(trace w, WaitFor n timeout)] l w'"
proof -
  have "trace w' = WaitFor n timeout # trace w" "attached w' = attached w"
    using assms(1) by (auto simp: wait_for_def call_dds_def)
  moreover have "heap w' = heap w" by (rule wait_for_frame [OF assms(1)])
  ultimately have "tracks E n w0 (entities w') [(trace w, WaitFor n timeout)] l w'"
    by (intro tracks_step [OF assms(2), where c = "WaitFor n timeout"]) auto
  with wait_for_frame [OF assms(1)] tracksD [OF assms(2)] show ?thesis by simp
qed

lemma destroy_tracks:
  assumes "destroy kind p w = Some w'" "tracks E n w0 es waits l w"
  shows "tracks E n w0 (es - {#(kind, p)#}) waits l w'"
proof -
  have w': "w' = record_call (Delete kind p) (w\<lparr>entities := entities w - {#(kind, p)#}\<rparr>)"
    using assms(1) by (auto simp: destroy_def split: if_splits)
  have "tracks E n w0 (entities w') waits l w'"
    by (rule tracks_step [OF assms(2), where c = "Delete kind p"]) (auto simp: w')
  with w' tracksD [OF assms(2)] show ?thesis by simp
qed

text \<open>Attaching loops fail with one of two return codes.\<close>

definition refuses_with :: "rmw_ret set \<Rightarrow> (ptr list \<Rightarrow> world \<Rightarrow> (rmw_ret option \<times> ptr list) result) \<Rightarrow> bool" where
  "refuses_with R loop \<longleftrightarrow> (\<forall>l w r l' w'. loop l w = Some ((Some r, l'), w') \<longrightarrow> r \<in> R)"

lemma refuses_withD:
  "refuses_with R loop \<Longrightarrow> loop l w = Some ((Some r, l'), w') \<Longrightarrow> r \<in> R"
  unfolding refuses_with_def by blast

lemma refuses_with_in_turn:
  assumes "\<And>loop. loop \<in> set loops \<Longrightarrow> refuses_with R loop"
  shows "refuses_with R (attach_in_turn loops)"
  using assms
proof (induction loops)
  case (Cons loop loops)
  then show ?case
    by (fastforce simp: refuses_with_def bind_eq_Some_conv split: if_splits)
qed (simp add: refuses_with_def)

lemma refuses_with_entries: "refuses_with {RMW_RET_INVALID_ARGUMENT, RMW_RET_ERROR} (attach_entries E f n ci ps)"
proof -
  have "r = RMW_RET_INVALID_ARGUMENT \<or> r = RMW_RET_ERROR"
    if "attach_entries E f n ci ps l w = Some ((Some r, l'), w')" for l w r l' w'
    using that
    by (induction ps arbitrary: l w) (auto simp: bind_eq_Some_conv Let_def split_beta split: if_splits)
  then show ?thesis by (auto simp: refuses_with_def)
qed

lemma refuses_with_events: "refuses_with {RMW_RET_INVALID_ARGUMENT, RMW_RET_ERROR} (attach_events E n ci ps)"
proof -
  have "r = RMW_RET_INVALID_ARGUMENT"
    if "attach_events E n ci ps l w = Some ((Some r, l'), w')" for l w r l' w'
    using that
    by (induction ps arbitrary: l w) (auto simp: bind_eq_Some_conv Let_def split_beta split: if_splits)
  then show ?thesis by (auto simp: refuses_with_def)
qed

lemma attach_arrays_error:
  assumes "attach_arrays E n ci a w = Some ((Some r, l), w')"
  shows "r \<in> {RMW_RET_INVALID_ARGUMENT, RMW_RET_ERROR}"
proof -
  have "refuses_with {RMW_RET_INVALID_ARGUMENT, RMW_RET_ERROR} (attach_in_turn
    [attach_entries E subscription_condition n ci (array_entries (wait_subscriptions a)),
     attach_entries E guard_entry_condition n ci (array_entries (wait_guards a)),
     attach_entries E service_condition n ci (array_entries (wait_services a)),
     attach_entries E client_condition n ci (array_entries (wait_clients a)),
     attach_events E n ci (array_entries (wait_events a))])"
    by (rule refuses_with_in_turn) (auto intro: refuses_with_entries refuses_with_events)
  from refuses_withD [OF this assms [unfolded attach_arrays_def]] show ?thesis by auto
qed

lemma only_ready_cong:
  assumes "heap w' = heap w"
  shows "only_ready active w' a a' = only_ready active w a a'"
  by (simp only: only_ready_def keep_active_cong [OF assms])

text \<open>The return code for the answer of the wait itself.\<close>

definition wait_ret :: "dds_ret \<Rightarrow> rmw_ret" where
  "wait_ret result =
     (if result = DDS_RETCODE_OK then RMW_RET_OK
      else if result = DDS_RETCODE_TIMEOUT then RMW_RET_TIMEOUT else RMW_RET_ERROR)"

text \<open>
  \<open>waited E n d w a waits ret a'\<close>: how the return code and the arrays follow from the waits made -
  none, with an error and the arrays untouched, or one, on \<open>n\<close> for \<open>d\<close>, whose answer decides both.
\<close>

definition waited ::
  "env \<Rightarrow> ptr \<Rightarrow> dds_duration \<Rightarrow> world \<Rightarrow> wait_arrays \<Rightarrow> (call list \<times> call) list \<Rightarrow> rmw_ret \<Rightarrow>
   wait_arrays \<Rightarrow> bool" where
  "waited E n d w a waits ret a' \<longleftrightarrow>
     (waits = [] \<and> ret \<notin> {RMW_RET_OK, RMW_RET_TIMEOUT} \<and> a' = a) \<or>
     (\<exists>before. waits = [(before, WaitFor n d)] \<and> ret = wait_ret (dds_code E before (WaitFor n d)) \<and>
        (if ret \<in> {RMW_RET_OK, RMW_RET_TIMEOUT}
         then only_ready (active_answer E before (WaitFor n d)) w a a' else a' = a))"

lemma wait_attached_outcome:
  assumes run: "wait_attached E impl a d w = Some ((ret, a'), w')"
    and start: "tracks E (wait_native impl) w0 es [] [] w"
  shows "\<exists>waits. tracks E (wait_native impl) w0 es waits [] w' \<and>
    waited E (wait_native impl) d w0 a waits ret a' \<and>
    ret \<in> {RMW_RET_OK, RMW_RET_TIMEOUT, RMW_RET_ERROR, RMW_RET_INVALID_ARGUMENT}"
proof -
  let ?n = "wait_native impl"
  obtain e l w1 where att: "attach_arrays E ?n (wait_context impl) a w = Some ((e, l), w1)"
    using run by (auto simp: wait_attached_def bind_eq_Some_conv)
  note t1 = attach_arrays_tracks [OF att start]
  show ?thesis
  proof (cases e)
    case (Some r)
    with run att t1 attach_arrays_error [OF att [unfolded Some]] show ?thesis
      by (intro exI [of _ "[]"]) (auto simp: wait_attached_def waited_def)
  next
    case None
    obtain result active seq w2 where wf: "wait_for E ?n d w1 = ((result, active, seq), w2)"
      by (metis surj_pair)
    let ?w3 = "detach_all E ?n l w2"
    let ?waits = "[(trace w1, WaitFor ?n d)]"
    have t3: "tracks E ?n w0 (add_mset (ActiveConditions, seq) es) ?waits [] ?w3"
      using t1 None by (intro tracks_detach_all wait_for_tracks [OF wf]) simp
    note F = wait_for_frame(3,4) [OF wf]
    show ?thesis
    proof (cases "result = DDS_RETCODE_OK \<or> result = DDS_RETCODE_TIMEOUT")
      case True
      then obtain w4 where n: "null_arrays E active a ?w3 = Some (a', w4)"
        and d: "destroy ActiveConditions seq w4 = Some w'" and ret: "ret = wait_ret result"
        using run att None wf by (auto simp: wait_attached_def bind_eq_Some_conv Let_def wait_ret_def)
      have "tracks E ?n w0 es ?waits [] w'"
        using destroy_tracks [OF d null_arrays_tracks [OF n t3]] by simp
      moreover have "only_ready active w0 a a'"
        using null_arrays_ready [OF n] only_ready_cong [OF tracksD(1) [OF t3]] by simp
      ultimately show ?thesis
        using True ret F by (intro exI [of _ ?waits]) (auto simp: waited_def wait_ret_def)
    next
      case False
      with run att None wf have d: "destroy ActiveConditions seq ?w3 = Some w'" "ret = RMW_RET_ERROR" "a' = a"
        by (auto simp: wait_attached_def bind_eq_Some_conv Let_def)
      have "tracks E ?n w0 es ?waits [] w'"
        using destroy_tracks [OF d(1) t3] by simp
      then show ?thesis
        using False d F by (intro exI [of _ ?waits]) (auto simp: waited_def wait_ret_def)
    qed
  qed
qed

section \<open>Valid arguments are never followed wrongly\<close>

definition heap_based :: "(ptr \<Rightarrow> world \<Rightarrow> 'b) \<Rightarrow> bool" where
  "heap_based f \<longleftrightarrow> (\<forall>p w w'. heap w' = heap w \<longrightarrow> f p w' = f p w)"

lemma heap_basedD: "heap_based f \<Longrightarrow> heap w' = heap w \<Longrightarrow> f p w' = f p w"
  unfolding heap_based_def by blast

lemmas condition_defs =
  subscription_condition_def guard_entry_condition_def service_condition_def client_condition_def
  subscription_at_def subscription_impl_at_def publisher_impl_at_def service_impl_at_def
  client_impl_at_def guard_impl_at_def context_at_def event_at_def

lemma heap_based_conditions:
  "heap_based subscription_condition" "heap_based guard_entry_condition"
  "heap_based service_condition" "heap_based client_condition" "heap_based event_at"
  by (simp_all add: heap_based_def condition_defs cong: if_cong)

lemma heap_based_event:
  assumes "heap w' = heap w"
  shows "event_context e w' = event_context e w" "event_condition e w' = event_condition e w"
  using assms by (simp_all add: event_context_def event_condition_def publisher_impl_at_def
      subscription_impl_at_def)

text \<open>
  An argument array is valid if it has room for its count and its entries that are not null point
  to live objects of the array's kind (a null entry is allowed: it is refused, not followed).
\<close>

definition valid_array :: "(ptr \<Rightarrow> world \<Rightarrow> bool) \<Rightarrow> world \<Rightarrow> entry_array option \<Rightarrow> bool" where
  "valid_array live w a \<longleftrightarrow>
     (case a of None \<Rightarrow> True
      | Some x \<Rightarrow> (case entries x of None \<Rightarrow> True
        | Some ps \<Rightarrow> unat (entry_count x) \<le> length ps \<and>
            (\<forall>p \<in> set (take (unat (entry_count x)) ps). p \<noteq> nullptr \<longrightarrow> live p w)))"

definition live_event :: "ptr \<Rightarrow> world \<Rightarrow> bool" where
  "live_event p w \<longleftrightarrow> (\<exists>e. event_at p w = Some e \<and>
     (event_identifier e = ZzddsIdentifier \<and> event_data e \<noteq> nullptr \<longrightarrow>
        event_context e w \<noteq> None \<and> event_condition e w \<noteq> None))"

definition valid_arrays :: "world \<Rightarrow> wait_arrays \<Rightarrow> bool" where
  "valid_arrays w a \<longleftrightarrow>
     valid_array (\<lambda>p w. subscription_condition p w \<noteq> None) w (wait_subscriptions a) \<and>
     valid_array (\<lambda>p w. guard_entry_condition p w \<noteq> None) w (wait_guards a) \<and>
     valid_array (\<lambda>p w. service_condition p w \<noteq> None) w (wait_services a) \<and>
     valid_array (\<lambda>p w. client_condition p w \<noteq> None) w (wait_clients a) \<and>
     valid_array live_event w (wait_events a)"

lemma all_present_iff:
  "n \<le> length ps \<Longrightarrow> all_present n ps = Some (\<forall>p \<in> set (take n ps). p \<noteq> nullptr)"
  by (induction n ps rule: all_present.induct) auto

lemma validate_entries_valid:
  assumes "valid_array live w a"
  shows "\<exists>b. validate_entries a = Some b \<and> (b \<longrightarrow> (\<forall>p \<in> set (array_entries a). live p w))"
proof -
  have "unat n = 0" if "n = 0" for n :: size_t using that by simp
  then show ?thesis
    using assms
    by (auto simp: validate_entries_def validate_array_def valid_array_def array_entries_def
        all_present_iff split: option.splits)
qed

text \<open>The contract of an attaching loop on live entries: it is defined and keeps the memory.\<close>

definition runs_on :: "world \<Rightarrow> (ptr list \<Rightarrow> world \<Rightarrow> (rmw_ret option \<times> ptr list) result) \<Rightarrow> bool" where
  "runs_on w loop \<longleftrightarrow>
     (\<forall>l w1. heap w1 = heap w \<longrightarrow> (\<exists>e l' w2. loop l w1 = Some ((e, l'), w2) \<and> heap w2 = heap w))"

lemma runs_onD:
  assumes "runs_on w loop" "heap w1 = heap w"
  obtains e l' w2 where "loop l w1 = Some ((e, l'), w2)" "heap w2 = heap w"
  using assms unfolding runs_on_def by blast

lemma runs_on_entries:
  assumes "heap_based f" "\<forall>p \<in> set ps. f p w \<noteq> None"
  shows "runs_on w (attach_entries E f n ci ps)"
proof -
  have "\<exists>e l' w2. attach_entries E f n ci ps l w1 = Some ((e, l'), w2) \<and> heap w2 = heap w"
    if "heap w1 = heap w" for l w1
    using assms(2) that
  proof (induction ps arbitrary: l w1)
    case (Cons p ps)
    obtain ec c where f: "f p w1 = Some (ec, c)"
      using Cons.prems heap_basedD [OF assms(1) Cons.prems(2)] by auto
    obtain good w2 where a: "attach E n c w1 = (good, w2)" by fastforce
    show ?case
      using Cons.IH [of w2 "l @ [c]"] Cons.prems f a attach_frame(1) [OF a] by auto
  qed simp
  then show ?thesis by (simp add: runs_on_def)
qed

lemma live_event_cong: "heap w' = heap w \<Longrightarrow> live_event p w' = live_event p w"
  unfolding live_event_def
  using heap_based_event [of w' w] heap_basedD [OF heap_based_conditions(5), of w' w p] by simp

lemma runs_on_events:
  assumes "\<forall>p \<in> set ps. live_event p w"
  shows "runs_on w (attach_events E n ci ps)"
proof -
  have "\<exists>e l' w2. attach_events E n ci ps l w1 = Some ((e, l'), w2) \<and> heap w2 = heap w"
    if "heap w1 = heap w" for l w1
    using assms that
  proof (induction ps arbitrary: l w1)
    case (Cons p ps)
    have "live_event p w1" using Cons.prems live_event_cong [OF Cons.prems(2)] by simp
    then obtain e where e: "event_at p w1 = Some e"
      "event_identifier e = ZzddsIdentifier \<and> event_data e \<noteq> nullptr \<longrightarrow>
        (\<exists>x c. event_context e w1 = Some x \<and> event_condition e w1 = Some c)"
      unfolding live_event_def by auto
    show ?case
    proof (cases "event_identifier e = ZzddsIdentifier \<and> event_data e \<noteq> nullptr")
      case True
      then obtain x c where xc: "event_context e w1 = Some x" "event_condition e w1 = Some c"
        using e by blast
      obtain good w2 where a: "attach E n c w1 = (good, w2)" by fastforce
      show ?thesis
        using Cons.IH [of w2 "l @ [c]"] Cons.prems True e(1) xc a attach_frame(1) [OF a]
        by (simp add: Let_def)
    next
      case False
      with e(1) Cons.prems show ?thesis by auto
    qed
  qed simp
  then show ?thesis by (simp add: runs_on_def)
qed

lemma runs_on_in_turn:
  assumes "\<And>loop. loop \<in> set loops \<Longrightarrow> runs_on w loop"
  shows "runs_on w (attach_in_turn loops)"
  using assms
proof (induction loops)
  case (Cons loop loops)
  show ?case
    unfolding runs_on_def
  proof (intro allI impI)
    fix l and w1 :: world assume w1: "heap w1 = heap w"
    obtain e l' w2 where one: "loop l w1 = Some ((e, l'), w2)" "heap w2 = heap w"
      using runs_onD [of w loop w1 l] Cons.prems w1 by auto
    obtain e2 l2 w3 where "attach_in_turn loops l' w2 = Some ((e2, l2), w3)" "heap w3 = heap w"
      using runs_onD [OF Cons.IH one(2), of l'] Cons.prems by auto
    with one show "\<exists>e l' w2. attach_in_turn (loop # loops) l w1 = Some ((e, l'), w2) \<and> heap w2 = heap w"
      by simp
  qed
qed (simp add: runs_on_def)

text \<open>All entries are live, as they are after validation.\<close>

definition live_entries :: "world \<Rightarrow> wait_arrays \<Rightarrow> bool" where
  "live_entries w a \<longleftrightarrow>
     (\<forall>p \<in> set (array_entries (wait_subscriptions a)). subscription_condition p w \<noteq> None) \<and>
     (\<forall>p \<in> set (array_entries (wait_guards a)). guard_entry_condition p w \<noteq> None) \<and>
     (\<forall>p \<in> set (array_entries (wait_services a)). service_condition p w \<noteq> None) \<and>
     (\<forall>p \<in> set (array_entries (wait_clients a)). client_condition p w \<noteq> None) \<and>
     (\<forall>p \<in> set (array_entries (wait_events a)). live_event p w)"

lemma runs_on_arrays:
  assumes "live_entries w a"
  shows "runs_on w (attach_in_turn
    [attach_entries E subscription_condition n ci (array_entries (wait_subscriptions a)),
     attach_entries E guard_entry_condition n ci (array_entries (wait_guards a)),
     attach_entries E service_condition n ci (array_entries (wait_services a)),
     attach_entries E client_condition n ci (array_entries (wait_clients a)),
     attach_events E n ci (array_entries (wait_events a))])"
  by (rule runs_on_in_turn)
    (use assms in \<open>auto simp: live_entries_def intro!: runs_on_entries runs_on_events heap_based_conditions\<close>)

text \<open>An attaching loop over events that succeeds has seen valid identifiers and data.\<close>

lemma null_entries_defined:
  "\<forall>p \<in> set ps. f p w \<noteq> None \<Longrightarrow> \<exists>qs. null_entries f active ps w = Some qs"
  by (induction ps) auto

lemma null_guards_defined:
  "\<forall>p \<in> set ps. guard_entry_condition p w \<noteq> None \<Longrightarrow> \<exists>r. null_guards E active ps w = Some r"
proof (induction ps arbitrary: w)
  case (Cons p ps)
  obtain g where g: "guard_impl_at p w = Some g"
    using Cons.prems by (auto simp: guard_entry_condition_def bind_eq_None_conv split: bind_splits)
  let ?w = "if guard_native g \<in> set active then snd (call_dds E (SetTriggerValue (guard_native g) False) w) else w"
  have "heap ?w = heap w" by (simp add: call_dds_def)
  then obtain r where "null_guards E active ps ?w = Some r"
    using Cons.IH [of ?w] Cons.prems heap_basedD [OF heap_based_conditions(2), of ?w w] by auto
  with g show ?case by (simp add: Let_def split_beta)
qed simp

lemma attach_in_turn_None:
  assumes "\<And>loop. loop \<in> set loops \<Longrightarrow> runs_on w loop" "heap w1 = heap w"
    and "attach_in_turn loops l w1 = Some ((None, l'), w')" "loop \<in> set loops"
  shows "\<exists>l1 w2 l2 w3. heap w2 = heap w \<and> loop l1 w2 = Some ((None, l2), w3)"
  using assms
proof (induction loops arbitrary: l w1)
  case (Cons first loops)
  obtain e l1 w2 where one: "first l w1 = Some ((e, l1), w2)" "heap w2 = heap w"
    using runs_onD [of w first w1 l] Cons.prems(1,2) by auto
  then have none: "e = None" "attach_in_turn loops l1 w2 = Some ((None, l'), w')"
    using Cons.prems(3) by (auto split: if_splits)
  show ?case
  proof (cases "loop = first")
    case True
    with one none Cons.prems(2) show ?thesis by blast
  next
    case False
    with Cons.IH [of w2 l1] Cons.prems(1,4) one(2) none(2) show ?thesis by auto
  qed
qed simp

lemma attach_events_None:
  assumes "attach_events E n ci ps l w = Some ((None, l'), w')" "p \<in> set ps"
  shows "\<exists>e. event_at p w = Some e \<and> event_condition e w \<noteq> None"
  using assms
proof (induction ps arbitrary: l w)
  case (Cons q ps)
  obtain e c where e: "event_at q w = Some e" "event_condition e w = Some c"
    and rest: "attach_events E n ci ps (l @ [c]) (snd (attach E n c w)) = Some ((None, l'), w')"
    using Cons.prems(1) by (auto simp: bind_eq_Some_conv Let_def split_beta split: if_splits)
  have h: "heap (snd (attach E n c w)) = heap w"
    using attach_frame(1) [of E n c w] by (metis prod.collapse)
  show ?case
  proof (cases "p = q")
    case True
    with e show ?thesis by auto
  next
    case False
    with Cons.IH [OF rest] Cons.prems(2) show ?thesis
      by (simp add: heap_based_event [OF h] heap_basedD [OF heap_based_conditions(5) h])
  qed
qed simp

lemma null_arrays_defined:
  assumes live: "live_entries w a" and run: "attach_arrays E n ci a w = Some ((None, l), w')"
    and heap: "heap w2 = heap w"
  shows "\<exists>r. null_arrays E active a w2 = Some r"
proof -
  let ?loops = "[attach_entries E subscription_condition n ci (array_entries (wait_subscriptions a)),
     attach_entries E guard_entry_condition n ci (array_entries (wait_guards a)),
     attach_entries E service_condition n ci (array_entries (wait_services a)),
     attach_entries E client_condition n ci (array_entries (wait_clients a)),
     attach_events E n ci (array_entries (wait_events a))]"
  have on: "runs_on w loop" if "loop \<in> set ?loops" for loop
    using that live by (auto simp: live_entries_def intro!: runs_on_entries runs_on_events heap_based_conditions)
  obtain l1 w1 l2 w3 where run1: "heap w1 = heap w"
    "attach_events E n ci (array_entries (wait_events a)) l1 w1 = Some ((None, l2), w3)"
    using attach_in_turn_None [OF on refl run [unfolded attach_arrays_def],
        of "attach_events E n ci (array_entries (wait_events a))"] by auto
  have events: "\<forall>p \<in> set (array_entries (wait_events a)). event_entry_condition p w \<noteq> None"
  proof (intro ballI)
    fix p assume p: "p \<in> set (array_entries (wait_events a))"
    note ev = attach_events_None [OF run1(2) p]
    show "event_entry_condition p w \<noteq> None"
      using ev unfolding heap_basedD [OF heap_based_conditions(5) run1(1)] heap_based_event [OF run1(1)]
      by (auto simp: event_entry_condition_def)
  qed
  have defined: "\<exists>qs. null_entries f active ps w3 = Some qs"
    if "\<forall>p \<in> set ps. f p w \<noteq> None" "\<And>p. f p w3 = f p w" for f ps w3
    using null_entries_defined [of ps f w3] that by simp
  have guards: "\<forall>p \<in> set (array_entries (wait_guards a)). guard_entry_condition p w2 \<noteq> None"
    using live heap_basedD [OF heap_based_conditions(2) heap] by (simp add: live_entries_def)
  obtain g w3 where g: "null_guards E active (array_entries (wait_guards a)) w2 = Some (g, w3)"
    using null_guards_defined [OF guards] by fastforce
  have heap3: "heap w3 = heap w" using null_guards_frame [OF g] heap by simp
  have "\<exists>qs. null_entries subscription_read_condition active (array_entries (wait_subscriptions a)) w2 = Some qs"
    using live by (intro defined condition_cong [OF heap])
      (simp add: live_entries_def subscription_read_condition_def)
  moreover have "\<exists>qs. null_entries service_read_condition active (array_entries (wait_services a)) w3 = Some qs"
    using live by (intro defined condition_cong [OF heap3])
      (simp add: live_entries_def service_read_condition_def)
  moreover have "\<exists>qs. null_entries client_read_condition active (array_entries (wait_clients a)) w3 = Some qs"
    using live by (intro defined condition_cong [OF heap3])
      (simp add: live_entries_def client_read_condition_def)
  moreover have "\<exists>qs. null_entries event_entry_condition active (array_entries (wait_events a)) w3 = Some qs"
    using events by (intro defined condition_cong [OF heap3])
  ultimately show ?thesis
    using g by (auto simp: null_arrays_def)
qed

lemma wait_attached_defined:
  assumes live: "live_entries w a"
  shows "\<exists>r. wait_attached E impl a t w = Some r"
proof -
  let ?n = "wait_native impl"
  obtain e l w1 where att: "attach_arrays E ?n (wait_context impl) a w = Some ((e, l), w1)"
    and heap1: "heap w1 = heap w"
    using runs_onD [OF runs_on_arrays [OF live, of E ?n "wait_context impl"] refl, of "[]"]
    unfolding attach_arrays_def by blast
  show ?thesis
  proof (cases e)
    case (Some r)
    with att show ?thesis by (simp add: wait_attached_def)
  next
    case None
    obtain result active seq w2 where wf: "wait_for E ?n t w1 = ((result, active, seq), w2)"
      by (metis surj_pair)
    let ?w3 = "detach_all E ?n l w2"
    have heap3: "heap ?w3 = heap w" using wait_for_frame [OF wf] heap1 by simp
    obtain a4 w4 where n: "null_arrays E active a ?w3 = Some (a4, w4)"
      using null_arrays_defined [OF live att [unfolded None] heap3] by fastforce
    have "(ActiveConditions, seq) \<in># entities ?w3" "(ActiveConditions, seq) \<in># entities w4"
      using wait_for_frame [OF wf] null_arrays_frame [OF n] by simp_all
    with att None wf n show ?thesis
      by (simp add: wait_attached_def Let_def destroy_def)
  qed
qed

text \<open>A wait set handle, its implementation, and the idle native wait set they stand for.\<close>

definition live_wait_set :: "ptr \<Rightarrow> wait_set_impl \<Rightarrow> world \<Rightarrow> bool" where
  "live_wait_set p impl w \<longleftrightarrow>
     (\<exists>h. wait_set_at p w = Some h \<and> (handle_data h \<noteq> nullptr \<longrightarrow> handle_identifier h = ZzddsIdentifier \<longrightarrow>
        wait_set_impl_at (handle_data h) w = Some impl)) \<and> attached w (wait_native impl) = {}"

lemma validate_all_valid:
  assumes "valid_arrays w a"
  shows "\<exists>b. validate_all [wait_subscriptions a, wait_guards a, wait_services a, wait_clients a,
      wait_events a] = Some b \<and> (b \<longrightarrow> live_entries w a)"
proof -
  note V = assms [unfolded valid_arrays_def]
  obtain b1 b2 b3 b4 b5 where b:
    "validate_entries (wait_subscriptions a) = Some b1" "validate_entries (wait_guards a) = Some b2"
    "validate_entries (wait_services a) = Some b3" "validate_entries (wait_clients a) = Some b4"
    "validate_entries (wait_events a) = Some b5"
    "b1 \<longrightarrow> (\<forall>p \<in> set (array_entries (wait_subscriptions a)). subscription_condition p w \<noteq> None)"
    "b2 \<longrightarrow> (\<forall>p \<in> set (array_entries (wait_guards a)). guard_entry_condition p w \<noteq> None)"
    "b3 \<longrightarrow> (\<forall>p \<in> set (array_entries (wait_services a)). service_condition p w \<noteq> None)"
    "b4 \<longrightarrow> (\<forall>p \<in> set (array_entries (wait_clients a)). client_condition p w \<noteq> None)"
    "b5 \<longrightarrow> (\<forall>p \<in> set (array_entries (wait_events a)). live_event p w)"
    using V [THEN conjunct1, THEN validate_entries_valid]
      V [THEN conjunct2, THEN conjunct1, THEN validate_entries_valid]
      V [THEN conjunct2, THEN conjunct2, THEN conjunct1, THEN validate_entries_valid]
      V [THEN conjunct2, THEN conjunct2, THEN conjunct2, THEN conjunct1, THEN validate_entries_valid]
      V [THEN conjunct2, THEN conjunct2, THEN conjunct2, THEN conjunct2, THEN validate_entries_valid]
    by blast
  have "validate_all [wait_subscriptions a, wait_guards a, wait_services a, wait_clients a,
      wait_events a] = Some (b1 \<and> b2 \<and> b3 \<and> b4 \<and> b5)"
    using b(1-5) by simp
  moreover have "b1 \<and> b2 \<and> b3 \<and> b4 \<and> b5 \<longrightarrow> live_entries w a"
    unfolding live_entries_def using b(6-10) by blast
  ultimately show ?thesis by blast
qed

lemma rmw_wait_arguments:
  assumes "live_wait_set ws impl w" "valid_arrays w a"
  shows "\<exists>r. wait_arguments E a ws t w = Some r \<and>
    (\<forall>i d. r = Inr (i, d) \<longrightarrow> i = impl \<and> live_entries w a \<and> to_dds_duration (infinite E) t = Some d) \<and>
    (\<forall>ret. r = Inl ret \<longrightarrow> ret = RMW_RET_INVALID_ARGUMENT \<or> ret = RMW_RET_INCORRECT_RMW_IMPLEMENTATION)"
  using assms(1) validate_all_valid [OF assms(2)]
  by (auto simp: wait_arguments_def live_wait_set_def simp del: validate_all.simps split: option.splits)

text \<open>Both properties below come from one account of a call.\<close>

lemma rmw_wait_outcome:
  assumes "live_wait_set ws impl w" "valid_arrays w a"
  shows "\<exists>ret a' w' waits d. rmw_wait E a ws t w = Some ((ret, a'), w') \<and>
    tracks E (wait_native impl) w (entities w) waits [] w' \<and>
    waited E (wait_native impl) d w a waits ret a' \<and>
    (waits \<noteq> [] \<longrightarrow> to_dds_duration (infinite E) t = Some d) \<and>
    ret \<in> {RMW_RET_OK, RMW_RET_TIMEOUT, RMW_RET_ERROR, RMW_RET_INVALID_ARGUMENT,
      RMW_RET_INCORRECT_RMW_IMPLEMENTATION, RMW_RET_BAD_ALLOC}"
proof -
  let ?n = "wait_native impl"
  let ?w = "record_call GrowContainer w"
  obtain r where args: "wait_arguments E a ws t w = Some r"
    and ok: "\<forall>i d. r = Inr (i, d) \<longrightarrow> i = impl \<and> live_entries w a \<and> to_dds_duration (infinite E) t = Some d"
    and err: "\<forall>ret. r = Inl ret \<longrightarrow> ret = RMW_RET_INVALID_ARGUMENT \<or> ret = RMW_RET_INCORRECT_RMW_IMPLEMENTATION"
    using rmw_wait_arguments [OF assms] by blast
  have start: "tracks E ?n w (entities w) [] [] w"
    using assms(1) by (simp add: live_wait_set_def tracks_start)
  then have start1: "tracks E ?n w (entities w) [] [] ?w"
    by (rule tracks_record) simp
  show ?thesis
  proof (cases r)
    case (Inl ret)
    with args err start show ?thesis
      by (intro exI [of _ ret] exI [of _ a] exI [of _ w] exI [of _ "[]"]) (auto simp: rmw_wait_def waited_def)
  next
    case (Inr x)
    then obtain d where x: "x = (impl, d)" "live_entries w a" "to_dds_duration (infinite E) t = Some d"
      using ok by (cases x) auto
    show ?thesis
    proof (cases "ok E (trace w) GrowContainer")
      case True
      have heap: "heap ?w = heap w" by simp
      have "live_entries ?w a"
        using x(2) live_event_cong [OF heap]
        by (simp add: live_entries_def heap_based_conditions [THEN heap_basedD, OF heap])
      then obtain ret a' w' where run: "wait_attached E impl a d ?w = Some ((ret, a'), w')"
        using wait_attached_defined [of ?w a E impl d] by (metis surj_pair)
      from wait_attached_outcome [OF run start1] obtain waits where
        "tracks E ?n w (entities w) waits [] w'" "waited E ?n d w a waits ret a'"
        "ret \<in> {RMW_RET_OK, RMW_RET_TIMEOUT, RMW_RET_ERROR, RMW_RET_INVALID_ARGUMENT}" by blast
      moreover have "rmw_wait E a ws t w = Some ((ret, a'), w')"
        using args Inr x(1) True run by (simp add: rmw_wait_def call_ok_def Let_def)
      ultimately show ?thesis using x(3) by blast
    next
      case False
      with args Inr x(1) start1 show ?thesis
        by (intro exI [of _ RMW_RET_BAD_ALLOC] exI [of _ a] exI [of _ ?w] exI [of _ "[]"])
          (auto simp: rmw_wait_def call_ok_def Let_def waited_def)
    qed
  qed
qed

text \<open>
  C17. Waiting leaves no trace: on valid arguments \<^verbatim>\<open>rmw_wait\<close> never follows a wrong pointer or
  releases something twice, and on every branch - refused arguments, a condition that cannot be
  attached, a failing wait, a timeout, success - it returns one of its six codes, the sequence of
  active conditions is released, no object in memory and no other wait set is changed, and the only
  conditions that can still be attached are those whose detaching zzdds itself refused.
\<close>

theorem rmw_wait_leaves_nothing:
  assumes "live_wait_set ws impl w" "valid_arrays w a"
  shows "post (rmw_wait E a ws t w) (\<lambda>((ret, a'), w').
    ret \<in> {RMW_RET_OK, RMW_RET_TIMEOUT, RMW_RET_ERROR, RMW_RET_INVALID_ARGUMENT,
      RMW_RET_INCORRECT_RMW_IMPLEMENTATION, RMW_RET_BAD_ALLOC} \<and>
    heap w' = heap w \<and> entities w' = entities w \<and>
    (\<forall>m. m \<noteq> wait_native impl \<longrightarrow> attached w' m = attached w m) \<and>
    (\<exists>new. trace w' = new @ trace w \<and>
      attached w' (wait_native impl) \<subseteq> failed_detaches E (wait_native impl) new (trace w)))"
proof -
  obtain ret a' w' waits where run: "rmw_wait E a ws t w = Some ((ret, a'), w')"
    and "tracks E (wait_native impl) w (entities w) waits [] w'"
    and "ret \<in> {RMW_RET_OK, RMW_RET_TIMEOUT, RMW_RET_ERROR, RMW_RET_INVALID_ARGUMENT,
      RMW_RET_INCORRECT_RMW_IMPLEMENTATION, RMW_RET_BAD_ALLOC}"
    using rmw_wait_outcome [OF assms] by metis
  then show ?thesis
    unfolding run by (auto simp: tracks_def)
qed

text \<open>
  C18. What a wait returns is what zzdds answered. A call makes at most one wait, on the native wait
  set and for the converted timeout. If it makes one, its answer decides the return code, and when
  that is ready or timed out, every entry of the five arrays is kept if its condition is among those
  the same answer reported active and is null otherwise. Without a wait the return code is an error.
  With any other return code the arrays are untouched.
\<close>

theorem rmw_wait_ready_entries:
  assumes "live_wait_set ws impl w" "valid_arrays w a"
    and "rmw_wait E a ws t w = Some ((ret, a'), w')"
  shows "\<exists>new. trace w' = new @ trace w \<and>
    (waits_made new (trace w) = [] \<and> ret \<notin> {RMW_RET_OK, RMW_RET_TIMEOUT} \<and> a' = a \<or>
     (\<exists>before d. waits_made new (trace w) = [(before, WaitFor (wait_native impl) d)] \<and>
        to_dds_duration (infinite E) t = Some d \<and>
        ret = wait_ret (dds_code E before (WaitFor (wait_native impl) d)) \<and>
        (if ret \<in> {RMW_RET_OK, RMW_RET_TIMEOUT}
         then only_ready (active_answer E before (WaitFor (wait_native impl) d)) w a a'
         else a' = a)))"
proof -
  obtain waits d where t: "tracks E (wait_native impl) w (entities w) waits [] w'"
    and waited: "waited E (wait_native impl) d w a waits ret a'"
    and d: "waits \<noteq> [] \<longrightarrow> to_dds_duration (infinite E) t = Some d"
    using rmw_wait_outcome [OF assms(1,2), of E t] assms(3) by auto
  obtain new where new: "trace w' = new @ trace w" "waits_made new (trace w) = waits"
    using t by (auto simp: tracks_def)
  from waited show ?thesis
    unfolding waited_def
  proof (elim disjE exE conjE)
    fix before assume "waits = [(before, WaitFor (wait_native impl) d)]"
      "ret = wait_ret (dds_code E before (WaitFor (wait_native impl) d))"
      "if ret \<in> {RMW_RET_OK, RMW_RET_TIMEOUT}
       then only_ready (active_answer E before (WaitFor (wait_native impl) d)) w a a' else a' = a"
    with new d show ?thesis
      by (intro exI [of _ new] conjI disjI2 exI [of _ before] exI [of _ d]) simp_all
  next
    assume "waits = []" "ret \<notin> {RMW_RET_OK, RMW_RET_TIMEOUT}" "a' = a"
    with new show ?thesis by (intro exI [of _ new] conjI disjI1) simp_all
  qed
qed

section \<open>A concrete wait\<close>

text \<open>A wait set at address 3, two guard conditions at 6 and 8; the native condition 7 becomes active.\<close>

definition wait_world :: world where
  "wait_world = small_world\<lparr>heap := (heap small_world)(
     3 \<mapsto> WaitSetHandle \<lparr>handle_identifier = ZzddsIdentifier, handle_data = 4, handle_name = nullptr\<rparr>,
     4 \<mapsto> WaitSetImpl \<lparr>wait_context = 2, wait_native = 5, max_conditions = 0\<rparr>,
     6 \<mapsto> GuardImpl \<lparr>guard_context = 1, guard_native = 7\<rparr>,
     8 \<mapsto> GuardImpl \<lparr>guard_context = 1, guard_native = 9\<rparr>)\<rparr>"

definition two_guards :: wait_arrays where
  "two_guards = \<lparr>wait_subscriptions = None, wait_guards = Some \<lparr>entry_count = 2, entries = Some [6, 8]\<rparr>,
     wait_services = None, wait_clients = None, wait_events = None\<rparr>"

lemma demo_wait_valid:
  "live_wait_set 3 \<lparr>wait_context = 2, wait_native = 5, max_conditions = 0\<rparr> wait_world"
  "valid_arrays wait_world two_guards"
  by (simp_all add: live_wait_set_def valid_arrays_def valid_array_def wait_world_def small_world_def
      two_guards_def wait_set_at_def wait_set_impl_at_def guard_entry_condition_def guard_impl_at_def
      context_at_def)

lemma no_failed_detaches: "failed_detaches all_succeed n new old = {}"
  by (induction new) (auto simp: all_succeed_def split: call.splits)

theorem rmw_wait_leaves_nothing_witness:
  "\<exists>r w'. rmw_wait all_succeed two_guards 3 None wait_world = Some (r, w') \<and>
    attached w' 5 = {} \<and> entities w' = {#}"
  using rmw_wait_leaves_nothing [OF demo_wait_valid, of all_succeed None]
  by (auto simp: post_ex no_failed_detaches wait_world_def small_world_def)

lemmas wait_run_defs =
  rmw_wait_def wait_arguments_def wait_set_at_def wait_set_impl_at_def validate_entries_def
  validate_array_def exceeds_capacity_def condition_count_def array_count_def to_dds_duration_def
  call_ok_def call_dds_def wait_attached_def attach_arrays_def array_entries_def guard_entry_condition_def
  guard_impl_at_def context_at_def attach_def wait_for_def detach_all_def detach_def null_arrays_def
  put_entries_def destroy_def all_succeed_def two_guards_def wait_world_def small_world_def

lemma all_present_numeral [simp]:
  "all_present (numeral k) (p # ps) = (if p = nullptr then Some False else all_present (pred_numeral k) ps)"
  by (simp add: numeral_eq_Suc)

lemma demo_wait_arguments:
  "wait_arguments all_succeed two_guards 3 None wait_world =
     Some (Inr (\<lparr>wait_context = 2, wait_native = 5, max_conditions = 0\<rparr>,
       \<lparr>dur_sec = 2147483647, dur_nanosec = 4294967295\<rparr>))"
  by (simp add: wait_run_defs)

lemma demo_wait_run:
  "\<exists>a' w'. rmw_wait all_succeed two_guards 3 None wait_world = Some ((RMW_RET_OK, a'), w') \<and>
    array_entries (wait_guards a') = [6, nullptr]"
  unfolding rmw_wait_def demo_wait_arguments
  by (simp add: wait_run_defs)

theorem rmw_wait_ready_entries_witness:
  "\<exists>a' w'. rmw_wait all_succeed two_guards 3 None wait_world = Some ((RMW_RET_OK, a'), w') \<and>
    only_ready [7] wait_world two_guards a' \<and> array_entries (wait_guards a') = [6, nullptr]"
proof -
  obtain a' w' where run: "rmw_wait all_succeed two_guards 3 None wait_world = Some ((RMW_RET_OK, a'), w')"
    "array_entries (wait_guards a') = [6, nullptr]"
    using demo_wait_run by blast
  have "active_answer all_succeed t c = [7]" for t c by (simp add: all_succeed_def)
  with rmw_wait_ready_entries [OF demo_wait_valid run(1)] run show ?thesis by auto
qed

end
