(* ===== verification/Type_Support.thy ===== *)
theory Type_Support
  imports Guard_Condition
begin

text \<open>
  \<^verbatim>\<open>type_support.cpp\<close> and \<^verbatim>\<open>rmw_serialization.cpp\<close>: finding the static type support behind the handles
  the client library passes, and converting messages to and from serialized buffers.
\<close>

section \<open>Type support handles\<close>

text \<open>
  A handle is constant data: its identifier (\<open>None\<close>: null), its callback table, the dispatch function
  it offers and what its type hash function returns.
\<close>

datatype message_ts = MessageTs
  (ts_identifier: "string option")
  (ts_data: "message_callbacks option")
  (ts_func: "(string \<Rightarrow> message_ts option) option")
  (ts_hash: "type_hash option")

datatype service_ts = ServiceTs
  (srv_identifier: "string option")
  (srv_request: "message_ts option")
  (srv_response: "message_ts option")
  (srv_func: "(string \<Rightarrow> service_ts option) option")
  (srv_hash: "type_hash option")

definition zzdds_cpp :: string where
  "zzdds_cpp = ''rosidl_typesupport_zzdds_cpp''"

definition zzdds_c :: string where
  "zzdds_c = ''rosidl_typesupport_zzdds_c''"

definition is_zzdds :: "string \<Rightarrow> bool" where
  "is_zzdds i \<longleftrightarrow> i = zzdds_cpp \<or> i = zzdds_c"

text \<open>The order in which a dispatch function is asked: a C dispatch handle for the C support first.\<close>

definition first_identifier :: "string \<Rightarrow> string" where
  "first_identifier i = (if i = ''rosidl_typesupport_c'' then zzdds_c else zzdds_cpp)"

definition second_identifier :: "string \<Rightarrow> string" where
  "second_identifier i = (if i = ''rosidl_typesupport_c'' then zzdds_cpp else zzdds_c)"

text \<open>The handle function the generated code installs, for messages (that for services is alike).\<close>

definition get_message_typesupport_handle ::
  "string \<Rightarrow> message_ts option \<Rightarrow> string option \<Rightarrow> message_ts option" where
  "get_message_typesupport_handle own handle i =
     (case (handle, i) of
        (Some h, Some i) \<Rightarrow> if i = own then Some h else None
      | _ \<Rightarrow> None)"

definition get_service_typesupport_handle ::
  "string \<Rightarrow> service_ts option \<Rightarrow> string option \<Rightarrow> service_ts option" where
  "get_service_typesupport_handle own handle i =
     (case (handle, i) of
        (Some h, Some i) \<Rightarrow> if i = own then Some h else None
      | _ \<Rightarrow> None)"

definition dispatch :: "(string \<Rightarrow> 'h option) option \<Rightarrow> string \<Rightarrow> 'h option" where
  "dispatch func i =
     (case func of None \<Rightarrow> None
      | Some f \<Rightarrow> (case f (first_identifier i) of Some h \<Rightarrow> Some h | None \<Rightarrow> f (second_identifier i)))"

definition complete_callbacks :: "message_callbacks \<Rightarrow> bool" where
  "complete_callbacks cb \<longleftrightarrow> serialize_fn cb \<noteq> None \<and> deserialize_fn cb \<noteq> None \<and>
     serialized_size_fn cb \<noteq> None \<and> type_name cb \<noteq> None"

definition resolve_message_type_support :: "message_ts option \<Rightarrow> message_callbacks option" where
  "resolve_message_type_support type_support = do {
     ts \<leftarrow> type_support;
     i \<leftarrow> ts_identifier ts;
     resolved \<leftarrow> (if is_zzdds i then Some ts else dispatch (ts_func ts) i);
     j \<leftarrow> ts_identifier resolved;
     callbacks \<leftarrow> (if is_zzdds j then ts_data resolved else None);
     if complete_callbacks callbacks then Some callbacks else None }"

definition resolve_service_type_support :: "service_ts option \<Rightarrow> service_type_support option" where
  "resolve_service_type_support type_support = do {
     ts \<leftarrow> type_support;
     i \<leftarrow> srv_identifier ts;
     resolved \<leftarrow> (if is_zzdds i then Some ts else dispatch (srv_func ts) i);
     request_ts \<leftarrow> srv_request resolved;
     response_ts \<leftarrow> srv_response resolved;
     request \<leftarrow> resolve_message_type_support (Some request_ts);
     response \<leftarrow> resolve_message_type_support (Some response_ts);
     Some \<lparr>ts_request = request, ts_response = response,
           ts_type_hash = (case srv_hash resolved of None \<Rightarrow> 0 | Some h \<Rightarrow> h)\<rparr> }"

text \<open>The handle that wraps a callback table (\<^verbatim>\<open>message_handle\<close> of \<^verbatim>\<open>rmw_service.cpp\<close>).\<close>

definition message_handle :: "message_callbacks \<Rightarrow> message_ts" where
  "message_handle cb = MessageTs (Some zzdds_cpp) (Some cb) None None"

text \<open>\<^verbatim>\<open>type_hash_of\<close> of \<^verbatim>\<open>rmw_data_plane.cpp\<close>: the zero hash where the handle offers none.\<close>

definition type_hash_of :: "message_ts option \<Rightarrow> type_hash" where
  "type_hash_of type_support =
     (case Option.bind type_support ts_hash of None \<Rightarrow> 0 | Some h \<Rightarrow> h)"

section \<open>Serialized messages\<close>

definition valid_serialized_message :: "serialized_message \<Rightarrow> bool" where
  "valid_serialized_message m \<longleftrightarrow> allocator_valid m \<and> buffer_length m \<le> buffer_capacity m \<and>
     (buffer_capacity m = 0 \<or> \<not> buffer_null m)"

text \<open>
  \<^verbatim>\<open>rcutils_uint8_array_resize\<close>, which may fail: it reallocates, so the bytes up to the old capacity
  are kept and the others are unspecified (here 0).
\<close>

definition resize_array :: "env \<Rightarrow> ptr \<Rightarrow> serialized_message \<Rightarrow> nat \<Rightarrow> world \<Rightarrow> rmw_ret \<times> world" where
  "resize_array E p m n w =
     (let (ret, w) = call_rmw E (ResizeArray n) w
      in (ret, if ret = RMW_RET_OK
               then store p (SerializedMessage (m\<lparr>buffer := take n (buffer m @ replicate n 0),
                      buffer_length := min n (buffer_length m), buffer_null := False\<rparr>)) w
               else w))"

text \<open>Writing bytes at the front of a buffer.\<close>

definition overwrite :: "uint8 list \<Rightarrow> uint8 list \<Rightarrow> uint8 list" where
  "overwrite bytes buf = bytes @ drop (length bytes) buf"

definition SIZE_MAX :: size_t where
  "SIZE_MAX = - 1"

text \<open>From the known size on: growing the buffer and writing into it.\<close>

definition serialize_into ::
  "env \<Rightarrow> message_callbacks \<Rightarrow> ros_value \<Rightarrow> ptr \<Rightarrow> nat \<Rightarrow> world \<Rightarrow> rmw_ret result" where
  "serialize_into E callbacks v out required w = do {
     before \<leftarrow> serialized_at out w;
     let (resized, w) = (if buffer_capacity before < required
                         then resize_array E out before required w else (RMW_RET_OK, w));
     m \<leftarrow> serialized_at out w;
     if resized \<noteq> RMW_RET_OK
     then Some (if resized = RMW_RET_BAD_ALLOC then RMW_RET_BAD_ALLOC else RMW_RET_ERROR,
                store out (SerializedMessage (m\<lparr>buffer_length := buffer_length before\<rparr>)) w)
     else do {
       serialize \<leftarrow> serialize_fn callbacks;
       let (good, bytes) = serialize v (Some (buffer_capacity m));
       let m = m\<lparr>buffer := overwrite bytes (buffer m)\<rparr>;
       if \<not> good \<or> length bytes \<noteq> required
       then Some (RMW_RET_ERROR,
                  store out (SerializedMessage (m\<lparr>buffer_length := buffer_length before\<rparr>)) w)
       else Some (RMW_RET_OK,
                  store out (SerializedMessage (m\<lparr>buffer_length := length bytes\<rparr>)) w) } }"

definition rmw_serialize :: "env \<Rightarrow> ptr \<Rightarrow> message_ts option \<Rightarrow> ptr \<Rightarrow> world \<Rightarrow> rmw_ret result" where
  "rmw_serialize E ros_message type_support out w =
     (if ros_message = nullptr \<or> out = nullptr then Some (RMW_RET_INVALID_ARGUMENT, w)
      else do {
        m \<leftarrow> serialized_at out w;
        if \<not> valid_serialized_message m then Some (RMW_RET_INVALID_ARGUMENT, w)
        else case resolve_message_type_support type_support of
          None \<Rightarrow> Some (RMW_RET_ERROR, w)
        | Some callbacks \<Rightarrow> do {
            v \<leftarrow> ros_message_at ros_message w;
            size \<leftarrow> serialized_size_fn callbacks;
            if size v = SIZE_MAX \<or> size v < 4 then Some (RMW_RET_ERROR, w)
            else serialize_into E callbacks v out (unat (size v)) w } })"

text \<open>Initialising a reader on the bytes and reading the message from it.\<close>

definition read_message ::
  "env \<Rightarrow> message_callbacks \<Rightarrow> uint8 list \<Rightarrow> ptr \<Rightarrow> world \<Rightarrow> bool result" where
  "read_message E callbacks bytes ros_message w =
     (if \<not> cdr_readable E bytes then Some (False, w)
      else do {
        deserialize \<leftarrow> deserialize_fn callbacks;
        v \<leftarrow> ros_message_at ros_message w;
        let (good, v) = deserialize bytes v;
        Some (good, store ros_message (RosMessage v) w) })"

definition rmw_deserialize :: "env \<Rightarrow> ptr \<Rightarrow> message_ts option \<Rightarrow> ptr \<Rightarrow> world \<Rightarrow> rmw_ret result" where
  "rmw_deserialize E input type_support ros_message w =
     (if ros_message = nullptr \<or> input = nullptr then Some (RMW_RET_INVALID_ARGUMENT, w)
      else do {
        m \<leftarrow> serialized_at input w;
        if \<not> valid_serialized_message m \<or> buffer_length m < 4 then Some (RMW_RET_INVALID_ARGUMENT, w)
        else case resolve_message_type_support type_support of
          None \<Rightarrow> Some (RMW_RET_ERROR, w)
        | Some callbacks \<Rightarrow> do {
            (good, w) \<leftarrow> read_message E callbacks (take (buffer_length m) (buffer m)) ros_message w;
            Some (if good then RMW_RET_OK else RMW_RET_ERROR, w) } })"

text \<open>\<^verbatim>\<open>create_ros_message\<close> and \<^verbatim>\<open>destroy_ros_message\<close> of the callback table.\<close>

definition create_ros_message :: "env \<Rightarrow> message_callbacks \<Rightarrow> world \<Rightarrow> ptr \<times> world" where
  "create_ros_message E callbacks w = allocate_object E (RosMessage (new_message callbacks)) w"

definition destroy_ros_message :: "ptr \<Rightarrow> world \<Rightarrow> world option" where
  "destroy_ros_message p w = deallocate p w"

section \<open>What resolving gives\<close>

lemma resolve_complete:
  "resolve_message_type_support ts = Some cb \<Longrightarrow> complete_callbacks cb"
  by (auto simp: resolve_message_type_support_def bind_eq_Some_conv split: if_splits)

lemma resolve_type_name:
  "resolve_message_type_support ts = Some cb \<Longrightarrow> \<exists>type. type_name cb = Some type"
  by (auto dest: resolve_complete simp: complete_callbacks_def)

lemma resolve_message_handle [simp]:
  "complete_callbacks cb \<Longrightarrow> resolve_message_type_support (Some (message_handle cb)) = Some cb"
  by (simp add: resolve_message_type_support_def message_handle_def is_zzdds_def)

text \<open>
  C23. Resolving a service's type support only gives complete callback tables: every function
  pointer the data plane calls (serialise, deserialise, serialized size) and the DDS type name are
  there, for the request and for the response, and wrapping either table in a handle again (as
  client and service creation do) resolves to the same table.
\<close>

theorem resolved_service_complete:
  assumes "resolve_service_type_support ts = Some s"
  shows "complete_callbacks (ts_request s) \<and> complete_callbacks (ts_response s) \<and>
    resolve_message_type_support (Some (message_handle (ts_request s))) = Some (ts_request s) \<and>
    resolve_message_type_support (Some (message_handle (ts_response s))) = Some (ts_response s)"
proof -
  have "complete_callbacks (ts_request s)" "complete_callbacks (ts_response s)"
    using assms by (auto simp: resolve_service_type_support_def bind_eq_Some_conv intro: resolve_complete)
  then show ?thesis by simp
qed

text \<open>An example type: one byte, in a four byte header.\<close>

definition byte_callbacks :: message_callbacks where
  "byte_callbacks = \<lparr>table = 1, has_key = False, type_name = Some ''demo::msg::dds_::Byte_'',
     serialize_fn = Some (\<lambda>v cap. if cap = None \<or> 5 \<le> the cap then (True, [0, 1, 0, 0, of_nat v]) else (False, [])),
     deserialize_fn = Some (\<lambda>bytes v. if length bytes = 5 then (True, unat (bytes ! 4)) else (False, v)),
     serialized_size_fn = Some (\<lambda>_. 5), key_hash_fn = None, new_message = 0\<rparr>"

lemma complete_byte_callbacks [simp]: "complete_callbacks byte_callbacks"
  by (simp add: complete_callbacks_def byte_callbacks_def)

definition byte_dispatch :: service_ts where
  "byte_dispatch = ServiceTs (Some ''rosidl_typesupport_cpp'') None None
     (Some (\<lambda>i. if i = zzdds_cpp then Some (ServiceTs (Some zzdds_cpp) (Some (message_handle byte_callbacks))
        (Some (message_handle byte_callbacks)) None (Some 9)) else None)) None"

lemma byte_dispatch_resolves:
  "resolve_service_type_support (Some byte_dispatch) =
    Some \<lparr>ts_request = byte_callbacks, ts_response = byte_callbacks, ts_type_hash = 9\<rparr>"
  by (simp add: resolve_service_type_support_def byte_dispatch_def is_zzdds_def dispatch_def
    first_identifier_def zzdds_cpp_def zzdds_c_def)

theorem resolved_service_complete_witness:
  "complete_callbacks byte_callbacks \<and> complete_callbacks byte_callbacks \<and>
    resolve_message_type_support (Some (message_handle byte_callbacks)) = Some byte_callbacks \<and>
    resolve_message_type_support (Some (message_handle byte_callbacks)) = Some byte_callbacks"
  using resolved_service_complete [OF byte_dispatch_resolves] by simp

section \<open>Serialising\<close>

text \<open>A fixed writer never writes past its capacity.\<close>

definition bounded_writer :: "message_callbacks \<Rightarrow> bool" where
  "bounded_writer cb \<longleftrightarrow>
     (\<forall>f v n. serialize_fn cb = Some f \<longrightarrow> length (snd (f v (Some n))) \<le> n)"

lemma resize_array_frame:
  assumes "resize_array E p m n w = (ret, w')" "heap w p = Some (SerializedMessage m)"
  shows "\<exists>m'. heap w' = (heap w)(p \<mapsto> SerializedMessage m') \<and> allocator_valid m' = allocator_valid m \<and>
    (ret = RMW_RET_OK \<longrightarrow> buffer_capacity m' = n \<and> \<not> buffer_null m') \<and> (ret \<noteq> RMW_RET_OK \<longrightarrow> m' = m)"
  using assms by (auto simp: resize_array_def call_rmw_def Let_def buffer_capacity_def fun_upd_idem split: if_splits)

definition serialize_outcome ::
  "message_callbacks \<Rightarrow> ros_value \<Rightarrow> ptr \<Rightarrow> serialized_message \<Rightarrow> nat \<Rightarrow> world \<Rightarrow> rmw_ret \<Rightarrow> world \<Rightarrow> bool" where
  "serialize_outcome cb v out m required w ret w' \<longleftrightarrow>
     (\<exists>m'. heap w' = (heap w)(out \<mapsto> SerializedMessage m') \<and> valid_serialized_message m' \<and>
       buffer_capacity m \<le> buffer_capacity m' \<and>
       (ret \<noteq> RMW_RET_OK \<longrightarrow> buffer_length m' = buffer_length m) \<and>
       (ret = RMW_RET_OK \<longrightarrow> buffer_length m' = required \<and>
          (\<exists>f. serialize_fn cb = Some f \<and>
            f v (Some (buffer_capacity m')) = (True, take (buffer_length m') (buffer m')))))"

lemma serialize_into_outcome:
  assumes "heap w out = Some (SerializedMessage m)" "valid_serialized_message m"
    and "complete_callbacks cb" "bounded_writer cb"
  shows "post (serialize_into E cb v out required w) (\<lambda>(ret, w'). serialize_outcome cb v out m required w ret w')"
proof -
  obtain f where f: "serialize_fn cb = Some f" using assms(3) by (auto simp: complete_callbacks_def)
  define r where "r = (if buffer_capacity m < required then resize_array E out m required w else (RMW_RET_OK, w))"
  obtain ret w1 where r1: "r = (ret, w1)" by (cases r)
  have "\<exists>m1. heap w1 = (heap w)(out \<mapsto> SerializedMessage m1) \<and> allocator_valid m1 \<and>
    buffer_capacity m \<le> buffer_capacity m1 \<and> (buffer_capacity m1 = 0 \<or> \<not> buffer_null m1) \<and>
    (ret \<noteq> RMW_RET_OK \<longrightarrow> m1 = m)"
  proof (cases "buffer_capacity m < required")
    case True
    then show ?thesis
      using resize_array_frame [OF _ assms(1), of E required ret w1] r1 assms(2)
      by (cases "ret = RMW_RET_OK")
         (auto simp: r_def valid_serialized_message_def fun_upd_idem intro: exI [of _ m])
  next
    case False
    then show ?thesis
      using r1 assms(1,2)
      by (auto simp: r_def valid_serialized_message_def fun_upd_idem intro!: exI [of _ m])
  qed
  then obtain m1 where m1: "heap w1 = (heap w)(out \<mapsto> SerializedMessage m1)" "allocator_valid m1"
    "buffer_capacity m \<le> buffer_capacity m1" "buffer_capacity m1 = 0 \<or> \<not> buffer_null m1"
    "ret \<noteq> RMW_RET_OK \<Longrightarrow> m1 = m"
    by blast
  obtain good bytes where g: "f v (Some (buffer_capacity m1)) = (good, bytes)"
    by (cases "f v (Some (buffer_capacity m1))")
  have len: "length bytes \<le> buffer_capacity m1"
    using assms(4) f g unfolding bounded_writer_def by (metis snd_conv)
  have before: "buffer_length m \<le> buffer_capacity m"
    using assms(2) by (simp add: valid_serialized_message_def)
  have cap: "buffer_capacity (m1\<lparr>buffer := overwrite bytes (buffer m1), buffer_length := n\<rparr>) = buffer_capacity m1" for n
    using len by (simp add: buffer_capacity_def overwrite_def)
  show ?thesis
    using r1 m1(1) f g assms(1,2)
  proof (cases "ret = RMW_RET_OK")
    case False
    with m1 have "m1 = m" by blast
    with False r1 m1(1) f g assms(1,2) show ?thesis
      by (auto simp: serialize_into_def serialized_at_def r_def [symmetric] serialize_outcome_def
        intro!: exI [of _ m])
  next
    case True
    let ?m = "\<lambda>n. m1\<lparr>buffer := overwrite bytes (buffer m1), buffer_length := n\<rparr>"
    have valid: "valid_serialized_message (?m n)" if "n \<le> buffer_capacity m1" for n
      using that m1(2,4) cap [of n] by (simp add: valid_serialized_message_def)
    show ?thesis
    proof (cases "good \<and> length bytes = required")
      case success: True
      then have "take required (overwrite bytes (buffer m1)) = bytes" by (auto simp: overwrite_def)
      with True success r1 m1(1,3) f g assms(1) valid [of required] len cap [of required] show ?thesis
        by (auto simp: serialize_into_def serialized_at_def r_def [symmetric] serialize_outcome_def Let_def
          intro!: exI [of _ "?m required"])
    next
      case failed: False
      have keep: "buffer_length m \<le> buffer_capacity m1" using before m1(3) by simp
      from True failed r1 m1(1,3) f g assms(1) valid [OF keep] cap [of "buffer_length m"] show ?thesis
        by (auto simp: serialize_into_def serialized_at_def r_def [symmetric] serialize_outcome_def Let_def
          intro!: exI [of _ "?m (buffer_length m)"])
    qed
  qed
qed

text \<open>
  C21. Serialising a message into an initialised buffer has defined behaviour on every path and
  touches nothing but that buffer, which stays well formed and never shrinks. If it fails (at the
  size, the growth or the writing), the buffer's length is what it was; if it succeeds, the length
  is the announced size and the first \<open>buffer_length\<close> bytes are exactly what the type support wrote.
\<close>

theorem rmw_serialize_effect:
  assumes "heap w out = Some (SerializedMessage m)" "valid_serialized_message m" "out \<noteq> nullptr"
    and "heap w ros = Some (RosMessage v)" "ros \<noteq> nullptr"
    and "resolve_message_type_support ts = Some cb" "bounded_writer cb" "serialized_size_fn cb = Some size_of"
  shows "post (rmw_serialize E ros ts out w) (\<lambda>(ret, w'). \<exists>m'.
    heap w' = (heap w)(out \<mapsto> SerializedMessage m') \<and> valid_serialized_message m' \<and>
    buffer_capacity m \<le> buffer_capacity m' \<and>
    (ret \<noteq> RMW_RET_OK \<longrightarrow> buffer_length m' = buffer_length m) \<and>
    (ret = RMW_RET_OK \<longrightarrow> 4 \<le> buffer_length m' \<and> buffer_length m' = unat (size_of v) \<and>
      (\<exists>f. serialize_fn cb = Some f \<and>
        f v (Some (buffer_capacity m')) = (True, take (buffer_length m') (buffer m')))))"
proof (cases "size_of v = SIZE_MAX \<or> size_of v < 4")
  case True
  with assms show ?thesis
    by (auto simp: rmw_serialize_def serialized_at_def ros_message_at_def fun_upd_idem intro: exI [of _ m])
next
  case False
  then have "\<not> unat (size_of v) < 4" by (simp add: word_less_nat_alt)
  then show ?thesis
    using serialize_into_outcome [OF assms(1,2) resolve_complete [OF assms(6)] assms(7), of E v "unat (size_of v)"]
      assms False
    by (auto simp: rmw_serialize_def serialized_at_def ros_message_at_def serialize_outcome_def
      elim!: post_mono intro: exI)
qed

definition buffer_world :: world where
  "buffer_world = small_world\<lparr>heap := (heap small_world)(10 \<mapsto> RosMessage 42, 11 \<mapsto> RosMessage 0,
     12 \<mapsto> SerializedMessage \<lparr>buffer = [], buffer_length = 0, buffer_null = True, allocator_valid = True\<rparr>)\<rparr>"

definition empty_buffer :: serialized_message where
  "empty_buffer = \<lparr>buffer = [], buffer_length = 0, buffer_null = True, allocator_valid = True\<rparr>"

lemma buffer_world_simps:
  "heap buffer_world 12 = Some (SerializedMessage empty_buffer)" "heap buffer_world 10 = Some (RosMessage 42)"
  "heap buffer_world 11 = Some (RosMessage 0)" "valid_serialized_message empty_buffer"
  by (simp_all add: buffer_world_def empty_buffer_def valid_serialized_message_def buffer_capacity_def)

lemma byte_callbacks_simps:
  "serialized_size_fn byte_callbacks = Some (\<lambda>_. 5)" "bounded_writer byte_callbacks"
  by (auto simp: byte_callbacks_def bounded_writer_def)

theorem rmw_serialize_effect_witness:
  "post (rmw_serialize all_succeed 10 (Some (message_handle byte_callbacks)) 12 buffer_world) (\<lambda>(ret, w'). \<exists>m'.
    heap w' = (heap buffer_world)(12 \<mapsto> SerializedMessage m') \<and> valid_serialized_message m' \<and>
    buffer_capacity empty_buffer \<le> buffer_capacity m' \<and>
    (ret \<noteq> RMW_RET_OK \<longrightarrow> buffer_length m' = buffer_length empty_buffer) \<and>
    (ret = RMW_RET_OK \<longrightarrow> 4 \<le> buffer_length m' \<and> buffer_length m' = unat (5 :: size_t) \<and>
      (\<exists>f. serialize_fn byte_callbacks = Some f \<and>
        f 42 (Some (buffer_capacity m')) = (True, take (buffer_length m') (buffer m')))))"
  by (rule rmw_serialize_effect [OF buffer_world_simps(1,4) _ buffer_world_simps(2) _
        resolve_message_handle [OF complete_byte_callbacks] byte_callbacks_simps(2,1)]) simp_all

text \<open>What the generated code promises: a message that was written is read back.\<close>

definition reads_back :: "env \<Rightarrow> message_callbacks \<Rightarrow> ros_value \<Rightarrow> bool" where
  "reads_back E cb v \<longleftrightarrow> (\<forall>f g n bytes. serialize_fn cb = Some f \<and> deserialize_fn cb = Some g \<and>
     f v (Some n) = (True, bytes) \<longrightarrow> cdr_readable E bytes \<and> (\<forall>v0. g bytes v0 = (True, v)))"

text \<open>
  C22. Serialising and deserialising round trips: if \<^verbatim>\<open>rmw_serialize\<close> succeeds, \<^verbatim>\<open>rmw_deserialize\<close> of the
  buffer into another message with the same type support succeeds and gives the original value,
  whatever was in that message and in the buffer before.
\<close>

theorem serialize_deserialize:
  assumes "heap w out = Some (SerializedMessage m)" "valid_serialized_message m" "out \<noteq> nullptr"
    and "heap w ros = Some (RosMessage v)" "ros \<noteq> nullptr"
    and "heap w target = Some (RosMessage v0)" "target \<noteq> nullptr"
    and "resolve_message_type_support ts = Some cb" "bounded_writer cb" "reads_back E cb v"
  shows "post (rmw_serialize E ros ts out w) (\<lambda>(ret, w1). ret = RMW_RET_OK \<longrightarrow>
    post (rmw_deserialize E out ts target w1) (\<lambda>(ret, w2).
      ret = RMW_RET_OK \<and> heap w2 target = Some (RosMessage v)))"
proof -
  obtain f g size_of where fns: "serialize_fn cb = Some f" "deserialize_fn cb = Some g"
      "serialized_size_fn cb = Some size_of"
    using resolve_complete [OF assms(8)] by (auto simp: complete_callbacks_def)
  have "target \<noteq> out" using assms(1,6) by auto
  then show ?thesis
    by (intro post_mono [OF rmw_serialize_effect [OF assms(1-5,8,9) fns(3), of E]])
       (use assms(3,6,7,8,10) fns in \<open>auto simp: rmw_deserialize_def read_message_def serialized_at_def
          ros_message_at_def reads_back_def\<close>)
qed

lemma byte_reads_back: "v < 256 \<Longrightarrow> reads_back all_succeed byte_callbacks v"
  by (auto simp: reads_back_def byte_callbacks_def all_succeed_def unat_of_nat split: if_splits)

theorem serialize_deserialize_witness:
  "post (rmw_serialize all_succeed 10 (Some (message_handle byte_callbacks)) 12 buffer_world) (\<lambda>(ret, w1).
    ret = RMW_RET_OK \<longrightarrow>
    post (rmw_deserialize all_succeed 12 (Some (message_handle byte_callbacks)) 11 w1) (\<lambda>(ret, w2).
      ret = RMW_RET_OK \<and> heap w2 11 = Some (RosMessage 42)))"
  by (rule serialize_deserialize [OF buffer_world_simps(1,4) _ buffer_world_simps(2) _ buffer_world_simps(3) _
        resolve_message_handle [OF complete_byte_callbacks] byte_callbacks_simps(2) byte_reads_back]) simp_all

end
