(* ===== verification/Endpoints.thy ===== *)
theory Endpoints
  imports Type_Support
begin

text \<open>
  What publishers and subscriptions share in \<^verbatim>\<open>rmw_data_plane.cpp\<close>: checking the node, the topic name
  and the handle, the GUIDs of endpoints, the QoS object with the type hash in its user data, and
  the releases that end both lives.
\<close>

section \<open>Checks\<close>

definition valid_node :: "ptr \<Rightarrow> world \<Rightarrow> bool option" where
  "valid_node node w =
     (if node = nullptr then Some False
      else do {
        h \<leftarrow> node_handle_at node w;
        if node_identifier h \<noteq> ZzddsIdentifier \<or> node_data h = nullptr \<or> node_context h = nullptr
        then Some False
        else do {
          ctx \<leftarrow> context_at (node_context h) w;
          Some (context_impl_ptr ctx \<noteq> nullptr) } })"

definition validate_topic :: "env \<Rightarrow> string option \<Rightarrow> bool \<Rightarrow> world \<Rightarrow> bool \<times> world" where
  "validate_topic E topic_name native w =
     (case topic_name of
        None \<Rightarrow> (False, w)
      | Some name \<Rightarrow>
          if name = '''' then (False, w)
          else if native then (True, w)
          else call_ok E (ValidateTopicName name) w)"

definition validate_publisher :: "ptr \<Rightarrow> world \<Rightarrow> rmw_ret option" where
  "validate_publisher publisher w =
     (if publisher = nullptr then Some RMW_RET_INVALID_ARGUMENT
      else do {
        h \<leftarrow> publisher_at publisher w;
        Some (if handle_data h = nullptr then RMW_RET_INVALID_ARGUMENT
              else if handle_identifier h \<noteq> ZzddsIdentifier then RMW_RET_INCORRECT_RMW_IMPLEMENTATION
              else RMW_RET_OK) })"

definition validate_subscription :: "ptr \<Rightarrow> world \<Rightarrow> rmw_ret option" where
  "validate_subscription subscription w =
     (if subscription = nullptr then Some RMW_RET_INVALID_ARGUMENT
      else do {
        h \<leftarrow> subscription_at subscription w;
        Some (if handle_data h = nullptr then RMW_RET_INVALID_ARGUMENT
              else if handle_identifier h \<noteq> ZzddsIdentifier then RMW_RET_INCORRECT_RMW_IMPLEMENTATION
              else RMW_RET_OK) })"

section \<open>GUIDs\<close>

text \<open>
  A GID is the implementation's identifier and storage at least as long as an RTPS GUID, which
  \<open>*gid = {}\<close> fills with zeros before the 16 bytes are copied in.
\<close>

record rmw_gid =
  gid_identifier :: impl_id
  gid_data :: "uint8 list"

definition gid_of :: "env \<Rightarrow> guid \<Rightarrow> rmw_gid" where
  "gid_of E g = \<lparr>gid_identifier = ZzddsIdentifier, gid_data = g @ replicate (gid_padding E) 0\<rparr>"

definition guid_from_writer :: "env \<Rightarrow> ptr \<Rightarrow> world \<Rightarrow> guid option \<times> world" where
  "guid_from_writer E writer w = call_guid E (WriterGuid writer) w"

definition guid_from_reader :: "env \<Rightarrow> ptr \<Rightarrow> world \<Rightarrow> guid option \<times> world" where
  "guid_from_reader E reader w = call_guid E (ReaderGuid reader) w"

definition guid_from_publication :: "env \<Rightarrow> ptr \<Rightarrow> instance_handle \<Rightarrow> world \<Rightarrow> guid option \<times> world" where
  "guid_from_publication E reader handle w = call_guid E (PublicationGuid reader handle) w"

definition rmw_compare_gids_equal :: "rmw_gid option \<Rightarrow> rmw_gid option \<Rightarrow> bool \<Rightarrow> rmw_ret \<times> bool option" where
  "rmw_compare_gids_equal gid1 gid2 has_result =
     (case (gid1, gid2) of
        (Some a, Some b) \<Rightarrow>
          if \<not> has_result then (RMW_RET_INVALID_ARGUMENT, None)
          else if gid_identifier a \<noteq> ZzddsIdentifier \<or> gid_identifier b \<noteq> ZzddsIdentifier
          then (RMW_RET_INCORRECT_RMW_IMPLEMENTATION, None)
          else (RMW_RET_OK, Some (gid_data a = gid_data b))
      | _ \<Rightarrow> (RMW_RET_INVALID_ARGUMENT, None))"

section \<open>The QoS object of an endpoint\<close>

text \<open>
  \<^verbatim>\<open>DDS_DataWriterQos_default\<close> and its reader counterpart fill a QoS object that
  \<^verbatim>\<open>..._free\<close> releases.
\<close>

definition init_qos :: "entity_kind \<Rightarrow> world \<Rightarrow> ptr \<times> world" where
  "init_qos kind w = hold kind w"

text \<open>
  The encoded type hash that goes into the user data, with the service type hash where client or
  service creation has set the override. \<open>Inl\<close>: encoding failed.
\<close>

definition attach_type_hash :: "env \<Rightarrow> type_hash \<Rightarrow> world \<Rightarrow> (rmw_ret + string) \<times> world" where
  "attach_type_hash E type_hash w =
     (let encoded = string_answer E (trace w) (EncodeTypeHash type_hash);
          (ret, w) = call_rmw E (EncodeTypeHash type_hash) w
      in if ret \<noteq> RMW_RET_OK then (Inl ret, w)
         else case service_hash_override w of
           None \<Rightarrow> (Inr encoded, w)
         | Some service_hash \<Rightarrow>
             let service = string_answer E (trace w) (EncodeServiceTypeHash service_hash);
                 (ret, w) = call_rmw E (EncodeServiceTypeHash service_hash) w
             in if ret \<noteq> RMW_RET_OK then (Inl ret, w) else (Inr (encoded @ service), w))"

section \<open>Releases\<close>

text \<open>\<^verbatim>\<open>cleanup_endpoint_events\<close>: the guard conditions of the array, in the order of the event types.\<close>

definition all_event_types :: "rmw_event_type list" where
  "all_event_types =
     [RMW_EVENT_LIVELINESS_CHANGED, RMW_EVENT_REQUESTED_DEADLINE_MISSED,
      RMW_EVENT_REQUESTED_QOS_INCOMPATIBLE, RMW_EVENT_MESSAGE_LOST, RMW_EVENT_SUBSCRIPTION_MATCHED,
      RMW_EVENT_LIVELINESS_LOST, RMW_EVENT_OFFERED_DEADLINE_MISSED,
      RMW_EVENT_OFFERED_QOS_INCOMPATIBLE, RMW_EVENT_PUBLICATION_MATCHED]"

fun destroy_guards :: "ptr list \<Rightarrow> world \<Rightarrow> world option" where
  "destroy_guards [] w = Some w"
| "destroy_guards (g # gs) w = do {
     w \<leftarrow> (if g \<noteq> nullptr then destroy GuardConditionEntity g w else Some w);
     destroy_guards gs w }"

definition cleanup_endpoint_events :: "(rmw_event_type \<Rightarrow> ptr) \<Rightarrow> world \<Rightarrow> world option" where
  "cleanup_endpoint_events guards w = destroy_guards (map guards all_event_types) w"

text \<open>
  The loop that destroys the messages still on loan, whose order is unspecified: all of them must
  exist, and none does afterwards.
\<close>

definition destroy_loans :: "ptr set \<Rightarrow> world \<Rightarrow> world option" where
  "destroy_loans messages w =
     (if \<forall>p \<in> messages. heap w p \<noteq> None
      then Some (w\<lparr>heap := \<lambda>p. if p \<in> messages then None else heap w p\<rparr>)
      else None)"

section \<open>Rules\<close>

lemma given_init_qos [step]:
  assumes "\<And>q w'. q \<noteq> nullptr \<Longrightarrow> given h e (Entity kind q # rs) w' (f q w') Q"
  shows "given h e rs w (let (q, w') = init_qos kind w in f q w') Q"
  unfolding init_qos_def by (intro step assms)

lemma given_validate_topic [step]:
  assumes "\<And>w'. topic_name \<noteq> None \<Longrightarrow> topic_name \<noteq> Some '''' \<Longrightarrow> given h e rs w' (f True w') Q"
    and "\<And>w'. given h e rs w' (f False w') Q"
  shows "given h e rs w (let (b, w') = validate_topic E topic_name native w in f b w') Q"
  using assms
  by (cases "ok E (trace w) (ValidateTopicName (the topic_name))")
     (auto simp: validate_topic_def call_ok_def given_def split: option.splits)

lemma given_guids [step]:
  "(\<And>t r w'. r = guid_answer E t (WriterGuid p) \<Longrightarrow> given h e rs w' (f r w') Q) \<Longrightarrow>
   given h e rs w (let (r, w') = guid_from_writer E p w in f r w') Q"
  "(\<And>t r w'. r = guid_answer E t (ReaderGuid p) \<Longrightarrow> given h e rs w' (f r w') Q) \<Longrightarrow>
   given h e rs w (let (r, w') = guid_from_reader E p w in f r w') Q"
  unfolding guid_from_writer_def guid_from_reader_def by (rule given_call_guid; blast)+

lemma ledger_same_state:
  "heap w' = heap w \<Longrightarrow> next_ptr w' = next_ptr w \<Longrightarrow> entities w' = entities w \<Longrightarrow>
   ledger h e rs w' \<longleftrightarrow> ledger h e rs w"
  by (simp add: ledger_def wf_world_def)

lemma attach_type_hash_frame [simp]:
  "heap (snd (attach_type_hash E hash w)) = heap w"
  "next_ptr (snd (attach_type_hash E hash w)) = next_ptr w"
  "entities (snd (attach_type_hash E hash w)) = entities w"
  by (simp_all add: attach_type_hash_def call_rmw_def Let_def split: option.split)

lemma given_attach_type_hash [step]:
  assumes "\<And>r w'. given h e rs w' (f r w') Q"
  shows "given h e rs w (let (r, w') = attach_type_hash E hash w in f r w') Q"
  using assms by (simp add: given_def split_beta ledger_same_state [of "snd (attach_type_hash E hash w)" w])

lemma given_case_sum [step]:
  "(\<And>a. x = Inl a \<Longrightarrow> given h e rs w (f a) Q) \<Longrightarrow> (\<And>b. x = Inr b \<Longrightarrow> given h e rs w (g b) Q) \<Longrightarrow>
   given h e rs w (case x of Inl a \<Rightarrow> f a | Inr b \<Rightarrow> g b) Q"
  by (cases x) simp_all

lemma given_type_name [step]:
  assumes "\<exists>type. type_name cb = Some type" "\<And>type. type_name cb = Some type \<Longrightarrow> given h e rs w (f type) Q"
  shows "given h e rs w (Option.bind (type_name cb) f) Q"
  using assms by auto

lemma given_apply_qos [step]:
  assumes "\<And>b q. given h e rs w (f b q) Q"
  shows "given h e rs w (let (b, q) = apply_qos profile q0 in f b q) Q"
  using assms by (simp add: split_beta)

lemma cleanup_no_events: "cleanup_endpoint_events (\<lambda>_. nullptr) w = Some w"
  by (simp add: cleanup_endpoint_events_def all_event_types_def)

lemma destroy_no_loans: "destroy_loans {} w = Some w"
  by (simp add: destroy_loans_def)

text \<open>A node a creating operation is called with.\<close>

definition live_node :: "ptr \<Rightarrow> node_handle \<Rightarrow> ptr \<Rightarrow> ptr \<Rightarrow> context_impl \<Rightarrow> world \<Rightarrow> bool" where
  "live_node node nh context ci c w \<longleftrightarrow> live_context context ci c w \<and> node \<noteq> nullptr \<and>
     heap w node = Some (NodeHandle nh) \<and> node_identifier nh = ZzddsIdentifier \<and>
     node_context nh = context \<and> node_data nh \<noteq> nullptr \<and>
     heap w (node_data nh) = Some (NodeImpl context) \<and>
     (\<exists>name. heap w (node_name nh) = Some (CString name)) \<and>
     (\<exists>namespace. heap w (node_namespace nh) = Some (CString namespace))"

lemma live_nodeD:
  assumes "live_node node nh context ci c w"
  shows "live_context context ci c w" "node \<noteq> nullptr" "heap w node = Some (NodeHandle nh)"
    "node_identifier nh = ZzddsIdentifier" "node_context nh = context" "node_data nh \<noteq> nullptr"
    "heap w (node_data nh) = Some (NodeImpl context)"
    "\<exists>name. heap w (node_name nh) = Some (CString name)"
    "\<exists>namespace. heap w (node_namespace nh) = Some (CString namespace)"
  using assms by (auto simp: live_node_def)

lemma given_valid_node [step]:
  assumes "\<exists>nh ctx. node \<noteq> nullptr \<and> h node = Some (NodeHandle nh) \<and> node_identifier nh = ZzddsIdentifier \<and>
      node_data nh \<noteq> nullptr \<and> node_context nh \<noteq> nullptr \<and>
      h (node_context nh) = Some (Context ctx) \<and> context_impl_ptr ctx \<noteq> nullptr"
    and "given h e rs w (f True) Q"
  shows "given h e rs w (Option.bind (valid_node node w) f) Q"
  using assms
  by (auto simp: given_def valid_node_def node_handle_at_def context_at_def ledger_same [of h e rs w])

text \<open>An example node: the world of \<^const>\<open>small_world\<close> with a node handle at address 3.\<close>

definition example_node :: node_handle where
  "example_node = \<lparr>node_identifier = ZzddsIdentifier, node_data = 4, node_name = 5, node_namespace = 6,
     node_context = 1\<rparr>"

definition node_world :: world where
  "node_world = small_world\<lparr>heap := (heap small_world)(3 \<mapsto> NodeHandle example_node, 4 \<mapsto> NodeImpl 1,
     5 \<mapsto> CString ''talker'', 6 \<mapsto> CString ''/demo'')\<rparr>"

definition byte_topic :: message_ts where
  "byte_topic = MessageTs (Some zzdds_cpp) (Some byte_callbacks) None (Some 9)"

lemma node_world_live: "live_node 3 example_node 1 2 empty_context node_world"
  by (simp add: live_node_def live_context_def wf_world_def node_world_def small_world_def example_node_def)

end
