(* ===== verification/Publisher.thy ===== *)
theory Publisher
  imports Endpoints
begin

text \<open>
  The publisher half of \<^verbatim>\<open>rmw_data_plane.cpp\<close>: creating and destroying a publisher, writing messages,
  loans, acknowledgment waits and the queries on its handle.
\<close>

section \<open>Creating a publisher\<close>

text \<open>\<open>require_unique\<close>: \<^verbatim>\<open>RMW_UNIQUE_NETWORK_FLOW_ENDPOINTS_STRICTLY_REQUIRED\<close>.\<close>

record publisher_options =
  require_unique :: bool

definition default_publisher_options :: publisher_options where
  "default_publisher_options = \<lparr>require_unique = False\<rparr>"

text \<open>The constructor of \<^verbatim>\<open>PublisherImpl\<close>: the event arrays, statuses and GUID start as zeros.\<close>

definition new_publisher_impl ::
  "ptr \<Rightarrow> ptr \<Rightarrow> ptr \<Rightarrow> ptr \<Rightarrow> message_callbacks \<Rightarrow> type_hash \<Rightarrow> rmw_qos_profile \<Rightarrow> publisher_impl" where
  "new_publisher_impl context node topic writer callbacks hash qos =
     \<lparr>event_guards = (\<lambda>_. nullptr), event_callbacks = (\<lambda>_. nullptr), event_user_data = (\<lambda>_. nullptr),
      event_count = (\<lambda>_. 0), event_reported = (\<lambda>_. 0),
      publication_matched = zero_publication_matched, liveliness_lost = zero_count,
      offered_deadline_missed = zero_deadline, offered_incompatible_qos = zero_incompatible_qos,
      pub_context = context, pub_node = node, pub_topic = topic, pub_writer = writer,
      pub_callbacks = callbacks, pub_type_hash = hash, pub_qos = qos, rtps_guid = replicate 16 0,
      pub_loaned = {}, pub_is_service_endpoint = False\<rparr>"

definition null_handle :: endpoint_handle where
  "null_handle = \<lparr>handle_identifier = NullIdentifier, handle_data = nullptr, handle_name = nullptr\<rparr>"

text \<open>
  The \<^verbatim>\<open>try\<close> block: the GUID and the handle are recorded, each of which may throw, and unless graph
  updates are suppressed the endpoint is added to the graph cache and announced. \<open>False\<close>: it threw.
\<close>

definition record_publication :: "guid \<Rightarrow> context_impl \<Rightarrow> context_impl" where
  "record_publication g c = c\<lparr>local_publication_guids := insert g (local_publication_guids c)\<rparr>"

definition insert_publisher :: "ptr \<Rightarrow> context_impl \<Rightarrow> context_impl" where
  "insert_publisher p c = c\<lparr>publishers := insert p (publishers c)\<rparr>"

definition erase_publisher :: "ptr \<Rightarrow> guid \<Rightarrow> context_impl \<Rightarrow> context_impl" where
  "erase_publisher p g c =
     c\<lparr>local_publication_guids := local_publication_guids c - {g}, publishers := publishers c - {p}\<rparr>"

definition register_publisher ::
  "env \<Rightarrow> ptr \<Rightarrow> ptr \<Rightarrow> ptr \<Rightarrow> guid \<Rightarrow> string \<Rightarrow> string \<Rightarrow> world \<Rightarrow> bool result" where
  "register_publisher E node ci handle g topic_name type w =
     (let (room, w) = call_ok E GrowContainer w
      in if \<not> room then Some (False, w)
      else do {
        w \<leftarrow> update_context (record_publication g) ci w;
        let (room, w) = call_ok E GrowContainer w;
        if \<not> room then Some (False, w)
        else do {
          w \<leftarrow> update_context (insert_publisher handle) ci w;
          c \<leftarrow> context_impl_at ci w;
          if suppress_graph_updates c then Some (True, w)
          else let (added, w) = call_ok E (AddEntity g topic_name type False) w
          in if \<not> added then Some (False, w)
          else do {
            nh \<leftarrow> node_handle_at node w;
            name \<leftarrow> c_string_at (node_name nh) w;
            namespace \<leftarrow> c_string_at (node_namespace nh) w;
            let (announced, w) = call_throwing E (AddEndpointGraph g name namespace False) w;
            case announced of
              None \<Rightarrow> Some (False, w)
            | Some ret \<Rightarrow>
                if ret \<noteq> RMW_RET_OK
                then let w = snd (call_rmw E (RemoveEntity g False) w) in Some (False, w)
                else do {
                  w \<leftarrow> notify_graph_change E ci w;
                  Some (True, w) } } } })"

text \<open>The releases of the three failures after the allocations.\<close>

definition release_publisher ::
  "env \<Rightarrow> ptr \<Rightarrow> ptr \<Rightarrow> ptr \<Rightarrow> ptr \<Rightarrow> ptr \<Rightarrow> world \<Rightarrow> world option" where
  "release_publisher E name_copy handle impl writer topic w = do {
     w \<leftarrow> free_if_not_null name_copy w;
     w \<leftarrow> deallocate_object handle w;
     w \<leftarrow> deallocate_object impl w;
     (_, w) \<leftarrow> delete E DataWriterEntity writer w;
     (_, w) \<leftarrow> delete E TopicEntity topic w;
     Some w }"

text \<open>
  From the writer on: the objects, the GUID and the registration. \<open>made\<close> is the implementation object
  the constructor builds.
\<close>

definition finish_publisher ::
  "env \<Rightarrow> ptr \<Rightarrow> ptr \<Rightarrow> string \<Rightarrow> string \<Rightarrow> publisher_impl \<Rightarrow> ptr \<Rightarrow> ptr \<Rightarrow> world \<Rightarrow> ptr result" where
  "finish_publisher E node ci topic_name dds_name made topic writer w =
     (let (impl, w) = allocate_object E (PublisherImpl made) w;
          (handle, w) = allocate_object E (PublisherHandle null_handle) w;
          (name_copy, w) = duplicate_string E topic_name w
      in if impl = nullptr \<or> handle = nullptr \<or> name_copy = nullptr
      then do {
        w \<leftarrow> release_publisher E name_copy handle impl writer topic w;
        Some (nullptr, w) }
      else let w = store handle (PublisherHandle \<lparr>handle_identifier = ZzddsIdentifier,
                     handle_data = impl, handle_name = name_copy\<rparr>) w;
               (answer, w) = guid_from_writer E writer w
      in case answer of
           None \<Rightarrow> do {
             w \<leftarrow> release_publisher E name_copy handle impl writer topic w;
             Some (nullptr, w) }
         | Some g \<Rightarrow>
             let w = store impl (PublisherImpl (made\<lparr>rtps_guid := g\<rparr>)) w
             in do {
               type \<leftarrow> type_name (pub_callbacks made);
               (registered, w) \<leftarrow> register_publisher E node ci handle g dds_name type w;
               if \<not> registered
               then do {
                 w \<leftarrow> update_context (erase_publisher handle g) ci w;
                 w \<leftarrow> release_publisher E name_copy handle impl writer topic w;
                 Some (nullptr, w) }
               else do {
                 w \<leftarrow> add_active 1 ci w;
                 Some (handle, w) } })"

text \<open>From the context lock on: the DDS entities. Their settings are the applied QoS and the hash.\<close>

definition build_publisher ::
  "env \<Rightarrow> ptr \<Rightarrow> ptr \<Rightarrow> string \<Rightarrow> string \<Rightarrow> message_callbacks \<Rightarrow> type_hash \<Rightarrow> rmw_qos_profile \<Rightarrow>
   world \<Rightarrow> ptr result" where
  "build_publisher E node ci topic_name dds_name callbacks hash qos w = do {
     c \<leftarrow> context_impl_at ci w;
     type \<leftarrow> type_name callbacks;
     if shutdown c then Some (nullptr, w)
     else let (registered, w) = call_ok E (RegisterTypeSupport type) w
     in if \<not> registered then Some (nullptr, w)
     else let (topic, w) = create E TopicEntity ([participant c], [dds_name, type], []) w
     in if topic = nullptr then Some (nullptr, w)
     else let (q, w) = init_qos WriterQos w;
              (supported, dds_qos) = apply_qos qos (default_writer_qos E)
     in if \<not> supported
     then do {
       w \<leftarrow> destroy WriterQos q w;
       (_, w) \<leftarrow> delete E TopicEntity topic w;
       Some (nullptr, w) }
     else let (encoded, w) = attach_type_hash E hash w
     in case encoded of
          Inl _ \<Rightarrow> do {
            w \<leftarrow> destroy WriterQos q w;
            (_, w) \<leftarrow> delete E TopicEntity topic w;
            Some (nullptr, w) }
        | Inr user_data \<Rightarrow>
            let (writer, w) = create E DataWriterEntity ([dds_publisher c, topic], [user_data], [dds_qos]) w
            in do {
              w \<leftarrow> destroy WriterQos q w;
              if writer = nullptr
              then do {
                (_, w) \<leftarrow> delete E TopicEntity topic w;
                Some (nullptr, w) }
              else finish_publisher E node ci topic_name dds_name
                     (new_publisher_impl ci node topic writer callbacks hash (resolved_qos qos dds_qos))
                     topic writer w } }"

definition rmw_create_publisher ::
  "env \<Rightarrow> ptr \<Rightarrow> message_ts option \<Rightarrow> string option \<Rightarrow> rmw_qos_profile option \<Rightarrow>
   publisher_options option \<Rightarrow> world \<Rightarrow> ptr result" where
  "rmw_create_publisher E node type_support topic_name qos options w = do {
     valid \<leftarrow> valid_node node w;
     if \<not> valid then Some (nullptr, w)
     else case (qos, options) of
       (Some qos, Some options) \<Rightarrow>
         (let (good, w) = validate_topic E topic_name (avoid_ros_namespace_conventions qos) w
          in if \<not> good then Some (nullptr, w)
          else if require_unique options then Some (nullptr, w)
          else case (topic_name, resolve_message_type_support type_support) of
            (Some topic_name, Some callbacks) \<Rightarrow>
              (case dds_topic_name topic_name (avoid_ros_namespace_conventions qos) of
                 None \<Rightarrow> Some (nullptr, w)
               | Some dds_name \<Rightarrow> do {
                   nh \<leftarrow> node_handle_at node w;
                   ctx \<leftarrow> context_at (node_context nh) w;
                   build_publisher E node (context_impl_ptr ctx) topic_name dds_name callbacks
                     (type_hash_of type_support) qos w })
          | _ \<Rightarrow> Some (nullptr, w))
     | _ \<Rightarrow> Some (nullptr, w) }"

section \<open>Destroying a publisher\<close>

definition remove_publisher_from_graph :: "env \<Rightarrow> ptr \<Rightarrow> node_handle \<Rightarrow> guid \<Rightarrow> world \<Rightarrow> world option" where
  "remove_publisher_from_graph E ci nh g w = do {
     c \<leftarrow> context_impl_at ci w;
     if suppress_graph_updates c then Some w
     else do {
       name \<leftarrow> c_string_at (node_name nh) w;
       namespace \<leftarrow> c_string_at (node_namespace nh) w;
       let w = snd (call_rmw E (RemoveEndpointGraph g name namespace False) w);
       let w = snd (call_rmw E (RemoveEntity g False) w);
       notify_graph_change E ci w } }"

text \<open>After the checks: the handle leaves the context and the graph, and everything is released.\<close>

definition teardown_publisher ::
  "env \<Rightarrow> node_handle \<Rightarrow> ptr \<Rightarrow> endpoint_handle \<Rightarrow> publisher_impl \<Rightarrow> world \<Rightarrow> rmw_ret result" where
  "teardown_publisher E nh publisher p impl w = do {
     w \<leftarrow> update_context (erase_publisher publisher (rtps_guid impl)) (pub_context impl) w;
     w \<leftarrow> remove_publisher_from_graph E (pub_context impl) nh (rtps_guid impl) w;
     let w = snd (call_dds E (ClearListener (pub_writer impl)) w);
     w \<leftarrow> cleanup_endpoint_events (event_guards impl) w;
     w \<leftarrow> destroy_loans (pub_loaned impl) w;
     (writer_ret, w) \<leftarrow> delete E DataWriterEntity (pub_writer impl) w;
     (topic_ret, w) \<leftarrow> delete E TopicEntity (pub_topic impl) w;
     w \<leftarrow> deallocate (handle_name p) w;
     w \<leftarrow> deallocate_object (handle_data p) w;
     w \<leftarrow> deallocate_object publisher w;
     w \<leftarrow> add_active (- 1) (pub_context impl) w;
     Some (if writer_ret = DDS_RETCODE_OK \<and> topic_ret = DDS_RETCODE_OK
           then RMW_RET_OK else RMW_RET_ERROR, w) }"

definition rmw_destroy_publisher :: "env \<Rightarrow> ptr \<Rightarrow> ptr \<Rightarrow> world \<Rightarrow> rmw_ret result" where
  "rmw_destroy_publisher E node publisher w =
     (if node = nullptr \<or> publisher = nullptr then Some (RMW_RET_INVALID_ARGUMENT, w)
      else do {
        p \<leftarrow> publisher_at publisher w;
        if handle_data p = nullptr then Some (RMW_RET_INVALID_ARGUMENT, w)
        else do {
          nh \<leftarrow> node_handle_at node w;
          if node_identifier nh \<noteq> ZzddsIdentifier then Some (RMW_RET_INCORRECT_RMW_IMPLEMENTATION, w)
          else do {
            valid \<leftarrow> valid_node node w;
            if \<not> valid then Some (RMW_RET_INVALID_ARGUMENT, w)
            else if handle_identifier p \<noteq> ZzddsIdentifier
            then Some (RMW_RET_INCORRECT_RMW_IMPLEMENTATION, w)
            else do {
              impl \<leftarrow> publisher_impl_at (handle_data p) w;
              creator \<leftarrow> node_impl_at (node_data nh) w;
              ctx \<leftarrow> context_at (node_context nh) w;
              if creator \<noteq> node_context nh \<or> pub_context impl \<noteq> context_impl_ptr ctx
              then Some (RMW_RET_INVALID_ARGUMENT, w)
              else teardown_publisher E nh publisher p impl w } } } })"

section \<open>The life of a publisher\<close>

definition with_publisher :: "ptr \<Rightarrow> guid \<Rightarrow> context_impl \<Rightarrow> context_impl" where
  "with_publisher p g c =
     c\<lparr>local_publication_guids := insert g (local_publication_guids c),
       publishers := insert p (publishers c), active_entities := active_entities c + 1\<rparr>"

definition publisher_created ::
  "ptr \<Rightarrow> ptr \<Rightarrow> context_impl \<Rightarrow> (ptr \<Rightarrow> object option) \<Rightarrow> (entity_kind \<times> ptr) multiset \<Rightarrow> ptr \<Rightarrow> world \<Rightarrow> bool"
  where
  "publisher_created node ci c h e p w \<longleftrightarrow> (\<exists>name_copy impl writer topic g i topic_name.
     p \<noteq> nullptr \<and> name_copy \<noteq> nullptr \<and> impl \<noteq> nullptr \<and> writer \<noteq> nullptr \<and> topic \<noteq> nullptr \<and>
     g \<notin> local_publication_guids c \<and>
     event_guards i = (\<lambda>_. nullptr) \<and> pub_loaned i = {} \<and> pub_context i = ci \<and> pub_writer i = writer \<and>
     complete_callbacks (pub_callbacks i) \<and> pub_topic i = topic \<and> rtps_guid i = g \<and> pub_node i = node \<and>
     ledger (h(ci \<mapsto> ContextImpl (with_publisher p g c))) e
       [Memory name_copy (CString topic_name),
        Memory p (PublisherHandle \<lparr>handle_identifier = ZzddsIdentifier, handle_data = impl,
                                    handle_name = name_copy\<rparr>),
        Memory impl (PublisherImpl i), Entity DataWriterEntity writer, Entity TopicEntity topic] w)"

text \<open>zzdds gives every writer a GUID of its own.\<close>

definition new_guids :: "env \<Rightarrow> guid set \<Rightarrow> bool" where
  "new_guids E gs \<longleftrightarrow> (\<forall>t p g. guid_answer E t (WriterGuid p) = Some g \<longrightarrow> g \<notin> gs)"

definition publisher_ready :: "env \<Rightarrow> ptr \<Rightarrow> node_handle \<Rightarrow> ptr \<Rightarrow> ptr \<Rightarrow> context_impl \<Rightarrow> world \<Rightarrow> bool" where
  "publisher_ready E node nh context ci c w \<longleftrightarrow> live_node node nh context ci c w \<and> deletes_succeed E \<and>
     new_guids E (local_publication_guids c) \<and> (\<forall>p \<in> publishers c. heap w p \<noteq> None)"

lemma given_release_publisher [step]:
  assumes "deletes_succeed E" "writer \<noteq> nullptr" "topic \<noteq> nullptr" "\<And>w'. given h e rs w' (f w') Q"
  shows "given h e (Memory name_copy a # Memory handle b # Memory impl c #
      Entity DataWriterEntity writer # Entity TopicEntity topic # rs) w
    (Option.bind (release_publisher E name_copy handle impl writer topic w) f) Q"
  unfolding release_publisher_def by (intro step assms)

lemma registered_publisher_simps [simp]:
  "suppress_graph_updates (insert_publisher p c) = suppress_graph_updates c"
  "suppress_graph_updates (record_publication g c) = suppress_graph_updates c"
  "(insert_publisher p (record_publication g c))\<lparr>active_entities :=
     active_entities (insert_publisher p (record_publication g c)) + 1\<rparr> = with_publisher p g c"
  by (simp_all add: insert_publisher_def record_publication_def with_publisher_def)

lemma erase_registered_publisher [simp]:
  assumes "p \<notin> publishers c" "g \<notin> local_publication_guids c"
  shows "erase_publisher p g (insert_publisher p (record_publication g c)) = c"
    "erase_publisher p g (record_publication g c) = c" "erase_publisher p g c = c"
  using assms by (simp_all add: insert_publisher_def record_publication_def erase_publisher_def)

lemma new_publisher_impl_simps [simp]:
  "pub_callbacks (new_publisher_impl context node topic writer callbacks hash qos) = callbacks"
  by (simp add: new_publisher_impl_def)

lemma publisher_createdI:
  assumes "ledger (h(ci \<mapsto> ContextImpl (with_publisher p g c))) e
       [Memory name_copy (CString topic_name),
        Memory p (PublisherHandle \<lparr>handle_identifier = ZzddsIdentifier, handle_data = impl,
                                    handle_name = name_copy\<rparr>),
        Memory impl (PublisherImpl ((new_publisher_impl ci node topic writer callbacks hash qos)\<lparr>rtps_guid := g\<rparr>)),
        Entity DataWriterEntity writer, Entity TopicEntity topic] w"
    and "p \<noteq> nullptr" "name_copy \<noteq> nullptr" "impl \<noteq> nullptr" "writer \<noteq> nullptr" "topic \<noteq> nullptr"
    and "g \<notin> local_publication_guids c" "complete_callbacks callbacks"
  shows "publisher_created node ci c h e p w"
proof -
  let ?i = "(new_publisher_impl ci node topic writer callbacks hash qos)\<lparr>rtps_guid := g\<rparr>"
  have "event_guards ?i = (\<lambda>_. nullptr)" "pub_loaned ?i = {}" "pub_context ?i = ci" "pub_writer ?i = writer"
    "pub_topic ?i = topic" "rtps_guid ?i = g" "pub_node ?i = node" "pub_callbacks ?i = callbacks"
    by (simp_all add: new_publisher_impl_def)
  with assms show ?thesis
    unfolding publisher_created_def
    by (intro exI [of _ name_copy] exI [of _ impl] exI [of _ writer] exI [of _ topic] exI [of _ g]
        exI [of _ ?i] exI [of _ topic_name] conjI) simp_all
qed

text \<open>
  The registration as one step: it may leave the context in any of three states, from each of which
  erasing the publisher gives back the context it found.
\<close>

lemma given_register_publisher [step]:
  assumes "\<exists>c. h ci = Some (ContextImpl c) \<and> p \<notin> publishers c \<and> g \<notin> local_publication_guids c"
    and "\<exists>nh name namespace. h node = Some (NodeHandle nh) \<and> h (node_name nh) = Some (CString name) \<and>
      h (node_namespace nh) = Some (CString namespace)"
    and "\<And>c w'. Some (ContextImpl c) = h ci \<Longrightarrow>
      given (h(ci \<mapsto> ContextImpl (insert_publisher p (record_publication g c)))) e rs w' (f (True, w')) Q"
    and "\<And>c c' w'. Some (ContextImpl c) = h ci \<Longrightarrow> erase_publisher p g c' = c \<Longrightarrow>
      given (h(ci \<mapsto> ContextImpl c')) e rs w' (f (False, w')) Q"
  shows "given h e rs w (Option.bind (register_publisher E node ci p g topic_name type w) f) Q"
proof -
  obtain c nh name namespace where c: "h ci = Some (ContextImpl c)" "p \<notin> publishers c"
      "g \<notin> local_publication_guids c" "h node = Some (NodeHandle nh)"
      "h (node_name nh) = Some (CString name)" "h (node_namespace nh) = Some (CString namespace)"
    using assms(1,2) by blast
  have "node \<noteq> ci" "node_name nh \<noteq> ci" "node_namespace nh \<noteq> ci" using c by auto
  moreover have "given h e rs w' (f (False, w')) Q" for w'
    using assms(4) [of c c] c by (simp add: fun_upd_idem)
  moreover note assms(3) [of c] assms(4) [of c "record_publication g c"]
    assms(4) [of c "insert_publisher p (record_publication g c)"]
  ultimately show ?thesis
    unfolding register_publisher_def
    using c by (intro step) simp_all
qed

lemma create_publisher_outcome:
  assumes "publisher_ready E node nh context ci c w"
  shows "post (rmw_create_publisher E node ts topic_name qos options w) (\<lambda>(p, w').
    if p = nullptr then ledger (heap w) (entities w) [] w'
    else publisher_created node ci c (heap w) (entities w) p w')"
proof -
  have N: "live_node node nh context ci c w" and E: "deletes_succeed E"
    and G: "\<And>t p g. Some g = guid_answer E t (WriterGuid p) \<Longrightarrow> g \<notin> local_publication_guids c"
    and P: "\<And>p. heap w p = None \<Longrightarrow> p \<notin> publishers c"
    using assms(1) by (auto simp: publisher_ready_def new_guids_def dest: sym)
  note N = live_nodeD [OF N] note L = live_contextD [OF N(1)]
  obtain x where ch: "heap w context =
      Some (Context \<lparr>context_identifier = ZzddsIdentifier, context_impl_ptr = ci, settings = x\<rparr>)"
    using L(4) by blast
  show ?thesis
    unfolding rmw_create_publisher_def build_publisher_def finish_publisher_def
    apply (rule given_start [OF L(1)])
    using N(2-5,6,8,9) L(2,3,5) ch E
    apply (intro step)
    apply (simp_all add: fun_upd_idem resolve_type_name G P)
    apply (auto elim!: publisher_createdI simp: G P resolve_complete)
    done
qed

lemma erase_with_publisher:
  assumes "p \<notin> publishers c" "g \<notin> local_publication_guids c"
  shows "(erase_publisher p g (with_publisher p g c))\<lparr>active_entities :=
      active_entities (erase_publisher p g (with_publisher p g c)) - 1\<rparr> = c"
    "suppress_graph_updates (erase_publisher p g (with_publisher p g c)) = suppress_graph_updates c"
  using assms by (simp_all add: erase_publisher_def with_publisher_def)

lemma teardown_publisher_outcome:
  assumes "ledger (h(ci \<mapsto> ContextImpl (with_publisher p g c))) e
       [Memory name_copy (CString topic_name), Memory p handle, Memory impl x,
        Entity DataWriterEntity writer, Entity TopicEntity topic] w"
    and "name_copy \<noteq> nullptr" "writer \<noteq> nullptr" "topic \<noteq> nullptr" "deletes_succeed E"
    and "event_guards i = (\<lambda>_. nullptr)" "pub_loaned i = {}" "pub_context i = ci" "pub_writer i = writer"
      "pub_topic i = topic" "rtps_guid i = g"
    and "h ci = Some (ContextImpl c)" "p \<notin> publishers c" "g \<notin> local_publication_guids c"
    and "h (node_name nh) = Some (CString name)" "h (node_namespace nh) = Some (CString namespace)"
  shows "post (teardown_publisher E nh p \<lparr>handle_identifier = ident, handle_data = impl, handle_name = name_copy\<rparr> i w)
    (\<lambda>(ret, w'). ret = RMW_RET_OK \<and> ledger h e [] w')"
proof -
  have sep: "node_name nh \<noteq> ci" "node_namespace nh \<noteq> ci" using assms(12,15,16) by auto
  have "given (h(ci \<mapsto> ContextImpl (with_publisher p g c))) e
       [Memory name_copy (CString topic_name), Memory p handle, Memory impl x,
        Entity DataWriterEntity writer, Entity TopicEntity topic] w
    (teardown_publisher E nh p \<lparr>handle_identifier = ident, handle_data = impl, handle_name = name_copy\<rparr> i w)
    (\<lambda>(ret, w'). ret = RMW_RET_OK \<and> ledger h e [] w')"
    unfolding teardown_publisher_def remove_publisher_from_graph_def
    unfolding assms(6-11) cleanup_no_events destroy_no_loans endpoint_handle.select_convs
    using assms(2-5,12,15,16) sep
    apply (intro step)
    apply (simp_all add: fun_upd_idem erase_with_publisher assms(13,14))
    done
  with assms(1) show ?thesis by (simp add: given_def)
qed

lemma destroy_publisher_outcome:
  assumes "publisher_ready E node nh context ci c w0"
    and "publisher_created node ci c (heap w0) (entities w0) p w"
  shows "post (rmw_destroy_publisher E node p w) (\<lambda>(ret, w').
    ret = RMW_RET_OK \<and> ledger (heap w0) (entities w0) [] w')"
proof -
  have N: "live_node node nh context ci c w0" and E: "deletes_succeed E"
    and P: "\<And>p. heap w0 p = None \<Longrightarrow> p \<notin> publishers c"
    using assms(1) by (auto simp: publisher_ready_def)
  note N = live_nodeD [OF N] note L = live_contextD [OF N(1)]
  obtain x where ch: "heap w0 context =
      Some (Context \<lparr>context_identifier = ZzddsIdentifier, context_impl_ptr = ci, settings = x\<rparr>)"
    using L(4) by blast
  obtain name_copy impl writer topic g i topic_name where
    nz: "p \<noteq> nullptr" "name_copy \<noteq> nullptr" "impl \<noteq> nullptr" "writer \<noteq> nullptr" "topic \<noteq> nullptr"
    and g: "g \<notin> local_publication_guids c"
    and i: "event_guards i = (\<lambda>_. nullptr)" "pub_loaned i = {}" "pub_context i = ci" "pub_writer i = writer"
      "pub_topic i = topic" "rtps_guid i = g"
    and l: "ledger ((heap w0)(ci \<mapsto> ContextImpl (with_publisher p g c))) (entities w0)
       [Memory name_copy (CString topic_name),
        Memory p (PublisherHandle \<lparr>handle_identifier = ZzddsIdentifier, handle_data = impl,
                                    handle_name = name_copy\<rparr>),
        Memory impl (PublisherImpl i), Entity DataWriterEntity writer, Entity TopicEntity topic] w"
    using assms(2) unfolding publisher_created_def by blast
  obtain name namespace where names: "heap w0 (node_name nh) = Some (CString name)"
    "heap w0 (node_namespace nh) = Some (CString namespace)"
    using N(8,9) by blast
  have fresh: "heap w0 p = None"
    and hp: "heap w p = Some (PublisherHandle \<lparr>handle_identifier = ZzddsIdentifier, handle_data = impl,
                                    handle_name = name_copy\<rparr>)"
      "heap w impl = Some (PublisherImpl i)"
    using l nz by (auto simp: ledger_def split: if_splits)
  have old: "heap w q = heap w0 q" if "heap w0 q \<noteq> None" "q \<noteq> ci" for q
    using ledger_same [OF l, of q] that by simp
  have "rmw_destroy_publisher E node p w =
      teardown_publisher E nh p \<lparr>handle_identifier = ZzddsIdentifier, handle_data = impl, handle_name = name_copy\<rparr> i w"
  proof -
    have "node \<noteq> ci" "node_data nh \<noteq> ci" "context \<noteq> ci" using N L by auto
    then have "heap w context = heap w0 context" "heap w node = heap w0 node"
      "heap w (node_data nh) = heap w0 (node_data nh)"
      using old [of "context"] old [of node] old [of "node_data nh"] N L ch by simp_all
    then show ?thesis
      using N L ch hp nz i
      by (simp add: rmw_destroy_publisher_def valid_node_def publisher_at_def node_handle_at_def
        context_at_def publisher_impl_at_def node_impl_at_def)
  qed
  then show ?thesis
    using teardown_publisher_outcome [OF l nz(2,4,5) E i L(5) P [OF fresh] g names] by simp
qed

interpretation publisher_life: lifecycle "publisher_ready E node nh ctx ci c"
    "rmw_create_publisher E node ts topic_name qos options" "rmw_destroy_publisher E node"
    "publisher_created node ci c"
  for E node nh ctx ci c ts topic_name qos options
  by unfold_locales (rule create_publisher_outcome, assumption, rule destroy_publisher_outcome)

text \<open>
  C24. A publisher's life leaves nothing behind. Creating one from a valid node never has undefined
  behaviour, whatever its arguments are and whichever step fails: the topic, the writer, its QoS, the
  three allocations, the GUID, the registration. When it gives null, heap (the registries of the
  context included) and entities are what they were. Otherwise destroying the publisher succeeds and
  takes everything back, each object and each entity released once, if zzdds does not refuse to
  delete and gives a new writer a new GUID.
\<close>

theorem publisher_lifecycle:
  assumes "live_node node nh context ci c w" "\<forall>p \<in> publishers c. heap w p \<noteq> None"
    and "deletes_succeed E" "new_guids E (local_publication_guids c)"
  shows "post (rmw_create_publisher E node ts topic_name qos options w) (\<lambda>(p, w1).
    if p = nullptr then heap w1 = heap w \<and> entities w1 = entities w
    else post (rmw_destroy_publisher E node p w1) (\<lambda>(ret, w2).
      ret = RMW_RET_OK \<and> heap w2 = heap w \<and> entities w2 = entities w))"
  using assms by (intro publisher_life.restores) (simp add: publisher_ready_def)

theorem publisher_lifecycle_witness:
  "post (rmw_create_publisher all_succeed 3 (Some byte_topic) (Some ''/chatter'') (Some example_profile)
      (Some \<lparr>require_unique = False\<rparr>) node_world) (\<lambda>(p, w1).
    if p = nullptr then heap w1 = heap node_world \<and> entities w1 = entities node_world
    else post (rmw_destroy_publisher all_succeed 3 p w1) (\<lambda>(ret, w2).
      ret = RMW_RET_OK \<and> heap w2 = heap node_world \<and> entities w2 = entities node_world))"
  by (rule publisher_lifecycle [OF node_world_live])
     (simp_all add: empty_context_def deletes_succeed_def new_guids_def all_succeed_def)

end
