(* ===== verification/Event_Api.thy ===== *)
theory Event_Api
  imports Endpoints
begin

text \<open>
  The entry points of \<^verbatim>\<open>rmw_event.cpp\<close> on the world: initialising an event of a publisher or a
  subscription, taking an event, registering a callback, the matched-count queries and the calls
  zzdds makes on an endpoint's listener. Each follows the endpoint's pointer, asks zzdds for its
  statuses, runs the function of \<^theory_text>\<open>Events\<close> under the lock and performs its effects in order.
\<close>

section \<open>Effects on the world\<close>

text \<open>\<open>entity\<close> is the writer or reader a listener is installed on.\<close>

fun run_effect :: "env \<Rightarrow> ptr \<Rightarrow> effect \<Rightarrow> world \<Rightarrow> bool \<times> world" where
  "run_effect E entity (SetTrigger g b) w = (True, snd (call_dds E (SetTriggerValue g b) w))"
| "run_effect E entity (InvokeCallback f data n) w = (True, record_call (TellCallback f data n) w)"
| "run_effect E entity (SetWriterListener present kinds) w =
     (let (ret, w) = call_dds E (InstallWriterListener entity present kinds) w in (ret = DDS_RETCODE_OK, w))"
| "run_effect E entity (SetReaderListener kinds) w =
     (let (ret, w) = call_dds E (InstallReaderListener entity kinds) w in (ret = DDS_RETCODE_OK, w))"

text \<open>All of them in order, and whether each succeeded.\<close>

fun run_effects :: "env \<Rightarrow> ptr \<Rightarrow> effect list \<Rightarrow> world \<Rightarrow> bool \<times> world" where
  "run_effects E entity [] w = (True, w)"
| "run_effects E entity (x # xs) w =
     (let (first, w) = run_effect E entity x w; (rest, w) = run_effects E entity xs w
      in (first \<and> rest, w))"

definition writer_status_now :: "env \<Rightarrow> ptr \<Rightarrow> world \<Rightarrow> writer_status \<times> world" where
  "writer_status_now E writer w =
     (writer_status_answer E (trace w) writer, record_call (WriterStatus writer) w)"

definition reader_status_now :: "env \<Rightarrow> ptr \<Rightarrow> world \<Rightarrow> reader_status \<times> world" where
  "reader_status_now E reader w =
     (reader_status_answer E (trace w) reader, record_call (ReaderStatus reader) w)"

section \<open>Initialising an event\<close>

text \<open>
  What the two instances of the template share. \<open>impl_at\<close> and \<open>as_object\<close> are the endpoint's type,
  \<open>entity_of\<close> its writer or reader, \<open>listener\<close> the effects of \<^verbatim>\<open>apply_listener\<close>, \<open>status\<close> the status
  getters of zzdds.
\<close>

definition initialize_event_at ::
  "env \<Rightarrow> (ptr \<Rightarrow> world \<Rightarrow> 'a endpoint_scheme option) \<Rightarrow> ('a endpoint_scheme \<Rightarrow> object) \<Rightarrow>
   ('a endpoint_scheme \<Rightarrow> ptr) \<Rightarrow> ('a endpoint_scheme \<Rightarrow> effect list) \<Rightarrow> (ptr \<Rightarrow> world \<Rightarrow> 's \<times> world) \<Rightarrow>
   ('s \<Rightarrow> 'a endpoint_scheme \<Rightarrow> rmw_event_type \<Rightarrow> bool \<times> 'a endpoint_scheme) \<Rightarrow>
   ('a endpoint_scheme \<Rightarrow> rmw_event_type \<Rightarrow> size_t) \<Rightarrow> ptr \<Rightarrow> ptr \<Rightarrow> rmw_event_type \<Rightarrow> world \<Rightarrow>
   rmw_ret result" where
  "initialize_event_at E impl_at as_object entity_of listener status read untaken event data type w =
     (if event = nullptr then Some (RMW_RET_INVALID_ARGUMENT, w)
      else do {
        e \<leftarrow> event_at event w;
        if event_identifier e \<noteq> NullIdentifier \<or> event_data e \<noteq> nullptr \<or> event_type e \<noteq> RMW_EVENT_INVALID
        then Some (RMW_RET_INVALID_ARGUMENT, w)
        else if event_mask type = {} then Some (RMW_RET_UNSUPPORTED, w)
        else do {
          impl \<leftarrow> impl_at data w;
          let (created, w) = (if event_guards impl type = nullptr
                              then create E GuardConditionEntity plain w else (nullptr, w));
          let (present, impl) = init_guard created type impl;
          let w = store data (as_object impl) w;
          if \<not> present then Some (RMW_RET_BAD_ALLOC, w)
          else let (installed, w) = run_effects E (entity_of impl) (listener impl) w
          in if \<not> installed then Some (RMW_RET_ERROR, w)
          else let (now, w) = status (entity_of impl) w;
                   (impl, effects) = init_count (\<lambda>i. read now i type) untaken type impl;
                   w = store data (as_object impl) w;
                   (_, w) = run_effects E (entity_of impl) effects w
          in Some (RMW_RET_OK, store event (EventHandle \<lparr>event_identifier = ZzddsIdentifier,
                     event_data = data, event_type = type\<rparr>) w) } })"

definition rmw_publisher_event_init ::
  "env \<Rightarrow> ptr \<Rightarrow> ptr \<Rightarrow> rmw_event_type \<Rightarrow> world \<Rightarrow> rmw_ret result" where
  "rmw_publisher_event_init E event publisher type w =
     (if publisher = nullptr then Some (RMW_RET_INVALID_ARGUMENT, w)
      else do {
        h \<leftarrow> publisher_at publisher w;
        if handle_data h = nullptr then Some (RMW_RET_INVALID_ARGUMENT, w)
        else if handle_identifier h \<noteq> ZzddsIdentifier
        then Some (RMW_RET_INCORRECT_RMW_IMPLEMENTATION, w)
        else if \<not> publisher_event type then Some (RMW_RET_UNSUPPORTED, w)
        else initialize_event_at E publisher_impl_at PublisherImpl pub_writer apply_publisher_listener
          (writer_status_now E) publisher_read_status publisher_untaken event (handle_data h) type w })"

definition rmw_subscription_event_init ::
  "env \<Rightarrow> ptr \<Rightarrow> ptr \<Rightarrow> rmw_event_type \<Rightarrow> world \<Rightarrow> rmw_ret result" where
  "rmw_subscription_event_init E event subscription type w =
     (if subscription = nullptr then Some (RMW_RET_INVALID_ARGUMENT, w)
      else do {
        h \<leftarrow> subscription_at subscription w;
        if handle_data h = nullptr then Some (RMW_RET_INVALID_ARGUMENT, w)
        else if handle_identifier h \<noteq> ZzddsIdentifier
        then Some (RMW_RET_INCORRECT_RMW_IMPLEMENTATION, w)
        else if \<not> subscription_event type then Some (RMW_RET_UNSUPPORTED, w)
        else initialize_event_at E subscription_impl_at SubscriptionImpl sub_reader
          apply_subscription_listener (reader_status_now E) subscription_read_status
          subscription_untaken event (handle_data h) type w })"

section \<open>Taking an event\<close>

text \<open>
  The result: the return code, what is written to \<^verbatim>\<open>taken\<close> and to \<^verbatim>\<open>event_info\<close> (\<open>None\<close>: nothing).
  \<open>outputs\<close>: neither output pointer is null.
\<close>

definition rmw_take_event ::
  "dds_policy_ids \<Rightarrow> env \<Rightarrow> ptr \<Rightarrow> bool \<Rightarrow> world \<Rightarrow> (rmw_ret \<times> bool option \<times> event_info option) result" where
  "rmw_take_event ids E event outputs w =
     (if event = nullptr \<or> \<not> outputs then Some ((RMW_RET_INVALID_ARGUMENT, None, None), w)
      else do {
        e \<leftarrow> event_at event w;
        if event_data e = nullptr then Some ((RMW_RET_INVALID_ARGUMENT, None, None), w)
        else if event_identifier e \<noteq> ZzddsIdentifier
        then Some ((RMW_RET_INCORRECT_RMW_IMPLEMENTATION, None, None), w)
        else if publisher_event (event_type e)
        then do {
          impl \<leftarrow> publisher_impl_at (event_data e) w;
          let (now, w) = writer_status_now E (pub_writer impl) w;
          let (info, impl, effects) = publisher_take ids now (event_type e) impl;
          let w = store (event_data e) (PublisherImpl impl) w;
          let (_, w) = run_effects E (pub_writer impl) effects w;
          Some (if info = None then (RMW_RET_ERROR, Some False, None)
                else (RMW_RET_OK, Some True, info), w) }
        else if subscription_event (event_type e)
        then do {
          impl \<leftarrow> subscription_impl_at (event_data e) w;
          let (now, w) = reader_status_now E (sub_reader impl) w;
          let (info, impl, effects) = subscription_take ids now (event_type e) impl;
          let w = store (event_data e) (SubscriptionImpl impl) w;
          let (_, w) = run_effects E (sub_reader impl) effects w;
          Some (if info = None then (RMW_RET_ERROR, Some False, None)
                else (RMW_RET_OK, Some True, info), w) }
        else Some ((RMW_RET_UNSUPPORTED, Some False, None), w) })"

section \<open>Callbacks and listeners\<close>

definition rmw_event_set_callback :: "env \<Rightarrow> ptr \<Rightarrow> ptr \<Rightarrow> ptr \<Rightarrow> world \<Rightarrow> rmw_ret result" where
  "rmw_event_set_callback E event callback user_data w =
     (if event = nullptr then Some (RMW_RET_INVALID_ARGUMENT, w)
      else do {
        e \<leftarrow> event_at event w;
        if event_data e = nullptr then Some (RMW_RET_INVALID_ARGUMENT, w)
        else if event_identifier e \<noteq> ZzddsIdentifier
        then Some (RMW_RET_INCORRECT_RMW_IMPLEMENTATION, w)
        else if publisher_event (event_type e)
        then do {
          impl \<leftarrow> publisher_impl_at (event_data e) w;
          let (impl, effects) = set_callback (event_type e) callback user_data impl;
          let w = store (event_data e) (PublisherImpl impl) w;
          let (_, w) = run_effects E (pub_writer impl) effects w;
          Some (RMW_RET_OK, w) }
        else do {
          impl \<leftarrow> subscription_impl_at (event_data e) w;
          let (impl, effects) = set_callback (event_type e) callback user_data impl;
          let w = store (event_data e) (SubscriptionImpl impl) w;
          let (_, w) = run_effects E (sub_reader impl) effects w;
          Some (RMW_RET_OK, w) } })"

text \<open>zzdds calls an endpoint's listener with the implementation object it was installed with.\<close>

definition writer_listener_call :: "env \<Rightarrow> ptr \<Rightarrow> rmw_event_type \<Rightarrow> world \<Rightarrow> world option" where
  "writer_listener_call E p type w = do {
     impl \<leftarrow> publisher_impl_at p w;
     let (now, w) = writer_status_now E (pub_writer impl) w;
     let (impl, effects) = publisher_listener type now impl;
     let w = store p (PublisherImpl impl) w;
     Some (snd (run_effects E (pub_writer impl) effects w)) }"

definition reader_listener_call :: "env \<Rightarrow> ptr \<Rightarrow> rmw_event_type \<Rightarrow> world \<Rightarrow> world option" where
  "reader_listener_call E p type w = do {
     impl \<leftarrow> subscription_impl_at p w;
     let (now, w) = reader_status_now E (sub_reader impl) w;
     let (impl, effects) = subscription_listener type now impl;
     let w = store p (SubscriptionImpl impl) w;
     Some (snd (run_effects E (sub_reader impl) effects w)) }"

definition liveliness_listener_call ::
  "env \<Rightarrow> ptr \<Rightarrow> liveliness_changed_status \<Rightarrow> world \<Rightarrow> world option" where
  "liveliness_listener_call E p passed w = do {
     impl \<leftarrow> subscription_impl_at p w;
     let (now, w) = reader_status_now E (sub_reader impl) w;
     let (impl, effects) = liveliness_changed_listener passed now impl;
     let w = store p (SubscriptionImpl impl) w;
     Some (snd (run_effects E (sub_reader impl) effects w)) }"

definition ready_listener_call :: "ptr \<Rightarrow> bool \<Rightarrow> world \<Rightarrow> world option" where
  "ready_listener_call p is_ready w = do {
     impl \<leftarrow> subscription_impl_at p w;
     Some (store p (SubscriptionImpl (reliable_writer_ready_listener is_ready impl)) w) }"

section \<open>Matched counts\<close>

text \<open>\<open>count_output\<close>: the output pointer is not null. The second part is what is written to it.\<close>

definition rmw_publisher_count_matched_subscriptions ::
  "env \<Rightarrow> ptr \<Rightarrow> bool \<Rightarrow> world \<Rightarrow> (rmw_ret \<times> size_t option) result" where
  "rmw_publisher_count_matched_subscriptions E publisher count_output w = do {
     validation \<leftarrow> validate_publisher publisher w;
     if validation \<noteq> RMW_RET_OK then Some ((validation, None), w)
     else if \<not> count_output then Some ((RMW_RET_INVALID_ARGUMENT, None), w)
     else do {
       h \<leftarrow> publisher_at publisher w;
       impl \<leftarrow> publisher_impl_at (handle_data h) w;
       let (now, w) = writer_status_now E (pub_writer impl) w;
       let (matched, impl, effects) = publisher_count_matched now impl;
       let w = store (handle_data h) (PublisherImpl impl) w;
       let (_, w) = run_effects E (pub_writer impl) effects w;
       Some ((if matched = None then RMW_RET_ERROR else RMW_RET_OK, matched), w) } }"

definition rmw_subscription_count_matched_publishers ::
  "env \<Rightarrow> ptr \<Rightarrow> bool \<Rightarrow> world \<Rightarrow> (rmw_ret \<times> size_t option) result" where
  "rmw_subscription_count_matched_publishers E subscription count_output w = do {
     validation \<leftarrow> validate_subscription subscription w;
     if validation \<noteq> RMW_RET_OK then Some ((validation, None), w)
     else if \<not> count_output then Some ((RMW_RET_INVALID_ARGUMENT, None), w)
     else do {
       h \<leftarrow> subscription_at subscription w;
       impl \<leftarrow> subscription_impl_at (handle_data h) w;
       let (now, w) = reader_status_now E (sub_reader impl) w;
       let (matched, impl, effects) = subscription_count_matched now impl;
       let w = store (handle_data h) (SubscriptionImpl impl) w;
       let (_, w) = run_effects E (sub_reader impl) effects w;
       Some ((if matched = None then RMW_RET_ERROR else RMW_RET_OK, matched), w) } }"

end
