(* ===== verification/Publishing.thy ===== *)
theory Publishing
  imports Publisher Event_Api
begin

text \<open>
  What a client does with a publisher between its creation and its destruction: publishing messages
  and serialized messages, borrowing messages and returning or publishing them, waiting for
  acknowledgments and reading its QoS and GID (\<^verbatim>\<open>rmw_data_plane.cpp\<close>).
\<close>

section \<open>Writing a sample\<close>

definition UINT32_MAX :: nat where
  "UINT32_MAX = 4294967295"

text \<open>
  The key hash of a keyed type, \<open>None\<close> where it cannot be computed; sixteen zero bytes otherwise.
\<close>

definition sample_key :: "message_callbacks \<Rightarrow> ptr \<Rightarrow> world \<Rightarrow> uint8 list option option" where
  "sample_key callbacks ros_message w =
     (if \<not> has_key callbacks then Some (Some (replicate 16 0))
      else if ros_message = nullptr then Some None
      else case key_hash_fn callbacks of
        None \<Rightarrow> Some None
      | Some f \<Rightarrow> do { v \<leftarrow> ros_message_at ros_message w; Some (f v) })"

definition write_serialized ::
  "env \<Rightarrow> publisher_impl \<Rightarrow> uint8 list \<Rightarrow> ptr \<Rightarrow> world \<Rightarrow> rmw_ret result" where
  "write_serialized E impl data ros_message w = do {
     key \<leftarrow> sample_key (pub_callbacks impl) ros_message w;
     case key of
       None \<Rightarrow> Some (RMW_RET_ERROR, w)
     | Some hash \<Rightarrow>
         if length data > UINT32_MAX then Some (RMW_RET_ERROR, w)
         else let (ret, w) = call_dds E (WriteRaw (pub_writer impl) hash data) w
         in Some (if ret \<noteq> DDS_RETCODE_OK then RMW_RET_ERROR else RMW_RET_OK, w) }"

section \<open>Publishing\<close>

definition rmw_publish :: "env \<Rightarrow> ptr \<Rightarrow> ptr \<Rightarrow> world \<Rightarrow> rmw_ret result" where
  "rmw_publish E publisher ros_message w = do {
     validation \<leftarrow> validate_publisher publisher w;
     if validation \<noteq> RMW_RET_OK then Some (validation, w)
     else if ros_message = nullptr then Some (RMW_RET_INVALID_ARGUMENT, w)
     else do {
       h \<leftarrow> publisher_at publisher w;
       impl \<leftarrow> publisher_impl_at (handle_data h) w;
       let (writer, w) = create E CdrWriter plain w;
       if writer = nullptr then Some (RMW_RET_BAD_ALLOC, w)
       else do {
         serialize \<leftarrow> serialize_fn (pub_callbacks impl);
         v \<leftarrow> ros_message_at ros_message w;
         let (serialized, bytes) = serialize v None;
         (ret, w) \<leftarrow> (if serialized then write_serialized E impl bytes ros_message w
                     else Some (RMW_RET_ERROR, w));
         w \<leftarrow> destroy CdrWriter writer w;
         Some (ret, w) } } }"

text \<open>The bytes of a serialized message; reading past its memory is undefined.\<close>

definition message_bytes :: "serialized_message \<Rightarrow> uint8 list option" where
  "message_bytes m =
     (if buffer_length m \<le> buffer_capacity m then Some (take (buffer_length m) (buffer m)) else None)"

definition rmw_publish_serialized_message :: "env \<Rightarrow> ptr \<Rightarrow> ptr \<Rightarrow> world \<Rightarrow> rmw_ret result" where
  "rmw_publish_serialized_message E publisher message w = do {
     validation \<leftarrow> validate_publisher publisher w;
     if validation \<noteq> RMW_RET_OK then Some (validation, w)
     else if message = nullptr then Some (RMW_RET_INVALID_ARGUMENT, w)
     else do {
       m \<leftarrow> serialized_at message w;
       if buffer_null m \<or> buffer_length m < 4 then Some (RMW_RET_INVALID_ARGUMENT, w)
       else do {
         h \<leftarrow> publisher_at publisher w;
         impl \<leftarrow> publisher_impl_at (handle_data h) w;
         if has_key (pub_callbacks impl) then Some (RMW_RET_UNSUPPORTED, w)
         else do {
           bytes \<leftarrow> message_bytes m;
           write_serialized E impl bytes nullptr w } } } }"

section \<open>Loans\<close>

text \<open>
  \<open>output\<close> is what \<^verbatim>\<open>*ros_message\<close> holds before the call (\<open>None\<close>: the pointer to it is null), and the
  second part of the result what is written to it.
\<close>

definition rmw_borrow_loaned_message ::
  "env \<Rightarrow> ptr \<Rightarrow> message_ts option \<Rightarrow> ptr option \<Rightarrow> world \<Rightarrow> (rmw_ret \<times> ptr option) result" where
  "rmw_borrow_loaned_message E publisher type_support output w = do {
     validation \<leftarrow> validate_publisher publisher w;
     if validation \<noteq> RMW_RET_OK then Some ((validation, None), w)
     else if type_support = None \<or> output \<noteq> Some nullptr then Some ((RMW_RET_INVALID_ARGUMENT, None), w)
     else do {
       h \<leftarrow> publisher_at publisher w;
       impl \<leftarrow> publisher_impl_at (handle_data h) w;
       case resolve_message_type_support type_support of
         None \<Rightarrow> Some ((RMW_RET_INVALID_ARGUMENT, None), w)
       | Some callbacks \<Rightarrow>
           if table callbacks \<noteq> table (pub_callbacks impl)
           then Some ((RMW_RET_INVALID_ARGUMENT, None), w)
           else let (message, w) = create_ros_message E callbacks w
           in if message = nullptr then Some ((RMW_RET_BAD_ALLOC, None), w)
           else let (room, w) = call_ok E GrowContainer w
           in if \<not> room
           then do {
             w \<leftarrow> destroy_ros_message message w;
             Some ((RMW_RET_BAD_ALLOC, None), w) }
           else Some ((RMW_RET_OK, Some message),
                  store (handle_data h) (PublisherImpl (impl\<lparr>pub_loaned := insert message (pub_loaned impl)\<rparr>)) w) } }"

text \<open>\<^verbatim>\<open>impl->loaned_messages.erase(message)\<close>: whether it was there, under the context's lock.\<close>

definition erase_loan :: "ptr \<Rightarrow> ptr \<Rightarrow> world \<Rightarrow> bool result" where
  "erase_loan p message w = do {
     impl \<leftarrow> publisher_impl_at p w;
     Some (message \<in> pub_loaned impl,
           store p (PublisherImpl (impl\<lparr>pub_loaned := pub_loaned impl - {message}\<rparr>)) w) }"

definition rmw_return_loaned_message_from_publisher :: "ptr \<Rightarrow> ptr \<Rightarrow> world \<Rightarrow> rmw_ret result" where
  "rmw_return_loaned_message_from_publisher publisher message w = do {
     validation \<leftarrow> validate_publisher publisher w;
     if validation \<noteq> RMW_RET_OK then Some (validation, w)
     else if message = nullptr then Some (RMW_RET_INVALID_ARGUMENT, w)
     else do {
       h \<leftarrow> publisher_at publisher w;
       (erased, w) \<leftarrow> erase_loan (handle_data h) message w;
       if \<not> erased then Some (RMW_RET_ERROR, w)
       else do {
         w \<leftarrow> destroy_ros_message message w;
         Some (RMW_RET_OK, w) } } }"

definition rmw_publish_loaned_message :: "env \<Rightarrow> ptr \<Rightarrow> ptr \<Rightarrow> world \<Rightarrow> rmw_ret result" where
  "rmw_publish_loaned_message E publisher ros_message w = do {
     validation \<leftarrow> validate_publisher publisher w;
     if validation \<noteq> RMW_RET_OK then Some (validation, w)
     else if ros_message = nullptr then Some (RMW_RET_INVALID_ARGUMENT, w)
     else do {
       h \<leftarrow> publisher_at publisher w;
       (erased, w) \<leftarrow> erase_loan (handle_data h) ros_message w;
       if \<not> erased then Some (RMW_RET_ERROR, w)
       else do {
         (ret, w) \<leftarrow> rmw_publish E publisher ros_message w;
         w \<leftarrow> destroy_ros_message ros_message w;
         Some (ret, w) } } }"

section \<open>Acknowledgments and queries\<close>

definition rmw_publisher_wait_for_all_acked :: "env \<Rightarrow> ptr \<Rightarrow> rmw_time \<Rightarrow> world \<Rightarrow> rmw_ret result" where
  "rmw_publisher_wait_for_all_acked E publisher timeout w = do {
     validation \<leftarrow> validate_publisher publisher w;
     if validation \<noteq> RMW_RET_OK then Some (validation, w)
     else do {
       h \<leftarrow> publisher_at publisher w;
       impl \<leftarrow> publisher_impl_at (handle_data h) w;
       if reliability (pub_qos impl) = RELIABILITY_BEST_EFFORT then Some (RMW_RET_OK, w)
       else case ack_duration (infinite E) timeout of
         None \<Rightarrow> Some (RMW_RET_INVALID_ARGUMENT, w)
       | Some duration \<Rightarrow>
           let (ret, w) = call_dds E (WaitForAcks (pub_writer impl) duration) w
           in Some (if ret = DDS_RETCODE_TIMEOUT then RMW_RET_TIMEOUT
                    else if ret \<noteq> DDS_RETCODE_OK then RMW_RET_ERROR else RMW_RET_OK, w) } }"

definition rmw_publisher_get_actual_qos ::
  "ptr \<Rightarrow> bool \<Rightarrow> world \<Rightarrow> (rmw_ret \<times> rmw_qos_profile option) result" where
  "rmw_publisher_get_actual_qos publisher qos_output w = do {
     validation \<leftarrow> validate_publisher publisher w;
     if validation \<noteq> RMW_RET_OK then Some ((validation, None), w)
     else if \<not> qos_output then Some ((RMW_RET_INVALID_ARGUMENT, None), w)
     else do {
       h \<leftarrow> publisher_at publisher w;
       impl \<leftarrow> publisher_impl_at (handle_data h) w;
       Some ((RMW_RET_OK, Some (pub_qos impl)), w) } }"

definition rmw_get_gid_for_publisher ::
  "env \<Rightarrow> ptr \<Rightarrow> bool \<Rightarrow> world \<Rightarrow> (rmw_ret \<times> rmw_gid option) result" where
  "rmw_get_gid_for_publisher E publisher gid_output w = do {
     validation \<leftarrow> validate_publisher publisher w;
     if validation \<noteq> RMW_RET_OK then Some ((validation, None), w)
     else if \<not> gid_output then Some ((RMW_RET_INVALID_ARGUMENT, None), w)
     else do {
       h \<leftarrow> publisher_at publisher w;
       impl \<leftarrow> publisher_impl_at (handle_data h) w;
       let (answer, w) = guid_from_writer E (pub_writer impl) w;
       Some (case answer of None \<Rightarrow> (RMW_RET_ERROR, None) | Some g \<Rightarrow> (RMW_RET_OK, Some (gid_of E g)), w) } }"

end
