(* ===== verification/Publisher_State.thy ===== *)
theory Publisher_State
  imports Publishing
begin

text \<open>
  A publisher between its creation and its destruction. \<open>publisher_state\<close> says what it owns: its
  three objects, its two DDS entities, the guard conditions of its initialised events and the
  messages it has on loan. Every operation a client may call is defined in this state and keeps it,
  and destroying the publisher from it releases everything once.
\<close>

section \<open>Moving resources between the ledger and what was there before\<close>

lemma fits_claim_upd:
  assumes "fits h rs" "claim rs h m = None"
  shows "fits (h(m \<mapsto> x)) rs \<and> claim rs (h(m \<mapsto> x)) = (claim rs h)(m \<mapsto> x)"
  using assms by (induction rs h rule: claim.induct) (auto simp: fun_upd_twist split: if_splits)

lemma fits_claim_drop:
  assumes "fits h rs" "h m = Some x"
  shows "fits (h(m := None)) rs \<and> claim rs (h(m := None)) = (claim rs h)(m := None)"
  using assms
proof (induction rs h rule: claim.induct)
  case (2 p y rs h)
  then have "claim rs h m = Some x" by (simp add: claim_old)
  with 2 show ?case by (auto simp: fun_upd_twist split: if_splits)
qed auto

lemma ledger_absorb:
  assumes "ledger h e (Memory m x # rs) w" "m \<noteq> nullptr"
  shows "ledger (h(m \<mapsto> x)) e rs w" "h m = None"
  using assms fits_claim_upd [of h rs m x] claim_fresh [of rs h m] by (auto simp: ledger_def)

lemma ledger_expose:
  assumes "ledger h e rs w" "h m = Some x" "m \<noteq> nullptr"
  shows "ledger (h(m := None)) e (Memory m x # rs) w"
  using assms fits_claim_drop [of h rs m x] claim_old [of h m x rs] by (auto simp: ledger_def)

text \<open>An object of another kind than the claimed ones was there before.\<close>

lemma ledger_not_claimed:
  assumes "ledger h e rs w" "heap w q = Some y" "\<And>p z. Memory p z \<in> set rs \<Longrightarrow> z \<noteq> y"
  shows "h q = Some y"
proof -
  have "claim rs h q = Some y" using assms(1,2) by (simp add: ledger_def)
  then show ?thesis
    using assms(3) by (induction rs h rule: claim.induct) (auto split: if_splits)
qed

section \<open>What a publisher owns\<close>

definition guard_entities :: "(rmw_event_type \<Rightarrow> ptr) \<Rightarrow> (entity_kind \<times> ptr) multiset" where
  "guard_entities guards =
     sum_list (map (\<lambda>t. if guards t \<noteq> nullptr then {#(GuardConditionEntity, guards t)#} else {#})
       all_event_types)"

lemma guard_entities_none [simp]: "guard_entities (\<lambda>_. nullptr) = {#}"
  by (simp add: guard_entities_def all_event_types_def)

lemma guard_entities_list:
  assumes "distinct ts" "guards type = nullptr" "g \<noteq> nullptr"
  shows "sum_list (map (\<lambda>t. if (guards(type := g)) t \<noteq> nullptr
        then {#(GuardConditionEntity, (guards(type := g)) t)#} else {#}) ts) =
    (if type \<in> set ts then {#(GuardConditionEntity, g)#} else {#}) +
    sum_list (map (\<lambda>t. if guards t \<noteq> nullptr then {#(GuardConditionEntity, guards t)#} else {#}) ts)"
  using assms by (induction ts) (auto simp: fun_upd_apply)

lemma guard_entities_upd:
  assumes "type \<in> set all_event_types" "guards type = nullptr" "g \<noteq> nullptr"
  shows "guard_entities (guards(type := g)) = add_mset (GuardConditionEntity, g) (guard_entities guards)"
  using guard_entities_list [of all_event_types guards type g] assms
  unfolding guard_entities_def by (simp add: all_event_types_def del: fun_upd_apply)

text \<open>The messages on loan, with their values, beside the heap the client had before.\<close>

definition lending :: "(ptr \<Rightarrow> object option) \<Rightarrow> (ptr \<Rightarrow> ros_value option) \<Rightarrow> ptr \<Rightarrow> object option" where
  "lending h L = (\<lambda>q. case L q of None \<Rightarrow> h q | Some v \<Rightarrow> Some (RosMessage v))"

lemma lending_simps [simp]:
  "lending h (\<lambda>_. None) = h" "lending h (L(m \<mapsto> v)) = (lending h L)(m \<mapsto> RosMessage v)"
  by (auto simp: lending_def)

lemma lending_return: "h m = None \<Longrightarrow> lending h (L(m := None)) = (lending h L)(m := None)"
  by (auto simp: lending_def)

lemma lending_old: "h q = Some y \<Longrightarrow> \<forall>m \<in> dom L. h m = None \<Longrightarrow> lending h L q = Some y"
  by (cases "L q") (auto simp: lending_def dest: bspec [of _ _ q])

record publisher_parts =
  at_name :: ptr
  at_impl :: ptr
  its_writer :: ptr
  its_topic :: ptr
  its_guid :: guid
  its_topic_name :: string

definition publisher_handle :: "publisher_parts \<Rightarrow> endpoint_handle" where
  "publisher_handle x =
     \<lparr>handle_identifier = ZzddsIdentifier, handle_data = at_impl x, handle_name = at_name x\<rparr>"

definition publisher_base :: "ptr \<Rightarrow> publisher_parts \<Rightarrow> publisher_impl \<Rightarrow> resource list" where
  "publisher_base p x i =
     [Memory (at_name x) (CString (its_topic_name x)), Memory p (PublisherHandle (publisher_handle x)),
      Memory (at_impl x) (PublisherImpl i), Entity DataWriterEntity (its_writer x),
      Entity TopicEntity (its_topic x)]"

definition fits_parts :: "ptr \<Rightarrow> publisher_parts \<Rightarrow> publisher_impl \<Rightarrow> bool" where
  "fits_parts ci x i \<longleftrightarrow> pub_context i = ci \<and> pub_writer i = its_writer x \<and> pub_topic i = its_topic x \<and>
     rtps_guid i = its_guid x \<and> complete_callbacks (pub_callbacks i)"

definition proper_parts :: "context_impl \<Rightarrow> ptr \<Rightarrow> publisher_parts \<Rightarrow> bool" where
  "proper_parts c p x \<longleftrightarrow>
     p \<noteq> nullptr \<and> at_name x \<noteq> nullptr \<and> at_impl x \<noteq> nullptr \<and> its_writer x \<noteq> nullptr \<and>
     its_topic x \<noteq> nullptr \<and> its_guid x \<notin> local_publication_guids c"

text \<open>
  \<open>h\<close> and \<open>e\<close> are the heap and the entities besides the publisher (\<open>h\<close> with the context as it was
  before it was created), \<open>L\<close> the messages on loan.
\<close>

definition publisher_state ::
  "ptr \<Rightarrow> context_impl \<Rightarrow> ptr \<Rightarrow> publisher_parts \<Rightarrow> publisher_impl \<Rightarrow> (ptr \<Rightarrow> ros_value option) \<Rightarrow>
   (ptr \<Rightarrow> object option) \<Rightarrow> (entity_kind \<times> ptr) multiset \<Rightarrow> world \<Rightarrow> bool" where
  "publisher_state ci c p x i L h e w \<longleftrightarrow>
     proper_parts c p x \<and> fits_parts ci x i \<and> h ci = Some (ContextImpl c) \<and>
     dom L = pub_loaned i \<and> (\<forall>m \<in> dom L. h m = None) \<and>
     ledger ((lending h L)(ci \<mapsto> ContextImpl (with_publisher p (its_guid x) c)))
       (e + guard_entities (event_guards i)) (publisher_base p x i) w"

lemma base_heap:
  assumes "ledger h e (publisher_base p x i) w" "p \<noteq> nullptr" "at_impl x \<noteq> nullptr"
  shows "heap w p = Some (PublisherHandle (publisher_handle x))" "heap w (at_impl x) = Some (PublisherImpl i)"
  using assms by (auto simp: publisher_base_def ledger_def split: if_splits)

lemma publisher_stateD:
  assumes "publisher_state ci c p x i L h e w"
  shows "heap w p = Some (PublisherHandle (publisher_handle x))" "heap w (at_impl x) = Some (PublisherImpl i)"
    "p \<noteq> nullptr" "at_impl x \<noteq> nullptr" "pub_writer i = its_writer x" "complete_callbacks (pub_callbacks i)"
    "dom L = pub_loaned i" "wf_world w" "fits_parts ci x i" "h ci = Some (ContextImpl c)" "L ci = None"
    "ledger ((lending h L)(ci \<mapsto> ContextImpl (with_publisher p (its_guid x) c)))
       (e + guard_entities (event_guards i)) (publisher_base p x i) w"
proof -
  have parts: "proper_parts c p x" "fits_parts ci x i" and h: "h ci = Some (ContextImpl c)"
    and L: "dom L = pub_loaned i" "\<forall>m \<in> dom L. h m = None"
    and l: "ledger ((lending h L)(ci \<mapsto> ContextImpl (with_publisher p (its_guid x) c)))
       (e + guard_entities (event_guards i)) (publisher_base p x i) w"
    using assms by (simp_all add: publisher_state_def)
  show "fits_parts ci x i" "h ci = Some (ContextImpl c)" "dom L = pub_loaned i"
    "ledger ((lending h L)(ci \<mapsto> ContextImpl (with_publisher p (its_guid x) c)))
       (e + guard_entities (event_guards i)) (publisher_base p x i) w"
    by (fact parts(2) h L(1) l)+
  show nz: "p \<noteq> nullptr" "at_impl x \<noteq> nullptr" using parts(1) by (simp_all add: proper_parts_def)
  show "pub_writer i = its_writer x" "complete_callbacks (pub_callbacks i)"
    using parts(2) by (simp_all add: fits_parts_def)
  show "wf_world w" using l by (simp add: ledger_def)
  show "heap w p = Some (PublisherHandle (publisher_handle x))" "heap w (at_impl x) = Some (PublisherImpl i)"
    by (rule base_heap [OF l nz])+
  show "L ci = None" using L(2) h by (cases "L ci") (auto dest: bspec [of _ _ ci])
qed

text \<open>The messages on loan are there, with the values the state gives them.\<close>

lemma state_loan:
  assumes "publisher_state ci c p x i L h e w" "L m = Some v"
  shows "heap w m = Some (RosMessage v)" "h m = None" "m \<noteq> ci"
proof -
  note D = publisher_stateD [OF assms(1)]
  show "h m = None" using assms by (auto simp: publisher_state_def)
  then show "m \<noteq> ci" using D(10) by auto
  with assms(2) show "heap w m = Some (RosMessage v)"
    by (intro ledger_old [OF D(12)]) (simp add: lending_def)
qed

text \<open>A new publisher is in this state, with nothing on loan.\<close>

lemma created_state:
  assumes "publisher_created node ci c h e p w" "h ci = Some (ContextImpl c)"
  shows "\<exists>x i. publisher_state ci c p x i (\<lambda>_. None) h e w"
proof -
  obtain name_copy impl writer topic g i topic_name where
    nz: "p \<noteq> nullptr" "name_copy \<noteq> nullptr" "impl \<noteq> nullptr" "writer \<noteq> nullptr" "topic \<noteq> nullptr"
    and g: "g \<notin> local_publication_guids c"
    and i: "event_guards i = (\<lambda>_. nullptr)" "pub_loaned i = {}" "pub_context i = ci" "pub_writer i = writer"
      "pub_topic i = topic" "rtps_guid i = g" "complete_callbacks (pub_callbacks i)"
    and l: "ledger (h(ci \<mapsto> ContextImpl (with_publisher p g c))) e
       [Memory name_copy (CString topic_name),
        Memory p (PublisherHandle \<lparr>handle_identifier = ZzddsIdentifier, handle_data = impl,
                                    handle_name = name_copy\<rparr>),
        Memory impl (PublisherImpl i), Entity DataWriterEntity writer, Entity TopicEntity topic] w"
    using assms unfolding publisher_created_def by blast
  let ?x = "\<lparr>at_name = name_copy, at_impl = impl, its_writer = writer, its_topic = topic, its_guid = g,
    its_topic_name = topic_name\<rparr>"
  have "publisher_state ci c p ?x i (\<lambda>_. None) h e w"
    using nz g i l assms(2)
    by (simp add: publisher_state_def proper_parts_def fits_parts_def publisher_base_def publisher_handle_def)
  then show ?thesis by blast
qed

section \<open>Steps that keep it\<close>

text \<open>Calls change neither memory nor entities, but may use up handles.\<close>

definition keeps_memory :: "world \<Rightarrow> world \<Rightarrow> bool" where
  "keeps_memory w w' \<longleftrightarrow> heap w' = heap w \<and> next_ptr w \<le> next_ptr w' \<and> entities w' = entities w"

lemma keeps_memory_refl [simp]: "keeps_memory w w"
  by (simp add: keeps_memory_def)

lemma ledger_keeps: "ledger h e rs w \<Longrightarrow> keeps_memory w w' \<Longrightarrow> ledger h e rs w'"
  by (auto simp: ledger_def keeps_memory_def wf_world_def)

lemma state_keeps:
  "publisher_state ci c p x i L h e w \<Longrightarrow> keeps_memory w w' \<Longrightarrow> publisher_state ci c p x i L h e w'"
  using ledger_keeps by (auto simp: publisher_state_def)

lemma base_fill:
  assumes "ledger h e (publisher_base p x i) w" "at_impl x \<noteq> nullptr"
  shows "ledger h e (publisher_base p x i') (store (at_impl x) (PublisherImpl i') w)"
  using ledger_fill [of _ _ "[a, b]" for a b, unfolded append.simps, OF assms [unfolded publisher_base_def]]
  unfolding publisher_base_def .

text \<open>The implementation object is updated, its guards and loans excepted.\<close>

lemma state_update:
  assumes "publisher_state ci c p x i L h e w"
    and "fits_parts ci x i'" "pub_loaned i' = pub_loaned i" "event_guards i' = event_guards i"
  shows "publisher_state ci c p x i' L h e (store (at_impl x) (PublisherImpl i') w)"
  using assms base_fill [OF publisher_stateD(12,4) [OF assms(1)]] by (simp add: publisher_state_def)

text \<open>A guard condition is created for an event type that has none.\<close>

lemma state_guard:
  assumes "publisher_state ci c p x i L h e w"
    and "type \<in> set all_event_types" "event_guards i type = nullptr" "g \<noteq> nullptr"
    and "heap w' = heap w" "wf_world w'" "entities w' = add_mset (GuardConditionEntity, g) (entities w)"
  shows "publisher_state ci c p x (i\<lparr>event_guards := (event_guards i)(type := g)\<rparr>) L h e
    (store (at_impl x) (PublisherImpl (i\<lparr>event_guards := (event_guards i)(type := g)\<rparr>)) w')"
proof -
  note D = publisher_stateD [OF assms(1)]
  have "ledger ((lending h L)(ci \<mapsto> ContextImpl (with_publisher p (its_guid x) c)))
       (e + add_mset (GuardConditionEntity, g) (guard_entities (event_guards i))) (publisher_base p x i) w'"
    using D(12) assms(5-7) by (simp add: ledger_def)
  from base_fill [OF this D(4)] show ?thesis
    using assms(1) guard_entities_upd [of type "event_guards i" g] assms(2-4) by (simp add: publisher_state_def fits_parts_def)
qed

text \<open>A message is allocated and lent; a message is taken back and freed; its borrower writes to it.\<close>

lemma state_lend:
  assumes "publisher_state ci c p x i L h e w" and i': "i' = i\<lparr>pub_loaned := insert m (pub_loaned i)\<rparr>"
    and "heap w' = (heap w)(m \<mapsto> RosMessage v)" "heap w m = None" "m \<noteq> nullptr" "wf_world w'"
    and "entities w' = entities w"
  shows "publisher_state ci c p x i' (L(m \<mapsto> v)) h e (store (at_impl x) (PublisherImpl i') w')"
proof -
  note D = publisher_stateD [OF assms(1)]
  have "ledger ((lending h L)(ci \<mapsto> ContextImpl (with_publisher p (its_guid x) c)))
       (e + guard_entities (event_guards i)) (Memory m (RosMessage v) # publisher_base p x i) w'"
    using D(12) assms(3-7) by (auto simp: ledger_def)
  note l = ledger_absorb [OF this assms(5)]
  then have "m \<noteq> ci" by auto
  then have "(lending h L)(ci \<mapsto> ContextImpl (with_publisher p (its_guid x) c), m \<mapsto> RosMessage v) =
      (lending h (L(m \<mapsto> v)))(ci \<mapsto> ContextImpl (with_publisher p (its_guid x) c))"
    by (simp add: fun_upd_twist)
  with base_fill [OF l(1) D(4), of i'] show ?thesis
    using assms(1) l(2) \<open>m \<noteq> ci\<close>
    by (auto simp: publisher_state_def fits_parts_def lending_def i' split: option.splits)
qed

lemma state_take_back:
  assumes "publisher_state ci c p x i L h e w" and i': "i' = i\<lparr>pub_loaned := pub_loaned i - {m}\<rparr>"
    and "L m = Some v" "m \<noteq> nullptr" "keeps_memory (store (at_impl x) (PublisherImpl i') w) w'"
  shows "heap w' m = Some (RosMessage v)"
    "publisher_state ci c p x i' (L(m := None)) h e (w'\<lparr>heap := (heap w')(m := None)\<rparr>)"
proof -
  note D = publisher_stateD [OF assms(1)]
  note M = state_loan [OF assms(1,3)]
  show "heap w' m = Some (RosMessage v)"
    using M D(2) assms(5) by (auto simp: keeps_memory_def)
  have eq: "((lending h L)(ci \<mapsto> ContextImpl (with_publisher p (its_guid x) c)))(m := None) =
      (lending h (L(m := None)))(ci \<mapsto> ContextImpl (with_publisher p (its_guid x) c))"
    using M by (simp add: lending_return fun_upd_twist)
  have "ledger ((lending h L)(ci \<mapsto> ContextImpl (with_publisher p (its_guid x) c)))
      (e + guard_entities (event_guards i)) (publisher_base p x i') w'"
    using ledger_keeps [OF base_fill [OF D(12,4)] assms(5)] .
  from ledger_expose [OF this _ assms(4), of "RosMessage v"] have
    "ledger ((lending h (L(m := None)))(ci \<mapsto> ContextImpl (with_publisher p (its_guid x) c)))
      (e + guard_entities (event_guards i)) (Memory m (RosMessage v) # publisher_base p x i') w'"
    using assms(3) M by (simp add: eq) (simp add: lending_def)
  from ledger_without_memory [of _ _ "[]", unfolded append.simps, OF this assms(4)] have
    "ledger ((lending h (L(m := None)))(ci \<mapsto> ContextImpl (with_publisher p (its_guid x) c)))
      (e + guard_entities (event_guards i)) (publisher_base p x i') (w'\<lparr>heap := (heap w')(m := None)\<rparr>)"
    by (rule conjunct2)
  then show "publisher_state ci c p x i' (L(m := None)) h e (w'\<lparr>heap := (heap w')(m := None)\<rparr>)"
    using assms(1) by (auto simp: publisher_state_def fits_parts_def i')
qed

lemma state_write:
  assumes "publisher_state ci c p x i L h e w" "L m = Some v"
  shows "publisher_state ci c p x i (L(m \<mapsto> v')) h e (store m (RosMessage v') w)"
proof -
  note D = publisher_stateD [OF assms(1)] note M = state_loan [OF assms]
  have "ledger ((lending h L)(ci \<mapsto> ContextImpl (with_publisher p (its_guid x) c), m \<mapsto> RosMessage v'))
       (e + guard_entities (event_guards i)) (publisher_base p x i) (store m (RosMessage v') w)"
    using assms(2) M by (intro ledger_update [OF D(12), of _ "RosMessage v"]) (simp add: lending_def)
  then have
    "ledger ((lending h (L(m \<mapsto> v')))(ci \<mapsto> ContextImpl (with_publisher p (its_guid x) c)))
       (e + guard_entities (event_guards i)) (publisher_base p x i) (store m (RosMessage v') w)"
    using M(3) by (simp add: fun_upd_twist [of m])
  with assms M(2) show ?thesis by (auto simp: publisher_state_def insert_absorb domI)
qed

text \<open>A client's event handle is filled in; it belongs to the heap besides the publisher.\<close>

lemma state_event:
  assumes "publisher_state ci c p x i L h e w" "heap w event = Some (EventHandle old)"
  shows "h event = Some (EventHandle old)"
    "publisher_state ci c p x i L (h(event \<mapsto> EventHandle new)) e (store event (EventHandle new) w)"
proof -
  note D = publisher_stateD [OF assms(1)]
  have H: "((lending h L)(ci \<mapsto> ContextImpl (with_publisher p (its_guid x) c))) event = Some (EventHandle old)"
    by (rule ledger_not_claimed [OF D(12) assms(2)]) (auto simp: publisher_base_def)
  then have "event \<noteq> ci" by auto
  with H have L: "L event = None" and h: "h event = Some (EventHandle old)"
    by (auto simp: lending_def split: option.splits)
  show "h event = Some (EventHandle old)" by (rule h)
  have "lending (h(event \<mapsto> EventHandle new)) L = (lending h L)(event \<mapsto> EventHandle new)"
    using L by (intro ext) (auto simp: lending_def split: option.split)
  with \<open>event \<noteq> ci\<close> have eq: "(lending (h(event \<mapsto> EventHandle new)) L)(ci \<mapsto> ContextImpl (with_publisher p (its_guid x) c)) =
      (lending h L)(ci \<mapsto> ContextImpl (with_publisher p (its_guid x) c), event \<mapsto> EventHandle new)"
    by (simp only: fun_upd_twist)
  have l: "ledger ((lending h L)(ci \<mapsto> ContextImpl (with_publisher p (its_guid x) c), event \<mapsto> EventHandle new))
      (e + guard_entities (event_guards i)) (publisher_base p x i) (store event (EventHandle new) w)"
    by (rule ledger_update [OF D(12)]) (rule H)
  show "publisher_state ci c p x i L (h(event \<mapsto> EventHandle new)) e (store event (EventHandle new) w)"
    unfolding publisher_state_def eq
  proof (intro conjI)
    show "\<forall>m \<in> dom L. (h(event \<mapsto> EventHandle new)) m = None"
      using assms(1) L by (auto simp: publisher_state_def)
  qed (use assms(1) \<open>event \<noteq> ci\<close> l in \<open>simp_all add: publisher_state_def\<close>)
qed

section \<open>The operations in this state\<close>

text \<open>What the operations look up first.\<close>

definition publisher_here :: "ptr \<Rightarrow> publisher_parts \<Rightarrow> publisher_impl \<Rightarrow> world \<Rightarrow> bool" where
  "publisher_here p x i w \<longleftrightarrow> p \<noteq> nullptr \<and> at_impl x \<noteq> nullptr \<and>
     heap w p = Some (PublisherHandle (publisher_handle x)) \<and> heap w (at_impl x) = Some (PublisherImpl i) \<and>
     wf_world w \<and> complete_callbacks (pub_callbacks i)"

lemma state_here: "publisher_state ci c p x i L h e w \<Longrightarrow> publisher_here p x i w"
  using publisher_stateD [of ci c p x i L h e w] by (simp add: publisher_here_def)

lemma here_lookup:
  assumes "publisher_here p x i w"
  shows "validate_publisher p w = Some RMW_RET_OK" "publisher_at p w = Some (publisher_handle x)"
    "publisher_impl_at (at_impl x) w = Some i" "handle_data (publisher_handle x) = at_impl x"
  using assms
  by (simp_all add: publisher_here_def validate_publisher_def publisher_at_def publisher_impl_at_def publisher_handle_def)

lemma here_keeps: "publisher_here p x i w \<Longrightarrow> keeps_memory w w' \<Longrightarrow> publisher_here p x i w'"
  by (auto simp: publisher_here_def keeps_memory_def wf_world_def)

definition valid_message :: "ptr \<Rightarrow> world \<Rightarrow> bool" where
  "valid_message m w \<longleftrightarrow> m = nullptr \<or> (\<exists>v. heap w m = Some (RosMessage v))"

definition valid_buffer :: "ptr \<Rightarrow> world \<Rightarrow> bool" where
  "valid_buffer m w \<longleftrightarrow> m = nullptr \<or>
     (\<exists>s. heap w m = Some (SerializedMessage s) \<and> buffer_length s \<le> buffer_capacity s)"

lemma keeps_record [simp]: "keeps_memory w (record_call k w)"
  by (simp add: keeps_memory_def)

lemma keeps_trans: "keeps_memory w w' \<Longrightarrow> keeps_memory w' w'' \<Longrightarrow> keeps_memory w w''"
  by (simp add: keeps_memory_def)

lemma write_serialized_keeps:
  assumes "valid_message m w"
  shows "post (write_serialized E i bytes m w) (\<lambda>(_, w'). keeps_memory w w')"
  using assms
  by (auto simp: write_serialized_def sample_key_def valid_message_def ros_message_at_def call_dds_def Let_def
    split: option.split)

lemma publish_keeps:
  assumes "publisher_here p x i w" "valid_message m w"
  shows "post (rmw_publish E p m w) (\<lambda>(_, w'). keeps_memory w w')"
proof (cases "m = nullptr \<or> \<not> ok E (trace w) (Create CdrWriter plain)")
  case True
  then show ?thesis
    by (auto simp: rmw_publish_def here_lookup [OF assms(1)] create_def call_ok_def publisher_impl_at_iff)
next
  case False
  let ?w = "(record_call (Create CdrWriter plain) w)\<lparr>next_ptr := next_ptr w + 1,
      entities := add_mset (CdrWriter, next_ptr w) (entities w)\<rparr>"
  obtain f where f: "serialize_fn (pub_callbacks i) = Some f"
    using assms(1) by (auto simp: publisher_here_def complete_callbacks_def)
  obtain v where v: "heap w m = Some (RosMessage v)"
    using False assms(2) by (auto simp: valid_message_def)
  obtain good bytes where r: "f v None = (good, bytes)" by (cases "f v None")
  have keeps: "post (write_serialized E i bytes m ?w) (\<lambda>(_, w'). keeps_memory ?w w')"
    using write_serialized_keeps [of m ?w] v by (simp add: valid_message_def)
  have "next_ptr w \<noteq> nullptr"
    using assms(1) by (simp add: publisher_here_def wf_world_def)
  then show ?thesis
    using False f v r here_lookup [OF assms(1)]
    apply (simp add: rmw_publish_def create_def call_ok_def ros_message_at_def post_bind split_beta)
    apply (intro conjI impI post_mono [OF keeps [simplified]])
     apply (auto simp: keeps_memory_def destroy_def)
    done
qed

lemma publish_serialized_keeps:
  assumes "publisher_here p x i w" "valid_buffer m w"
  shows "post (rmw_publish_serialized_message E p m w) (\<lambda>(_, w'). keeps_memory w w')"
  using assms(2) write_serialized_keeps [of nullptr w E i]
  by (auto simp: rmw_publish_serialized_message_def here_lookup [OF assms(1)] valid_buffer_def
    serialized_at_def message_bytes_def valid_message_def)

lemma wait_acked_keeps:
  assumes "publisher_here p x i w"
  shows "post (rmw_publisher_wait_for_all_acked E p t w) (\<lambda>(_, w'). keeps_memory w w')"
  by (auto simp: rmw_publisher_wait_for_all_acked_def here_lookup [OF assms] call_dds_def split: option.split)

lemma actual_qos_keeps:
  assumes "publisher_here p x i w"
  shows "post (rmw_publisher_get_actual_qos p out w) (\<lambda>((ret, q), w').
    keeps_memory w w' \<and> (out \<longrightarrow> ret = RMW_RET_OK \<and> q = Some (pub_qos i)))"
  by (simp add: rmw_publisher_get_actual_qos_def here_lookup [OF assms])

lemma gid_keeps:
  assumes "publisher_here p x i w"
  shows "post (rmw_get_gid_for_publisher E p out w) (\<lambda>(_, w'). keeps_memory w w')"
  by (simp add: rmw_get_gid_for_publisher_def here_lookup [OF assms] guid_from_writer_def call_guid_def)

text \<open>Borrowing: either nothing changes or a new message is on loan.\<close>

lemma borrow_state:
  assumes "publisher_state ci c p x i L h e w"
  shows "post (rmw_borrow_loaned_message E p ts out w) (\<lambda>((ret, m), w').
    (m = None \<and> ret \<noteq> RMW_RET_OK \<and> publisher_state ci c p x i L h e w') \<or>
    (\<exists>q v i'. m = Some q \<and> ret = RMW_RET_OK \<and> L q = None \<and> publisher_state ci c p x i' (L(q \<mapsto> v)) h e w'))"
proof (cases "ts = None \<or> out \<noteq> Some nullptr \<or> resolve_message_type_support ts = None \<or>
    table (the (resolve_message_type_support ts)) \<noteq> table (pub_callbacks i)")
  case True
  then show ?thesis
    using assms by (auto simp: rmw_borrow_loaned_message_def here_lookup [OF state_here [OF assms]] split: option.split)
next
  case False
  note D = publisher_stateD [OF assms]
  from False obtain cb where cb: "resolve_message_type_support ts = Some cb" "ts \<noteq> None"
    "table cb = table (pub_callbacks i)" "out = Some nullptr"
    by auto
  note W = wf_worldD [OF D(8)]
  let ?w = "(record_call AllocateMemory w)\<lparr>next_ptr := next_ptr w + 1,
      heap := (heap w)(next_ptr w \<mapsto> RosMessage (new_message cb))\<rparr>"
  have "L (next_ptr w) = None"
    using state_loan(1) [OF assms, of "next_ptr w"] W(4) [of "next_ptr w"] by (cases "L (next_ptr w)") auto
  moreover have "wf_world (record_call GrowContainer ?w)"
    using D(8) by (simp add: wf_world_def)
  from state_lend [OF assms refl _ _ W(2) this, of "new_message cb"]
  have "publisher_state ci c p x (i\<lparr>pub_loaned := insert (next_ptr w) (pub_loaned i)\<rparr>)
      (L(next_ptr w \<mapsto> new_message cb)) h e
      (store (at_impl x) (PublisherImpl (i\<lparr>pub_loaned := insert (next_ptr w) (pub_loaned i)\<rparr>))
        (record_call GrowContainer ?w))"
    using W(4) [of "next_ptr w"] by simp
  moreover have "publisher_state ci c p x i L h e (record_call AllocateMemory w)"
    by (rule state_keeps [OF assms]) simp
  ultimately show ?thesis
    using cb W(2) W(4) [of "next_ptr w"]
    apply (auto simp: rmw_borrow_loaned_message_def here_lookup [OF state_here [OF assms]]
      create_ros_message_def allocate_object_def call_ok_def destroy_ros_message_def deallocate_def)
    apply (rule state_keeps [OF assms])
    apply (simp add: keeps_memory_def fun_upd_idem)
    done
qed

text \<open>Returning a message that is on loan frees it; another one is refused and nothing changes.\<close>

lemma erase_loan_here:
  assumes "publisher_here p x i w"
  shows "erase_loan (at_impl x) m w = Some (m \<in> pub_loaned i,
    store (at_impl x) (PublisherImpl (i\<lparr>pub_loaned := pub_loaned i - {m}\<rparr>)) w)"
  by (simp add: erase_loan_def here_lookup [OF assms])

lemma store_same:
  assumes "heap w q = Some y"
  shows "store q y w = w"
  using assms by (intro world.equality) (simp_all add: fun_upd_idem)

lemma erase_nothing: "m \<notin> pub_loaned i \<Longrightarrow> i\<lparr>pub_loaned := pub_loaned i - {m}\<rparr> = i"
  by (rule publisher_impl.equality) simp_all

lemma return_state:
  assumes "publisher_state ci c p x i L h e w"
  shows "post (rmw_return_loaned_message_from_publisher p m w) (\<lambda>(ret, w').
    if m \<noteq> nullptr \<and> L m \<noteq> None
    then ret = RMW_RET_OK \<and> (\<exists>i'. publisher_state ci c p x i' (L(m := None)) h e w')
    else ret \<noteq> RMW_RET_OK \<and> w' = w)"
proof (cases "m \<noteq> nullptr \<and> L m \<noteq> None")
  case True
  then obtain v where v: "L m = Some v" and m: "m \<noteq> nullptr" by auto
  note D = publisher_stateD [OF assms]
  let ?i = "i\<lparr>pub_loaned := pub_loaned i - {m}\<rparr>"
  note T = state_take_back [OF assms refl v m keeps_memory_refl]
  have "m \<in> pub_loaned i" using D(7) v by auto
  with T m v show ?thesis
    by (auto simp: rmw_return_loaned_message_from_publisher_def here_lookup [OF state_here [OF assms]]
      erase_loan_here [OF state_here [OF assms]] destroy_ros_message_def deallocate_def split: if_splits)
next
  case False
  note D = publisher_stateD [OF assms]
  have "m \<noteq> nullptr \<Longrightarrow> m \<notin> pub_loaned i" using False D(7) by auto
  with False D(2) show ?thesis
    by (auto simp: rmw_return_loaned_message_from_publisher_def here_lookup [OF state_here [OF assms]]
      erase_loan_here [OF state_here [OF assms]] erase_nothing store_same)
qed

text \<open>Publishing a message on loan publishes its value and frees it.\<close>

lemma publish_loan_state:
  assumes "publisher_state ci c p x i L h e w"
  shows "post (rmw_publish_loaned_message E p m w) (\<lambda>(ret, w').
    if m \<noteq> nullptr \<and> L m \<noteq> None
    then \<exists>i'. publisher_state ci c p x i' (L(m := None)) h e w'
    else ret \<noteq> RMW_RET_OK \<and> w' = w)"
proof (cases "m \<noteq> nullptr \<and> L m \<noteq> None")
  case True
  then obtain v where v: "L m = Some v" and m: "m \<noteq> nullptr" by auto
  note D = publisher_stateD [OF assms]
  let ?i = "i\<lparr>pub_loaned := pub_loaned i - {m}\<rparr>"
  let ?w = "store (at_impl x) (PublisherImpl ?i) w"
  have loaned: "m \<in> pub_loaned i" using D(7) v by auto
  have "publisher_here p x ?i ?w"
    using state_here [OF assms] wf_world_update [OF D(8,2)] by (auto simp: publisher_here_def)
  moreover have "valid_message m ?w"
    using state_take_back(1) [OF assms refl v m keeps_memory_refl] by (auto simp: valid_message_def)
  ultimately have "post (rmw_publish E p m ?w) (\<lambda>(_, w'). keeps_memory ?w w')"
    by (rule publish_keeps)
  then have "post (rmw_publish E p m ?w) (\<lambda>(ret, w'). heap w' m = Some (RosMessage v) \<and>
      publisher_state ci c p x ?i (L(m := None)) h e (w'\<lparr>heap := (heap w')(m := None)\<rparr>))"
    using state_take_back [OF assms refl v m] by (auto elim!: post_mono)
  then show ?thesis
    using loaned True
    by (auto simp: rmw_publish_loaned_message_def here_lookup [OF state_here [OF assms]] post_bind
      erase_loan_here [OF state_here [OF assms]] destroy_ros_message_def deallocate_def elim!: post_mono)
next
  case False
  note D = publisher_stateD [OF assms]
  have "m \<noteq> nullptr \<Longrightarrow> m \<notin> pub_loaned i" using False D(7) by auto
  with False D(2) show ?thesis
    by (auto simp: rmw_publish_loaned_message_def here_lookup [OF state_here [OF assms]]
      erase_loan_here [OF state_here [OF assms]] erase_nothing store_same)
qed

section \<open>Events of the publisher\<close>

text \<open>The functions on events change neither the guards nor anything that is not an event's.\<close>

definition same_owner :: "publisher_impl \<Rightarrow> publisher_impl \<Rightarrow> bool" where
  "same_owner i i' \<longleftrightarrow> pub_context i' = pub_context i \<and> pub_writer i' = pub_writer i \<and>
     pub_topic i' = pub_topic i \<and> rtps_guid i' = rtps_guid i \<and> pub_callbacks i' = pub_callbacks i \<and>
     pub_loaned i' = pub_loaned i \<and> event_guards i' = event_guards i"

lemma same_owner_refl [simp]: "same_owner i i"
  by (simp add: same_owner_def)

lemma read_status_owner: "same_owner i (snd (publisher_read_status dds i type))"
  by (cases type) (simp_all add: publisher_read_status_def same_owner_def split_beta)

lemma count_locked_owner: "same_owner i (fst (snd (snd (count_events_locked type n i))))"
  by (simp add: count_events_locked_def Let_def same_owner_def)

lemma reset_owner: "same_owner i (fst (reset_event type i))"
  by (simp add: reset_event_def Let_def same_owner_def)

lemma output_owner: "same_owner i (snd (publisher_output ids type i))"
  by (cases type) (simp_all add: publisher_output_def same_owner_def)

lemma same_owner_trans: "same_owner i j \<Longrightarrow> same_owner j k \<Longrightarrow> same_owner i k"
  by (simp add: same_owner_def)

lemma take_owner: "same_owner i (fst (snd (publisher_take ids dds type i)))"
  using read_status_owner [of i dds type] same_owner_trans [OF same_owner_trans [OF read_status_owner output_owner] reset_owner]
  by (simp add: publisher_take_def split_beta Let_def)

lemma listener_owner: "same_owner i (fst (publisher_listener type dds i))"
  using read_status_owner [of i dds type] same_owner_trans [OF read_status_owner count_locked_owner]
  by (simp add: publisher_listener_def on_counted_status_def on_status_def split_beta Let_def)

lemma matched_owner: "same_owner i (fst (snd (publisher_count_matched dds i)))"
  using read_status_owner [of i dds RMW_EVENT_PUBLICATION_MATCHED]
    same_owner_trans [OF read_status_owner count_locked_owner]
  by (simp add: publisher_count_matched_def read_matched_count_def split_beta Let_def)

lemma callback_owner: "same_owner i (fst (set_callback type f data i))"
  by (simp add: set_callback_def after_set_callback_def store_callback_def Let_def same_owner_def)

lemma init_count_owner:
  "same_owner i (fst (init_count (\<lambda>i. publisher_read_status dds i type) publisher_untaken type i))"
  using read_status_owner [of i dds type] by (simp add: init_count_def split_beta Let_def same_owner_def)

lemma run_effects_keeps: "keeps_memory w (snd (run_effects E entity xs w))"
proof (induction xs arbitrary: w)
  case (Cons y xs)
  have "keeps_memory w (snd (run_effect E entity y w))"
    by (cases y) (simp_all add: call_dds_def)
  with Cons show ?case by (auto simp: split_beta intro: keeps_trans)
qed simp

lemma status_keeps: "keeps_memory w (snd (writer_status_now E p w))"
  by (simp add: writer_status_now_def)

text \<open>The step all of them make: the object is stored and the effects are run.\<close>

lemma state_effects:
  assumes "publisher_state ci c p x i L h e w" "same_owner i i'" "keeps_memory w w'"
  shows "\<exists>j. publisher_state ci c p x j L h e
    (snd (run_effects E entity xs (store (at_impl x) (PublisherImpl i') w')))"
proof -
  have "publisher_state ci c p x i' L h e (store (at_impl x) (PublisherImpl i') w')"
    using assms(2) publisher_stateD(9) [OF assms(1)]
    by (intro state_update [OF state_keeps [OF assms(1,3)]]) (simp_all add: same_owner_def fits_parts_def)
  from state_keeps [OF this run_effects_keeps] show ?thesis by blast
qed

text \<open>A handle of one of this publisher's events.\<close>

definition its_event :: "ptr \<Rightarrow> ptr \<Rightarrow> world \<Rightarrow> bool" where
  "its_event p event w \<longleftrightarrow> (\<exists>ev hd. event \<noteq> nullptr \<and> heap w event = Some (EventHandle ev) \<and>
     heap w p = Some (PublisherHandle hd) \<and> event_data ev = handle_data hd \<and>
     event_identifier ev = ZzddsIdentifier \<and> publisher_event (event_type ev))"

lemma its_eventD:
  assumes "its_event p event w" "publisher_here p x i w"
  obtains ev where "event \<noteq> nullptr" "event_at event w = Some ev" "event_data ev = at_impl x"
    "event_identifier ev = ZzddsIdentifier" "publisher_event (event_type ev)" "at_impl x \<noteq> nullptr"
  using assms unfolding its_event_def publisher_here_def
  by (auto simp: event_at_iff publisher_handle_def)

lemma take_event_state:
  assumes "publisher_state ci c p x i L h e w" "its_event p event w"
  shows "post (rmw_take_event ids E event out w) (\<lambda>(_, w'). \<exists>i'. publisher_state ci c p x i' L h e w')"
proof -
  obtain ev where ev: "event \<noteq> nullptr" "event_at event w = Some ev" "event_data ev = at_impl x"
    "event_identifier ev = ZzddsIdentifier" "publisher_event (event_type ev)" "at_impl x \<noteq> nullptr"
    using its_eventD [OF assms(2) state_here [OF assms(1)]] .
  show ?thesis
    using ev assms(1)
    by (auto simp: rmw_take_event_def here_lookup [OF state_here [OF assms(1)]] split_beta Let_def
      intro!: state_effects [OF assms(1) take_owner status_keeps])
qed

lemma event_callback_state:
  assumes "publisher_state ci c p x i L h e w" "its_event p event w"
  shows "post (rmw_event_set_callback E event f data w) (\<lambda>(_, w'). \<exists>i'. publisher_state ci c p x i' L h e w')"
proof -
  obtain ev where ev: "event \<noteq> nullptr" "event_at event w = Some ev" "event_data ev = at_impl x"
    "event_identifier ev = ZzddsIdentifier" "publisher_event (event_type ev)" "at_impl x \<noteq> nullptr"
    using its_eventD [OF assms(2) state_here [OF assms(1)]] .
  show ?thesis
    using ev
    by (auto simp: rmw_event_set_callback_def here_lookup [OF state_here [OF assms(1)]] split_beta Let_def
      intro!: state_effects [OF assms(1) callback_owner keeps_memory_refl])
qed

lemma listener_state:
  assumes "publisher_state ci c p x i L h e w"
  shows "post (writer_listener_call E (at_impl x) type w) (\<lambda>w'. \<exists>i'. publisher_state ci c p x i' L h e w')"
  by (auto simp: writer_listener_call_def here_lookup [OF state_here [OF assms]] split_beta Let_def
    intro!: state_effects [OF assms listener_owner status_keeps])

lemma count_matched_state:
  assumes "publisher_state ci c p x i L h e w"
  shows "post (rmw_publisher_count_matched_subscriptions E p out w)
    (\<lambda>(_, w'). \<exists>i'. publisher_state ci c p x i' L h e w')"
  using assms
  by (auto simp: rmw_publisher_count_matched_subscriptions_def here_lookup [OF state_here [OF assms]]
    split_beta Let_def intro!: state_effects [OF assms matched_owner status_keeps])

text \<open>Initialising an event adds at most one guard condition to what the publisher owns.\<close>

lemma event_types_known: "publisher_event type \<Longrightarrow> type \<in> set all_event_types \<and> event_mask type \<noteq> {}"
  by (cases type) (simp_all add: publisher_event_def all_event_types_def)

lemma init_guard_state:
  assumes "publisher_state ci c p x i L h e w" "type \<in> set all_event_types"
    and "(if event_guards i type = nullptr then create E GuardConditionEntity plain w else (nullptr, w)) = (g, w1)"
    and "init_guard g type i = (present, i1)"
  shows "publisher_state ci c p x i1 L h e (store (at_impl x) (PublisherImpl i1) w1)"
    "heap w1 = heap w"
proof -
  note D = publisher_stateD [OF assms(1)]
  show "heap w1 = heap w"
    using assms(3) by (auto simp: create_def call_ok_def Let_def split: if_splits)
  show "publisher_state ci c p x i1 L h e (store (at_impl x) (PublisherImpl i1) w1)"
  proof (cases "event_guards i type = nullptr \<and> g \<noteq> nullptr")
    case True
    then have w1: "w1 = (record_call (Create GuardConditionEntity plain) w)\<lparr>next_ptr := next_ptr w + 1,
        entities := add_mset (GuardConditionEntity, g) (entities w)\<rparr>" "g \<noteq> nullptr"
      using assms(3) by (auto simp: create_def call_ok_def Let_def split: if_splits)
    have "i1 = i\<lparr>event_guards := (event_guards i)(type := g)\<rparr>"
      using True assms(4) by (simp add: init_guard_def)
    then show ?thesis
      using state_guard [OF assms(1,2) conjunct1 [OF True] w1(2), of w1] D(8) w1(1)
      by (simp add: wf_world_def)
  next
    case False
    then have "i1 = i \<or> (event_guards i type = nullptr \<and> i1 = i\<lparr>event_guards := (event_guards i)(type := nullptr)\<rparr>)"
      using assms(4) by (auto simp: init_guard_def Let_def split: if_splits)
    then have "i1 = i" by (auto intro!: publisher_impl.equality)
    moreover have "keeps_memory w w1"
      using False assms(3) D(8) by (auto simp: create_def call_ok_def Let_def wf_world_def split: if_splits)
    ultimately show ?thesis
      using state_update [OF state_keeps [OF assms(1)], of w1 i] D(9) by simp
  qed
qed

lemma event_init_state:
  assumes "publisher_state ci c p x i L h e w"
    and "event = nullptr \<or> heap w event = Some (EventHandle old)"
  shows "post (rmw_publisher_event_init E event p type w) (\<lambda>(_, w'). \<exists>i' h'.
    publisher_state ci c p x i' L h' e w' \<and> (h' = h \<or> (\<exists>new. h event = Some (EventHandle old) \<and>
      h' = h(event \<mapsto> EventHandle new))))"
proof (cases "event = nullptr \<or> \<not> publisher_event type \<or> event_identifier old \<noteq> NullIdentifier \<or>
    event_data old \<noteq> nullptr \<or> event_type old \<noteq> RMW_EVENT_INVALID")
  case True
  then have "\<exists>ret. rmw_publisher_event_init E event p type w = Some (ret, w)"
    using assms(2) publisher_stateD(3,4) [OF assms(1)]
    by (auto simp: rmw_publisher_event_init_def initialize_event_at_def event_at_def
      here_lookup [OF state_here [OF assms(1)]] publisher_handle_def)
  then obtain ret where "rmw_publisher_event_init E event p type w = Some (ret, w)" by blast
  with assms(1) show ?thesis by (simp del: split_paired_Ex) blast
next
  case False
  note D = publisher_stateD [OF assms(1)]
  obtain g w1 where g: "(if event_guards i type = nullptr then create E GuardConditionEntity plain w else (nullptr, w)) = (g, w1)"
    by (cases "if event_guards i type = nullptr then create E GuardConditionEntity plain w else (nullptr, w)")
  obtain present i1 where i1: "init_guard g type i = (present, i1)" by (cases "init_guard g type i")
  have known: "type \<in> set all_event_types" "event_mask type \<noteq> {}" "event \<noteq> nullptr"
    and old: "heap w event = Some (EventHandle old)"
    using False assms(2) event_types_known by auto
  note S = init_guard_state [OF assms(1) known(1) g i1]
  let ?w1 = "store (at_impl x) (PublisherImpl i1) w1"
  have ev: "heap ?w1 event = Some (EventHandle old)"
    using old D(2) S(2) by auto
  obtain installed w2 where w2: "run_effects E (pub_writer i1) (apply_publisher_listener i1) ?w1 = (installed, w2)"
    by (cases "run_effects E (pub_writer i1) (apply_publisher_listener i1) ?w1")
  have k2: "keeps_memory ?w1 w2" using run_effects_keeps [of ?w1 E "pub_writer i1" "apply_publisher_listener i1"] w2 by simp
  note S2 = state_keeps [OF S(1) k2]
  let ?now = "fst (writer_status_now E (pub_writer i1) w2)"
  let ?c = "init_count (\<lambda>i. publisher_read_status ?now i type) publisher_untaken type i1"
  let ?w3 = "snd (run_effects E (pub_writer (fst ?c)) (snd ?c)
      (store (at_impl x) (PublisherImpl (fst ?c)) (snd (writer_status_now E (pub_writer i1) w2))))"
  obtain j where S3: "publisher_state ci c p x j L h e ?w3"
    using state_effects [OF S2 init_count_owner status_keeps] by blast
  have "heap ?w3 event = Some (EventHandle old)"
    using ev k2 run_effects_keeps [of "store (at_impl x) (PublisherImpl (fst ?c)) (snd (writer_status_now E (pub_writer i1) w2))"
        E "pub_writer (fst ?c)" "snd ?c"] status_keeps [of w2 E "pub_writer i1"] D(2) old
    by (auto simp: keeps_memory_def)
  note S4 = state_event [OF S3 this]
  show ?thesis
    using False g i1 w2 known old D(3,4)
    by (simp add: rmw_publisher_event_init_def initialize_event_at_def event_at_def
      here_lookup [OF state_here [OF assms(1)]] publisher_handle_def split_beta Let_def)
      (intro conjI impI; blast intro: S(1) S2 S4)
qed

section \<open>Destroying it from this state\<close>

lemma destroy_guards_list:
  assumes "sum_list (map (\<lambda>t. if guards t \<noteq> nullptr then {#(GuardConditionEntity, guards t)#} else {#}) ts)
      + es = entities w"
  shows "\<exists>w'. destroy_guards (map guards ts) w = Some w' \<and> heap w' = heap w \<and> next_ptr w' = next_ptr w \<and>
    entities w' = es"
  using assms
proof (induction ts arbitrary: w)
  case (Cons t ts)
  show ?case
  proof (cases "guards t = nullptr")
    case False
    then have "entities w = add_mset (GuardConditionEntity, guards t)
        (sum_list (map (\<lambda>t. if guards t \<noteq> nullptr then {#(GuardConditionEntity, guards t)#} else {#}) ts) + es)"
      using Cons.prems by simp
    with False Cons.IH [of "record_call (Delete GuardConditionEntity (guards t))
        (w\<lparr>entities := entities w - {#(GuardConditionEntity, guards t)#}\<rparr>)"]
    show ?thesis by (simp add: destroy_def)
  qed (use Cons in simp)
qed simp

lemma given_cleanup_events [step]:
  assumes "\<And>w'. given h e rs w' (f w') Q"
  shows "given h (e + guard_entities guards) rs w (Option.bind (cleanup_endpoint_events guards w) f) Q"
proof -
  have "\<exists>w'. cleanup_endpoint_events guards w = Some w' \<and> ledger h e rs w'"
    if "ledger h (e + guard_entities guards) rs w"
    using that destroy_guards_list [of guards all_event_types "e + claimed rs" w]
    by (auto simp: cleanup_endpoint_events_def guard_entities_def ledger_def wf_world_def ac_simps)
  then show ?thesis using assms by (auto simp: given_def)
qed

definition drop_all :: "ptr set \<Rightarrow> (ptr \<Rightarrow> object option) \<Rightarrow> ptr \<Rightarrow> object option" where
  "drop_all S h = (\<lambda>q. if q \<in> S then None else h q)"

lemma claim_without:
  assumes "fits h rs" "\<And>m. m \<in> S \<Longrightarrow> h m \<noteq> None"
  shows "fits (drop_all S h) rs \<and> claim rs (drop_all S h) = drop_all S (claim rs h)"
  using assms unfolding drop_all_def
proof (induction rs h rule: claim.induct)
  case (2 p x rs h)
  then have "p \<noteq> nullptr \<Longrightarrow> p \<notin> S" using claim_old by fastforce
  with 2 show ?case by (auto simp: fun_eq_iff)
qed auto

lemma given_destroy_loans [step]:
  assumes "\<And>m. m \<in> S \<Longrightarrow> h m \<noteq> None"
    and "\<And>w'. given (drop_all S h) e rs w' (f w') Q"
  shows "given h e rs w (Option.bind (destroy_loans S w) f) Q"
proof -
  have "\<exists>w'. destroy_loans S w = Some w' \<and> ledger (drop_all S h) e rs w'"
    if l: "ledger h e rs w"
  proof -
    have "heap w m \<noteq> None" if "m \<in> S" for m using ledger_old [OF l] assms(1) [OF that] by auto
    then show ?thesis
      using l claim_without [of h rs S] assms(1)
      by (auto simp: destroy_loans_def ledger_def wf_world_def drop_all_def)
  qed
  then show ?thesis using assms(2) by (auto simp: given_def)
qed

lemma drop_all_update [simp]: "ci \<notin> S \<Longrightarrow> drop_all S (h(ci := y)) = (drop_all S h)(ci := y)"
  by (auto simp: drop_all_def)

lemma drop_all_lending: "dom L = S \<Longrightarrow> (\<And>m. m \<in> S \<Longrightarrow> h m = None) \<Longrightarrow> drop_all S (lending h L) = h"
  by (auto simp: drop_all_def fun_eq_iff lending_def domIff split: option.splits)

lemma teardown_state:
  assumes s: "publisher_state ci c p x i L h e w"
    and "deletes_succeed E" "p \<notin> publishers c"
    and "h (node_name nh) = Some (CString name)" "h (node_namespace nh) = Some (CString namespace)"
  shows "post (teardown_publisher E nh p (publisher_handle x) i w)
    (\<lambda>(ret, w'). ret = RMW_RET_OK \<and> ledger h e [] w')"
proof -
  note D = publisher_stateD [OF s]
  have nz: "at_name x \<noteq> nullptr" "its_writer x \<noteq> nullptr" "its_topic x \<noteq> nullptr"
      "its_guid x \<notin> local_publication_guids c"
    and i: "pub_context i = ci" "pub_writer i = its_writer x" "pub_topic i = its_topic x" "rtps_guid i = its_guid x"
    and L: "\<And>m. m \<in> pub_loaned i \<Longrightarrow> h m = None"
    using s by (auto simp: publisher_state_def proper_parts_def fits_parts_def)
  have ci: "ci \<notin> pub_loaned i" using D(10) L by fastforce
  have sep: "node_name nh \<noteq> ci" "node_namespace nh \<noteq> ci" using D(10) assms(4,5) by auto
  have names: "lending h L (node_name nh) = Some (CString name)"
      "lending h L (node_namespace nh) = Some (CString namespace)"
    using lending_old assms(4,5) L D(7) by simp_all
  have old: "\<exists>y. lending h L m = Some y" if "m \<in> pub_loaned i" for m
  proof -
    have "m \<in> dom L" "m \<noteq> ci" using that D(7) ci by auto
    then show ?thesis by (auto simp: lending_def)
  qed
  have "given ((lending h L)(ci \<mapsto> ContextImpl (with_publisher p (its_guid x) c)))
      (e + guard_entities (event_guards i)) (publisher_base p x i) w
    (teardown_publisher E nh p (publisher_handle x) i w)
    (\<lambda>(ret, w'). ret = RMW_RET_OK \<and> ledger h e [] w')"
    unfolding teardown_publisher_def remove_publisher_from_graph_def publisher_base_def
    unfolding i publisher_handle_def endpoint_handle.select_convs
    using nz names sep assms(2) ci
    apply (intro step)
    apply (simp_all add: fun_upd_idem erase_with_publisher assms(3) old drop_all_lending [OF D(7) L] D(10))
    done
  with D(12) show ?thesis by (simp add: given_def)
qed

text \<open>Besides the publisher only event handles change.\<close>

definition same_but_events :: "(ptr \<Rightarrow> object option) \<Rightarrow> (ptr \<Rightarrow> object option) \<Rightarrow> bool" where
  "same_but_events h h' \<longleftrightarrow>
     (\<forall>q. h' q = h q \<or> (\<exists>a b. h q = Some (EventHandle a) \<and> h' q = Some (EventHandle b)))"

lemma same_but_events_refl [simp]: "same_but_events h h"
  by (simp add: same_but_events_def)

lemma same_but_events_upd:
  "same_but_events h h' \<Longrightarrow> h' event = Some (EventHandle old) \<Longrightarrow>
   same_but_events h (h'(event \<mapsto> EventHandle new))"
  unfolding same_but_events_def by (metis fun_upd_apply)

lemma same_but_eventsD:
  "same_but_events h h' \<Longrightarrow> h q = Some y \<Longrightarrow> (\<And>a. y \<noteq> EventHandle a) \<Longrightarrow> h' q = Some y"
  "same_but_events h h' \<Longrightarrow> h q = None \<Longrightarrow> h' q = None"
  unfolding same_but_events_def by (metis option.inject, metis option.distinct(1))

lemma state_outside:
  assumes "publisher_state ci c p x i L h e w" "h q = Some y" "q \<noteq> ci"
  shows "heap w q = Some y"
proof -
  note D = publisher_stateD [OF assms(1)]
  have "\<forall>m \<in> dom L. h m = None" using assms(1) by (simp add: publisher_state_def)
  from lending_old [OF assms(2) this] show ?thesis
    using assms(3) by (intro ledger_old [OF D(12)]) simp
qed

lemma destroy_state:
  assumes "live_node node nh context ci c w0" "deletes_succeed E" "p \<notin> publishers c"
    and "same_but_events (heap w0) h" "publisher_state ci c p x i L h e w"
  shows "post (rmw_destroy_publisher E node p w) (\<lambda>(ret, w').
    ret = RMW_RET_OK \<and> heap w' = h \<and> entities w' = e)"
proof -
  note N = live_nodeD [OF assms(1)] note L = live_contextD [OF N(1)]
  note D = publisher_stateD [OF assms(5)]
  note S = same_but_eventsD(1) [OF assms(4)]
  obtain name namespace where names: "h (node_name nh) = Some (CString name)"
    "h (node_namespace nh) = Some (CString namespace)"
    using N(8,9) S by fastforce
  obtain x0 where ctx: "heap w0 context = Some (Context \<lparr>context_identifier = ZzddsIdentifier, context_impl_ptr = ci,
      settings = x0\<rparr>)"
    using L(4) by blast
  have "node \<noteq> ci" "node_data nh \<noteq> ci" "context \<noteq> ci" using N L by auto
  then have "heap w context = heap w0 context" "heap w node = heap w0 node"
    "heap w (node_data nh) = heap w0 (node_data nh)"
    using state_outside [OF assms(5)] S N L ctx by simp_all
  moreover have "pub_context i = ci" using D(9) by (simp add: fits_parts_def)
  ultimately have "rmw_destroy_publisher E node p w =
      teardown_publisher E nh p (publisher_handle x) i w"
    using N L ctx D(1-4)
    by (simp add: rmw_destroy_publisher_def valid_node_def publisher_at_def node_handle_at_def
        context_at_def publisher_impl_at_def node_impl_at_def publisher_handle_def)
  then show ?thesis
    using teardown_state [OF assms(5,2,3) names] by (auto elim!: post_mono dest: ledger_empty)
qed

end
