(* ===== verification/Publisher_Session.thy ===== *)
theory Publisher_Session
  imports Publisher_State
begin

text \<open>
  Sessions: sequences of operations on a publisher between its creation and its destruction, the
  abstract view of its loans, and what publishing writes.
\<close>

section \<open>A session\<close>

text \<open>
  The operations between creation and destruction: those of the client and, with the writer's
  listener, of zzdds. \<open>WriteLoan\<close> is the client's own write to a message it borrowed.
\<close>

datatype publisher_op =
    Publish ptr
  | PublishSerialized ptr
  | Borrow "message_ts option" "ptr option"
  | ReturnLoan ptr
  | PublishLoan ptr
  | WriteLoan ptr ros_value
  | WaitAcked rmw_time
  | ActualQos bool
  | Gid bool
  | CountMatched bool
  | InitEvent ptr rmw_event_type
  | TakeEvent ptr bool
  | EventCallback ptr ptr ptr
  | Listener rmw_event_type

definition loaned_messages :: "ptr \<Rightarrow> world \<Rightarrow> ptr set" where
  "loaned_messages p w =
     (case Option.bind (publisher_at p w) (\<lambda>hd. publisher_impl_at (handle_data hd) w) of
        None \<Rightarrow> {} | Some i \<Rightarrow> pub_loaned i)"

fun valid_op :: "ptr \<Rightarrow> publisher_op \<Rightarrow> world \<Rightarrow> bool" where
  "valid_op p (Publish m) w \<longleftrightarrow> valid_message m w"
| "valid_op p (PublishSerialized m) w \<longleftrightarrow> valid_buffer m w"
| "valid_op p (WriteLoan m v) w \<longleftrightarrow> m \<in> loaned_messages p w"
| "valid_op p (InitEvent event type) w \<longleftrightarrow> event = nullptr \<or> event_at event w \<noteq> None"
| "valid_op p (TakeEvent event out) w \<longleftrightarrow> its_event p event w"
| "valid_op p (EventCallback event f data) w \<longleftrightarrow> its_event p event w"
| "valid_op p _ w \<longleftrightarrow> True"

fun run_op :: "dds_policy_ids \<Rightarrow> env \<Rightarrow> ptr \<Rightarrow> publisher_op \<Rightarrow> world \<Rightarrow> world option" where
  "run_op ids E p (Publish m) w = map_option snd (rmw_publish E p m w)"
| "run_op ids E p (PublishSerialized m) w = map_option snd (rmw_publish_serialized_message E p m w)"
| "run_op ids E p (Borrow ts out) w = map_option snd (rmw_borrow_loaned_message E p ts out w)"
| "run_op ids E p (ReturnLoan m) w = map_option snd (rmw_return_loaned_message_from_publisher p m w)"
| "run_op ids E p (PublishLoan m) w = map_option snd (rmw_publish_loaned_message E p m w)"
| "run_op ids E p (WriteLoan m v) w = Some (store m (RosMessage v) w)"
| "run_op ids E p (WaitAcked t) w = map_option snd (rmw_publisher_wait_for_all_acked E p t w)"
| "run_op ids E p (ActualQos out) w = map_option snd (rmw_publisher_get_actual_qos p out w)"
| "run_op ids E p (Gid out) w = map_option snd (rmw_get_gid_for_publisher E p out w)"
| "run_op ids E p (CountMatched out) w = map_option snd (rmw_publisher_count_matched_subscriptions E p out w)"
| "run_op ids E p (InitEvent event type) w = map_option snd (rmw_publisher_event_init E event p type w)"
| "run_op ids E p (TakeEvent event out) w = map_option snd (rmw_take_event ids E event out w)"
| "run_op ids E p (EventCallback event f data) w = map_option snd (rmw_event_set_callback E event f data w)"
| "run_op ids E p (Listener type) w =
     Option.bind (publisher_at p w) (\<lambda>hd. writer_listener_call E (handle_data hd) type w)"

fun run_session :: "dds_policy_ids \<Rightarrow> env \<Rightarrow> ptr \<Rightarrow> publisher_op list \<Rightarrow> world \<Rightarrow> world option" where
  "run_session ids E p [] w = Some w"
| "run_session ids E p (x # xs) w = Option.bind (run_op ids E p x w) (run_session ids E p xs)"

text \<open>The client passes valid arguments to each operation, in the state it runs in.\<close>

fun valid_session :: "dds_policy_ids \<Rightarrow> env \<Rightarrow> ptr \<Rightarrow> publisher_op list \<Rightarrow> world \<Rightarrow> bool" where
  "valid_session ids E p [] w \<longleftrightarrow> True"
| "valid_session ids E p (x # xs) w \<longleftrightarrow>
     valid_op p x w \<and> (case run_op ids E p x w of None \<Rightarrow> True | Some w' \<Rightarrow> valid_session ids E p xs w')"

text \<open>
  An operation with what it gives the client: of the operations on loans the return code and the
  borrowed message.
\<close>

fun perform ::
  "dds_policy_ids \<Rightarrow> env \<Rightarrow> ptr \<Rightarrow> publisher_op \<Rightarrow> world \<Rightarrow> (rmw_ret \<times> ptr option) option result" where
  "perform ids E p (Borrow ts out) w =
     map_option (\<lambda>(r, w). (Some r, w)) (rmw_borrow_loaned_message E p ts out w)"
| "perform ids E p (ReturnLoan m) w =
     map_option (\<lambda>(ret, w). (Some (ret, None), w)) (rmw_return_loaned_message_from_publisher p m w)"
| "perform ids E p (PublishLoan m) w =
     map_option (\<lambda>(ret, w). (Some (ret, None), w)) (rmw_publish_loaned_message E p m w)"
| "perform ids E p y w = map_option (Pair None) (run_op ids E p y w)"

lemma perform_runs: "run_op ids E p y w = map_option snd (perform ids E p y w)"
  by (cases y) (simp_all add: option.map_comp o_def split_beta option.map_ident)

text \<open>
  The abstract view of the loans: the set of messages on loan. Borrowing gives and adds a message that
  was not in it, or fails and leaves it alone; returning succeeds exactly for a message on loan, which
  it takes out; publishing takes it out whatever the result, and fails for any other; no other
  operation changes the set.
\<close>

fun loan_step :: "publisher_op \<Rightarrow> (rmw_ret \<times> ptr option) option \<Rightarrow> ptr set \<Rightarrow> ptr set \<Rightarrow> bool" where
  "loan_step (Borrow ts out) (Some (ret, m)) S S' \<longleftrightarrow>
     (case m of
        Some q \<Rightarrow> ret = RMW_RET_OK \<and> q \<notin> S \<and> S' = insert q S
      | None \<Rightarrow> ret \<noteq> RMW_RET_OK \<and> S' = S)"
| "loan_step (ReturnLoan m) (Some (ret, q)) S S' \<longleftrightarrow>
     (ret = RMW_RET_OK \<longleftrightarrow> m \<in> S) \<and> S' = S - {m}"
| "loan_step (PublishLoan m) (Some (ret, q)) S S' \<longleftrightarrow>
     (m \<notin> S \<longrightarrow> ret \<noteq> RMW_RET_OK) \<and> S' = S - {m}"
| "loan_step _ r S S' \<longleftrightarrow> r = None \<and> S' = S"

definition session_state ::
  "ptr \<Rightarrow> context_impl \<Rightarrow> ptr \<Rightarrow> (ptr \<Rightarrow> object option) \<Rightarrow> (entity_kind \<times> ptr) multiset \<Rightarrow> ptr set \<Rightarrow> world \<Rightarrow> bool"
  where
  "session_state ci c p h e S w \<longleftrightarrow>
     (\<exists>x i L h'. same_but_events h h' \<and> publisher_state ci c p x i L h' e w \<and> dom L = S)"

lemma session_stateI:
  "same_but_events h h' \<Longrightarrow> publisher_state ci c p x i L h' e w \<Longrightarrow> dom L = S \<Longrightarrow>
   session_state ci c p h e S w"
  unfolding session_state_def by blast

lemma session_state_loans:
  assumes "session_state ci c p h e S w"
  shows "loaned_messages p w = S" "m \<in> S \<Longrightarrow> \<exists>v. heap w m = Some (RosMessage v)"
proof -
  obtain x i L h' where s: "publisher_state ci c p x i L h' e w" and L: "dom L = S"
    using assms unfolding session_state_def by blast
  show "loaned_messages p w = S"
    using L publisher_stateD(7) [OF s]
    by (simp add: loaned_messages_def here_lookup [OF state_here [OF s]])
  show "\<exists>v. heap w m = Some (RosMessage v)" if "m \<in> S"
    using that L state_loan(1) [OF s] by auto
qed

text \<open>Progress and preservation for each operation.\<close>

lemma run_op_state:
  assumes "session_state ci c p h e S w" "valid_op p y w"
  shows "post (perform ids E p y w) (\<lambda>(r, w'). \<exists>S'. loan_step y r S S' \<and> session_state ci c p h e S' w')"
proof -
  obtain x i L h' where S: "same_but_events h h'" and s: "publisher_state ci c p x i L h' e w" and L: "dom L = S"
    using assms(1) unfolding session_state_def by blast
  note I = session_stateI [OF S] note H = state_here [OF s]
  let ?P = "\<lambda>(r, w'). \<exists>S'. loan_step y r S S' \<and> session_state ci c p h e S' w'"
  have map: "post (map_option (Pair None) (map_option snd m)) ?P \<longleftrightarrow> post m (\<lambda>(_, w'). ?P (None, w'))"
    for m :: "('r \<times> world) option"
    by (cases m) auto
  have keep: "post m (\<lambda>(_, w'). ?P (None, w'))"
    if "loan_step y None S S" "post m (\<lambda>(_, w'). keeps_memory w w')" for m :: "('r \<times> world) option"
    using that(2) by (rule post_mono) (use that(1) in \<open>auto intro: I [OF _ L] state_keeps [OF s]\<close>)
  have change: "post m (\<lambda>(_, w'). ?P (None, w'))"
    if "loan_step y None S S" "post m (\<lambda>(_, w'). \<exists>i'. publisher_state ci c p x i' L h' e w')" for m :: "('r \<times> world) option"
    using that(2) by (rule post_mono) (use that(1) in \<open>auto intro: I [OF _ L]\<close>)
  have null: "nullptr \<notin> S"
    using state_loan(1) [OF s, of nullptr] wf_worldD [OF publisher_stateD(8) [OF s]] L by auto
  have taken: "session_state ci c p h e (S - {m}) w'"
    if "if m \<noteq> nullptr \<and> L m \<noteq> None then \<exists>i'. publisher_state ci c p x i' (L(m := None)) h' e w' else w' = w"
    for m w'
  proof (cases "m \<noteq> nullptr \<and> L m \<noteq> None")
    case True
    with that obtain i' where "publisher_state ci c p x i' (L(m := None)) h' e w'" by auto
    from I [OF this refl] True L show ?thesis by simp
  next
    case False
    then have "S - {m} = S" using null L by auto
    with False that I [OF s L] show ?thesis by auto
  qed
  have on_loan: "m \<in> S \<longleftrightarrow> m \<noteq> nullptr \<and> L m \<noteq> None" for m
    using null L by auto
  show ?thesis
  proof (cases y)
    case (Publish m)
    with assms(2) show ?thesis unfolding Publish perform.simps run_op.simps map [unfolded Publish]
      by (intro keep [unfolded Publish] publish_keeps [OF H]) simp_all
  next
    case (PublishSerialized m)
    with assms(2) show ?thesis unfolding PublishSerialized perform.simps run_op.simps map [unfolded PublishSerialized]
      by (intro keep [unfolded PublishSerialized] publish_serialized_keeps [OF H]) simp_all
  next
    case (Borrow ts out)
    have "post (rmw_borrow_loaned_message E p ts out w) (\<lambda>(r, w'). ?P (Some r, w'))"
    proof (rule post_mono [OF borrow_state [OF s, of E ts out]], clarify, elim disjE conjE exE)
      fix ret and m :: "ptr option" and w' assume "m = None" "ret \<noteq> RMW_RET_OK" "publisher_state ci c p x i L h' e w'"
      with Borrow I [OF this(3) L] show "\<exists>S'. loan_step y (Some (ret, m)) S S' \<and> session_state ci c p h e S' w'"
        by auto
    next
      fix ret and m :: "ptr option" and w' q v i'
      assume "m = Some q" "ret = RMW_RET_OK" "L q = None" "publisher_state ci c p x i' (L(q \<mapsto> v)) h' e w'"
      with Borrow L I [OF this(4), of "insert q S"]
      show "\<exists>S'. loan_step y (Some (ret, m)) S S' \<and> session_state ci c p h e S' w'"
        by (intro exI [of _ "insert q S"]) auto
    qed
    then show ?thesis
      by (cases "rmw_borrow_loaned_message E p ts out w") (auto simp: Borrow)
  next
    case (ReturnLoan m)
    have "post (rmw_return_loaned_message_from_publisher p m w) (\<lambda>(ret, w').
        (ret = RMW_RET_OK \<longleftrightarrow> m \<in> S) \<and> session_state ci c p h e (S - {m}) w')"
      by (rule post_mono [OF return_state [OF s]])
         (use taken [of m] on_loan [of m] in \<open>fastforce split: if_splits\<close>)
    then show ?thesis
      by (cases "rmw_return_loaned_message_from_publisher p m w") (auto simp: ReturnLoan)
  next
    case (PublishLoan m)
    have "post (rmw_publish_loaned_message E p m w) (\<lambda>(ret, w').
        (m \<notin> S \<longrightarrow> ret \<noteq> RMW_RET_OK) \<and> session_state ci c p h e (S - {m}) w')"
      by (rule post_mono [OF publish_loan_state [OF s]])
         (use taken [of m] on_loan [of m] in \<open>fastforce split: if_splits\<close>)
    then show ?thesis
      by (cases "rmw_publish_loaned_message E p m w") (auto simp: PublishLoan)
  next
    case (WriteLoan m v)
    with assms(2) obtain old where old: "L m = Some old"
      by (auto simp: session_state_loans [OF assms(1)] L [symmetric])
    then have "dom (L(m \<mapsto> v)) = S" using L by auto
    from I [OF state_write [OF s old] this] WriteLoan show ?thesis by auto
  next
    case (WaitAcked t)
    show ?thesis unfolding WaitAcked perform.simps run_op.simps map [unfolded WaitAcked]
      by (intro keep [unfolded WaitAcked] wait_acked_keeps [OF H]) simp
  next
    case (ActualQos out)
    show ?thesis unfolding ActualQos perform.simps run_op.simps map [unfolded ActualQos]
      by (intro keep [unfolded ActualQos] post_mono [OF actual_qos_keeps [OF H]]) auto
  next
    case (Gid out)
    show ?thesis unfolding Gid perform.simps run_op.simps map [unfolded Gid]
      by (intro keep [unfolded Gid] gid_keeps [OF H]) simp
  next
    case (CountMatched out)
    show ?thesis unfolding CountMatched perform.simps run_op.simps map [unfolded CountMatched]
      by (intro change [unfolded CountMatched] count_matched_state [OF s]) simp
  next
    case (InitEvent event type)
    then obtain old where "event = nullptr \<or> heap w event = Some (EventHandle old)"
      using assms(2) by (auto simp: event_at_iff)
    from event_init_state [OF s this, of E type] show ?thesis
      unfolding InitEvent perform.simps run_op.simps map [unfolded InitEvent]
      by (rule post_mono) (auto intro: I [OF _ L] session_stateI [OF _ _ L] same_but_events_upd [OF S])
  next
    case (TakeEvent event out)
    with assms(2) show ?thesis unfolding TakeEvent perform.simps run_op.simps map [unfolded TakeEvent]
      by (intro change [unfolded TakeEvent] take_event_state [OF s]) simp_all
  next
    case (EventCallback event f data)
    with assms(2) show ?thesis unfolding EventCallback perform.simps run_op.simps map [unfolded EventCallback]
      by (intro change [unfolded EventCallback] event_callback_state [OF s]) simp_all
  next
    case (Listener type)
    show ?thesis
      using listener_state [OF s, of E type] I [OF _ L]
      by (cases "writer_listener_call E (at_impl x) type w") (auto simp: Listener here_lookup [OF H])
  qed
qed

lemma run_session_state:
  "session_state ci c p h e S w \<Longrightarrow> valid_session ids E p xs w \<Longrightarrow>
   post (run_session ids E p xs w) (\<lambda>w'. \<exists>S'. session_state ci c p h e S' w')"
proof (induction xs arbitrary: S w)
  case (Cons y ys)
  then have "post (perform ids E p y w) (\<lambda>(r, w'). \<exists>S'. loan_step y r S S' \<and> session_state ci c p h e S' w')"
    by (intro run_op_state) auto
  with Cons show ?case by (cases "perform ids E p y w") (auto simp: perform_runs)
qed auto

text \<open>Every session that starts with a creation is in this state.\<close>

lemma created_session:
  assumes "publisher_ready E node nh context ci c w"
    and "\<And>p w1. rmw_create_publisher E node ts topic_name qos options w = Some (p, w1) \<Longrightarrow>
      valid_session ids E p ops w1"
  shows "post (rmw_create_publisher E node ts topic_name qos options w) (\<lambda>(p, w1).
    p \<noteq> nullptr \<longrightarrow> p \<notin> publishers c \<and> post (run_session ids E p ops w1) (\<lambda>w2.
      \<exists>S. session_state ci c p (heap w) (entities w) S w2))"
proof -
  obtain p w1 where made: "rmw_create_publisher E node ts topic_name qos options w = Some (p, w1)"
    and out: "if p = nullptr then ledger (heap w) (entities w) [] w1
      else publisher_created node ci c (heap w) (entities w) p w1"
    using create_publisher_outcome [OF assms(1), of ts topic_name qos options] by (simp add: post_ex) blast
  have live: "live_node node nh context ci c w" and fresh: "\<And>q. heap w q = None \<Longrightarrow> q \<notin> publishers c"
    using assms(1) by (auto simp: publisher_ready_def)
  have "p \<notin> publishers c \<and> post (run_session ids E p ops w1) (\<lambda>w2.
      \<exists>S. session_state ci c p (heap w) (entities w) S w2)" if "p \<noteq> nullptr"
  proof
    have created: "publisher_created node ci c (heap w) (entities w) p w1" using out that by simp
    have "heap w ci = Some (ContextImpl c)"
      using live_contextD(5) [OF live_nodeD(1) [OF live]] .
    from created_state [OF created this] obtain x i where
      s: "publisher_state ci c p x i (\<lambda>_. None) (heap w) (entities w) w1" by blast
    show "post (run_session ids E p ops w1) (\<lambda>w2. \<exists>S. session_state ci c p (heap w) (entities w) S w2)"
      using run_session_state [OF session_stateI [OF same_but_events_refl s refl] assms(2) [OF made]] .
    show "p \<notin> publishers c"
      using created that unfolding publisher_created_def
      by (intro fresh) (auto simp: ledger_def split: if_splits)
  qed
  with made show ?thesis by simp
qed

text \<open>
  C25. Whatever is done with a publisher between its creation and its destruction, it has defined
  behaviour and destroying the publisher leaves nothing behind. After any sequence of operations with
  valid arguments (publishing, loans that are never returned, events that are initialised, taken and
  given callbacks, listeners that fire), whichever of their calls to zzdds and the allocator fail,
  destruction succeeds; every entity is released once, and the heap is what it was before the
  creation, the client's own event handles excepted.
\<close>

theorem publisher_session_leaves_nothing:
  assumes "live_node node nh context ci c w" "\<forall>q \<in> publishers c. heap w q \<noteq> None"
    and "deletes_succeed E" "new_guids E (local_publication_guids c)"
    and "\<And>p w1. rmw_create_publisher E node ts topic_name qos options w = Some (p, w1) \<Longrightarrow>
      valid_session ids E p ops w1"
  shows "post (rmw_create_publisher E node ts topic_name qos options w) (\<lambda>(p, w1).
    p \<noteq> nullptr \<longrightarrow> post (run_session ids E p ops w1) (\<lambda>w2.
      post (rmw_destroy_publisher E node p w2) (\<lambda>(ret, w3).
        ret = RMW_RET_OK \<and> entities w3 = entities w \<and> same_but_events (heap w) (heap w3))))"
proof -
  have "publisher_ready E node nh context ci c w"
    using assms(1-4) by (simp add: publisher_ready_def)
  from created_session [OF this assms(5)] show ?thesis
    using destroy_state [OF assms(1,3)] unfolding session_state_def
    by (fastforce elim!: post_mono)
qed

definition example_ids :: dds_policy_ids where
  "example_ids = \<lparr>durability_id = 2, deadline_id = 4, liveliness_id = 8, reliability_id = 11,
     history_id = 13, lifespan_id = 10\<rparr>"

theorem publisher_session_leaves_nothing_witness:
  "post (rmw_create_publisher all_succeed 3 (Some byte_topic) (Some ''/chatter'') (Some example_profile)
      (Some \<lparr>require_unique = False\<rparr>) node_world) (\<lambda>(p, w1).
    p \<noteq> nullptr \<longrightarrow> post (run_session example_ids all_succeed p
        [Borrow (Some byte_topic) (Some nullptr), Borrow (Some byte_topic) (Some nullptr),
         PublishLoan 109, InitEvent nullptr RMW_EVENT_PUBLICATION_MATCHED,
         Listener RMW_EVENT_PUBLICATION_MATCHED, CountMatched True] w1) (\<lambda>w2.
      post (rmw_destroy_publisher all_succeed 3 p w2) (\<lambda>(ret, w3).
        ret = RMW_RET_OK \<and> entities w3 = entities node_world \<and>
        same_but_events (heap node_world) (heap w3))))"
  by (rule publisher_session_leaves_nothing [OF node_world_live])
     (simp_all add: empty_context_def deletes_succeed_def new_guids_def all_succeed_def split: option.split)

text \<open>
  C26. The registry of loans refines a set. At any point of a publisher's session, an operation with
  valid arguments has defined behaviour and is a step of the abstract view, return codes and borrowed
  messages included: borrowing gives a message exactly when it records one that was not on loan,
  returning succeeds exactly for a message on loan and takes it out, publishing takes its message out
  and fails for any other, the other operations leave the set alone. Every message on loan afterwards
  is still allocated.
\<close>

theorem loans_refine_a_set:
  assumes "live_node node nh context ci c w" "\<forall>q \<in> publishers c. heap w q \<noteq> None"
    and "deletes_succeed E" "new_guids E (local_publication_guids c)"
    and "\<And>p w1. rmw_create_publisher E node ts topic_name qos options w = Some (p, w1) \<Longrightarrow>
      valid_session ids E p ops w1"
  shows "post (rmw_create_publisher E node ts topic_name qos options w) (\<lambda>(p, w1).
    p \<noteq> nullptr \<longrightarrow> post (run_session ids E p ops w1) (\<lambda>w2.
      valid_op p y w2 \<longrightarrow> post (perform ids E p y w2) (\<lambda>(r, w3).
        loan_step y r (loaned_messages p w2) (loaned_messages p w3) \<and>
        (\<forall>m \<in> loaned_messages p w3. \<exists>v. heap w3 m = Some (RosMessage v)))))"
proof -
  have step: "post (perform ids E p y w2) (\<lambda>(r, w3).
        loan_step y r (loaned_messages p w2) (loaned_messages p w3) \<and>
        (\<forall>m \<in> loaned_messages p w3. \<exists>v. heap w3 m = Some (RosMessage v)))"
    if s: "session_state ci c p (heap w) (entities w) S w2" and "valid_op p y w2" for p S w2
    using session_state_loans(1) [OF s]
    by (intro post_mono [OF run_op_state [OF that]]) (auto simp: session_state_loans)
  have "publisher_ready E node nh context ci c w"
    using assms(1-4) by (simp add: publisher_ready_def)
  from created_session [OF this assms(5)] show ?thesis
    by (rule post_mono) (auto elim!: post_mono intro: step)
qed

theorem loans_refine_a_set_witness:
  "post (rmw_create_publisher all_succeed 3 (Some byte_topic) (Some ''/chatter'') (Some example_profile)
      (Some \<lparr>require_unique = False\<rparr>) node_world) (\<lambda>(p, w1).
    p \<noteq> nullptr \<longrightarrow> post (run_session example_ids all_succeed p [Borrow (Some byte_topic) (Some nullptr)] w1) (\<lambda>w2.
      valid_op p (PublishLoan 109) w2 \<longrightarrow> post (perform example_ids all_succeed p (PublishLoan 109) w2) (\<lambda>(r, w3).
        loan_step (PublishLoan 109) r (loaned_messages p w2) (loaned_messages p w3) \<and>
        (\<forall>m \<in> loaned_messages p w3. \<exists>v. heap w3 m = Some (RosMessage v)))))"
  by (rule loans_refine_a_set [OF node_world_live])
     (simp_all add: empty_context_def deletes_succeed_def new_guids_def all_succeed_def split: option.split)

section \<open>What is published\<close>

text \<open>
  The sample a message stands for: its key hash and its serialised bytes; \<open>None\<close> if it cannot be
  serialised, has no computable key, or is longer than a DDS sequence can be.
\<close>

definition sample_of :: "message_callbacks \<Rightarrow> ros_value \<Rightarrow> (uint8 list \<times> uint8 list) option" where
  "sample_of cb v = do {
     serialize \<leftarrow> serialize_fn cb;
     bytes \<leftarrow> (case serialize v None of (True, bytes) \<Rightarrow> Some bytes | (False, _) \<Rightarrow> None);
     key \<leftarrow> (if has_key cb then Option.bind (key_hash_fn cb) (\<lambda>f. f v) else Some (replicate 16 0));
     if length bytes \<le> UINT32_MAX then Some (key, bytes) else None }"

definition written :: "call list \<Rightarrow> call list" where
  "written t = [x \<leftarrow> t. case x of WriteRaw _ _ _ \<Rightarrow> True | _ \<Rightarrow> False]"

text \<open>
  C27. Publishing writes exactly the message. \<^verbatim>\<open>rmw_publish\<close> of a valid message on a live publisher
  changes no memory and keeps no entity. It writes one sample, with the bytes the type support
  serialises and the key it computes, if its CDR writer could be created and there is such a sample,
  and none otherwise; and it returns success exactly when that sample was written and zzdds took it.
\<close>

theorem publish_writes_message:
  assumes "publisher_here p x i w" "heap w m = Some (RosMessage v)" "m \<noteq> nullptr"
  shows "post (rmw_publish E p m w) (\<lambda>(ret, w').
    heap w' = heap w \<and> entities w' = entities w \<and>
    (case (if ok E (trace w) (Create CdrWriter plain) then sample_of (pub_callbacks i) v else None) of
       None \<Rightarrow> written (trace w') = written (trace w) \<and> ret \<noteq> RMW_RET_OK
     | Some (key, bytes) \<Rightarrow>
         written (trace w') = WriteRaw (pub_writer i) key bytes # written (trace w) \<and>
         (ret = RMW_RET_OK \<longleftrightarrow> dds_code E (Create CdrWriter plain # trace w)
            (WriteRaw (pub_writer i) key bytes) = DDS_RETCODE_OK)))"
proof -
  obtain f where f: "serialize_fn (pub_callbacks i) = Some f"
    using assms(1) by (auto simp: publisher_here_def complete_callbacks_def)
  have "next_ptr w \<noteq> nullptr" using assms(1) by (simp add: publisher_here_def wf_world_def)
  then show ?thesis
    using assms(2,3) f here_lookup [OF assms(1)]
    by (cases "ok E (trace w) (Create CdrWriter plain)"; cases "f v None"; cases "fst (f v None)";
        cases "key_hash_fn (pub_callbacks i)"; cases "the (key_hash_fn (pub_callbacks i)) v")
       (auto simp: rmw_publish_def create_def call_ok_def ros_message_at_def write_serialized_def
        sample_key_def sample_of_def call_dds_def destroy_def written_def Let_def)
qed

definition example_parts :: publisher_parts where
  "example_parts = \<lparr>at_name = 7, at_impl = 8, its_writer = 60, its_topic = 61, its_guid = replicate 16 7,
     its_topic_name = ''/chatter''\<rparr>"

definition example_publisher :: publisher_impl where
  "example_publisher = new_publisher_impl 2 3 61 60 byte_callbacks 9 example_profile"

definition publisher_world :: world where
  "publisher_world = node_world\<lparr>heap := (heap node_world)(9 \<mapsto> PublisherHandle (publisher_handle example_parts),
     8 \<mapsto> PublisherImpl example_publisher, 10 \<mapsto> RosMessage 5)\<rparr>"

lemma publisher_world_here: "publisher_here 9 example_parts example_publisher publisher_world"
  by (simp add: publisher_here_def publisher_world_def node_world_def small_world_def wf_world_def
    publisher_handle_def example_parts_def example_publisher_def)

theorem publish_writes_message_witness:
  "post (rmw_publish all_succeed 9 10 publisher_world) (\<lambda>(ret, w').
    ret = RMW_RET_OK \<and> written (trace w') = [WriteRaw 60 (replicate 16 0) [0, 1, 0, 0, 5]])"
proof -
  have five: "heap publisher_world 10 = Some (RosMessage 5)"
    by (simp add: publisher_world_def)
  have sample: "sample_of byte_callbacks 5 = Some (replicate 16 0, [0, 1, 0, 0, 5])"
    by (simp add: sample_of_def byte_callbacks_def UINT32_MAX_def)
  from publish_writes_message [OF publisher_world_here five, of all_succeed] sample show ?thesis
    by (auto elim!: post_mono simp: example_publisher_def new_publisher_impl_def all_succeed_def
      publisher_world_def node_world_def small_world_def written_def)
qed

end
