(* ===== verification/Subscription.thy ===== *)
theory Subscription
  imports Event_Api
begin

text \<open>
  Creating and destroying a subscription (\<^verbatim>\<open>rmw_data_plane.cpp\<close>). Every subscription reads through a
  content-filtered topic with a name of its own.
\<close>

section \<open>Content filters\<close>

text \<open>
  The options of a content filter: the expression and an array of parameters, whose entries and whose
  data pointer may be null; reading past the array is undefined.
\<close>

record filter_options =
  filter_expression :: "string option"
  parameter_count :: size_t
  parameter_data :: "string option list option"

record subscription_options =
  sub_require_unique :: bool
  sub_ignore_local :: bool
  content_filter_options :: "filter_options option"

text \<open>The defaults the layer creates its own endpoints with.\<close>

definition default_subscription_options :: subscription_options where
  "default_subscription_options =
     \<lparr>sub_require_unique = False, sub_ignore_local = False, content_filter_options = None\<rparr>"

text \<open>The loop over the parameters: \<open>Some None\<close> if one of them is null.\<close>

fun filter_parameters :: "nat \<Rightarrow> string option list \<Rightarrow> string list option option" where
  "filter_parameters 0 _ = Some (Some [])"
| "filter_parameters (Suc n) [] = None"
| "filter_parameters (Suc n) (None # ps) = Some None"
| "filter_parameters (Suc n) (Some s # ps) = map_option (map_option ((#) s)) (filter_parameters n ps)"

definition make_dds_string_seq :: "env \<Rightarrow> filter_options \<Rightarrow> world \<Rightarrow> string list option result" where
  "make_dds_string_seq E options w =
     (if filter_expression options = None \<or>
         (parameter_count options \<noteq> 0 \<and> parameter_data options = None) \<or>
         unat (parameter_count options) > 4294967295
      then Some (None, w)
      else let (room, w) = call_ok E GrowContainer w
      in if \<not> room then Some (None, w)
      else do {
        parameters \<leftarrow> filter_parameters (unat (parameter_count options))
                       (case parameter_data options of None \<Rightarrow> [] | Some ps \<Rightarrow> ps);
        Some (parameters, w) })"

text \<open>\<^verbatim>\<open>snprintf\<close> with \<^verbatim>\<open>%zu\<close>: decimal digits.\<close>

fun decimal :: "nat \<Rightarrow> string" where
  "decimal n = (if n < 10 then [char_of (48 + n)] else decimal (n div 10) @ [char_of (48 + n mod 10)])"

declare decimal.simps [simp del]

definition filter_name :: "size_t \<Rightarrow> string" where
  "filter_name i = ''rmw_zzdds_cft_'' @ decimal (unat i)"

definition count_filter :: "context_impl \<Rightarrow> context_impl" where
  "count_filter c = c\<lparr>next_content_filter_id := next_content_filter_id c + 1\<rparr>"

text \<open>From the name on: it is unique in the context, and has to fit its buffer of 64 characters.\<close>

definition name_filtered_topic :: "env \<Rightarrow> ptr \<Rightarrow> ptr \<Rightarrow> string \<Rightarrow> string list \<Rightarrow> world \<Rightarrow> ptr result" where
  "name_filtered_topic E ci topic expression parameters w = do {
     c \<leftarrow> context_impl_at ci w;
     w \<leftarrow> update_context count_filter ci w;
     if length (filter_name (next_content_filter_id c)) \<ge> 64 then Some (nullptr, w)
     else Some (create E FilteredTopicEntity ([participant c, topic],
                  filter_name (next_content_filter_id c) # expression # parameters, []) w) }"

definition create_filtered_topic ::
  "env \<Rightarrow> ptr \<Rightarrow> ptr \<Rightarrow> filter_options option \<Rightarrow> world \<Rightarrow> ptr result" where
  "create_filtered_topic E ci topic options w =
     (case options of
        None \<Rightarrow> name_filtered_topic E ci topic '''' [] w
      | Some x \<Rightarrow> do {
          (parameters, w) \<leftarrow> make_dds_string_seq E x w;
          case parameters of
            None \<Rightarrow> Some (nullptr, w)
          | Some ps \<Rightarrow> name_filtered_topic E ci topic (case filter_expression x of None \<Rightarrow> '''' | Some s \<Rightarrow> s) ps w })"

section \<open>Creating a subscription\<close>

text \<open>The constructor of \<^verbatim>\<open>SubscriptionImpl\<close>, with a null reader and read condition.\<close>

definition new_subscription_impl ::
  "ptr \<Rightarrow> ptr \<Rightarrow> ptr \<Rightarrow> ptr \<Rightarrow> message_callbacks \<Rightarrow> rmw_qos_profile \<Rightarrow> type_hash \<Rightarrow> bool \<Rightarrow> subscription_impl"
  where
  "new_subscription_impl context node topic filtered callbacks qos hash ignore_local =
     \<lparr>event_guards = (\<lambda>_. nullptr), event_callbacks = (\<lambda>_. nullptr), event_user_data = (\<lambda>_. nullptr),
      event_count = (\<lambda>_. 0), event_reported = (\<lambda>_. 0),
      subscription_matched = zero_subscription_matched, liveliness_changed = zero_liveliness_changed,
      requested_deadline_missed = zero_deadline, requested_incompatible_qos = zero_incompatible_qos,
      sample_lost = zero_count, reliable_writer_ready_count = 0,
      sub_context = context, sub_node = node, sub_topic = topic, sub_filtered_topic = filtered,
      sub_reader = nullptr, sub_read_condition = nullptr, sub_callbacks = callbacks, sub_qos = qos,
      sub_type_hash = hash, ignore_local_publications = ignore_local, sub_loaned = {},
      sub_is_service_endpoint = False\<rparr>"

definition null_subscription_handle :: subscription_handle where
  "null_subscription_handle =
     \<lparr>handle_identifier = NullIdentifier, handle_data = nullptr, handle_name = nullptr, is_cft_enabled = False\<rparr>"

definition insert_subscription :: "ptr \<Rightarrow> context_impl \<Rightarrow> context_impl" where
  "insert_subscription p c = c\<lparr>subscriptions := insert p (subscriptions c)\<rparr>"

definition erase_subscription :: "ptr \<Rightarrow> context_impl \<Rightarrow> context_impl" where
  "erase_subscription p c = c\<lparr>subscriptions := subscriptions c - {p}\<rparr>"

text \<open>The \<^verbatim>\<open>try\<close> block: \<open>False\<close> if anything in it threw.\<close>

definition register_subscription ::
  "env \<Rightarrow> ptr \<Rightarrow> ptr \<Rightarrow> ptr \<Rightarrow> guid \<Rightarrow> string \<Rightarrow> string \<Rightarrow> world \<Rightarrow> bool result" where
  "register_subscription E node ci handle g topic_name type w =
     (let (room, w) = call_ok E GrowContainer w
      in if \<not> room then Some (False, w)
      else do {
        w \<leftarrow> update_context (insert_subscription handle) ci w;
        c \<leftarrow> context_impl_at ci w;
        if suppress_graph_updates c then Some (True, w)
        else let (added, w) = call_ok E (AddEntity g topic_name type True) w
        in if \<not> added then Some (False, w)
        else do {
          nh \<leftarrow> node_handle_at node w;
          name \<leftarrow> c_string_at (node_name nh) w;
          namespace \<leftarrow> c_string_at (node_namespace nh) w;
          let (announced, w) = call_throwing E (AddEndpointGraph g name namespace True) w;
          case announced of
            None \<Rightarrow> Some (False, w)
          | Some ret \<Rightarrow>
              if ret \<noteq> RMW_RET_OK
              then let w = snd (call_rmw E (RemoveEntity g True) w) in Some (False, w)
              else do {
                w \<leftarrow> notify_graph_change E ci w;
                Some (True, w) } } })"

text \<open>
  The releases of the failures after the read condition: the reader, whose listener holds the
  implementation object, goes before it.
\<close>

definition release_subscription ::
  "env \<Rightarrow> ptr \<Rightarrow> ptr \<Rightarrow> ptr \<Rightarrow> ptr \<Rightarrow> ptr \<Rightarrow> ptr \<Rightarrow> ptr \<Rightarrow> world \<Rightarrow> world option" where
  "release_subscription E name_copy handle read_condition reader impl filtered topic w = do {
     w \<leftarrow> free_if_not_null name_copy w;
     w \<leftarrow> deallocate_object handle w;
     (_, w) \<leftarrow> delete E ReadConditionEntity read_condition w;
     (_, w) \<leftarrow> delete E DataReaderEntity reader w;
     w \<leftarrow> deallocate_object impl w;
     (_, w) \<leftarrow> delete E FilteredTopicEntity filtered w;
     (_, w) \<leftarrow> delete E TopicEntity topic w;
     Some w }"

text \<open>From the allocation of the handle on. \<open>made\<close> is the complete implementation object.\<close>

definition finish_subscription ::
  "env \<Rightarrow> ptr \<Rightarrow> ptr \<Rightarrow> string \<Rightarrow> string \<Rightarrow> subscription_options \<Rightarrow> ptr \<Rightarrow> subscription_impl \<Rightarrow> world \<Rightarrow> ptr result"
  where
  "finish_subscription E node ci topic_name dds_name options impl made w =
     (let (handle, w) = allocate_object E (SubscriptionHandle null_subscription_handle) w;
          (name_copy, w) = duplicate_string E topic_name w
      in if handle = nullptr \<or> name_copy = nullptr
      then do {
        w \<leftarrow> release_subscription E name_copy handle (sub_read_condition made) (sub_reader made) impl
              (sub_filtered_topic made) (sub_topic made) w;
        Some (nullptr, w) }
      else let w = store handle (SubscriptionHandle \<lparr>handle_identifier = ZzddsIdentifier,
                     handle_data = impl, handle_name = name_copy,
                     is_cft_enabled = (case content_filter_options options of None \<Rightarrow> False
                       | Some x \<Rightarrow> filter_expression x \<noteq> Some '''')\<rparr>) w;
               (answer, w) = guid_from_reader E (sub_reader made) w
      in case answer of
           None \<Rightarrow> do {
             w \<leftarrow> release_subscription E name_copy handle (sub_read_condition made) (sub_reader made) impl
                   (sub_filtered_topic made) (sub_topic made) w;
             Some (nullptr, w) }
         | Some g \<Rightarrow> do {
             type \<leftarrow> type_name (sub_callbacks made);
             (registered, w) \<leftarrow> register_subscription E node ci handle g dds_name type w;
             if \<not> registered
             then do {
               w \<leftarrow> update_context (erase_subscription handle) ci w;
               w \<leftarrow> release_subscription E name_copy handle (sub_read_condition made) (sub_reader made) impl
                     (sub_filtered_topic made) (sub_topic made) w;
               Some (nullptr, w) }
             else do {
               w \<leftarrow> add_active 1 ci w;
               Some (handle, w) } })"

text \<open>
  \<^verbatim>\<open>create_subscription_reader\<close>: the reader is created with its listener installed, whose data is the
  implementation object (a new one has no event, so its status mask is empty).
\<close>

definition create_subscription_reader ::
  "env \<Rightarrow> ptr \<Rightarrow> subscription_impl \<Rightarrow> string \<Rightarrow> dds_qos \<Rightarrow> world \<Rightarrow> ptr result" where
  "create_subscription_reader E impl made user_data dds_qos w = do {
     c \<leftarrow> context_impl_at (sub_context made) w;
     Some (create E DataReaderEntity ([dds_subscriber c, sub_filtered_topic made, impl], [user_data], [dds_qos]) w) }"

text \<open>The implementation object, the reader and its read condition.\<close>

definition attach_reader ::
  "env \<Rightarrow> ptr \<Rightarrow> ptr \<Rightarrow> string \<Rightarrow> string \<Rightarrow> subscription_options \<Rightarrow> subscription_impl \<Rightarrow> string \<Rightarrow> dds_qos \<Rightarrow> ptr \<Rightarrow>
   world \<Rightarrow> ptr result" where
  "attach_reader E node ci topic_name dds_name options made user_data dds_qos q w =
     (let (impl, w) = allocate_object E (SubscriptionImpl made) w
      in if impl = nullptr
      then do {
        w \<leftarrow> destroy ReaderQos q w;
        (_, w) \<leftarrow> delete E FilteredTopicEntity (sub_filtered_topic made) w;
        (_, w) \<leftarrow> delete E TopicEntity (sub_topic made) w;
        Some (nullptr, w) }
      else do {
        (reader, w) \<leftarrow> create_subscription_reader E impl made user_data dds_qos w;
        w \<leftarrow> destroy ReaderQos q w;
        if reader = nullptr
        then do {
          w \<leftarrow> deallocate_object impl w;
          (_, w) \<leftarrow> delete E FilteredTopicEntity (sub_filtered_topic made) w;
          (_, w) \<leftarrow> delete E TopicEntity (sub_topic made) w;
          Some (nullptr, w) }
        else let made = made\<lparr>sub_reader := reader\<rparr>;
                 w = store impl (SubscriptionImpl made) w;
                 (read_condition, w) = create E ReadConditionEntity ([reader], [], []) w
        in if read_condition = nullptr
        then do {
          (_, w) \<leftarrow> delete E DataReaderEntity reader w;
          w \<leftarrow> deallocate_object impl w;
          (_, w) \<leftarrow> delete E FilteredTopicEntity (sub_filtered_topic made) w;
          (_, w) \<leftarrow> delete E TopicEntity (sub_topic made) w;
          Some (nullptr, w) }
        else let made = made\<lparr>sub_read_condition := read_condition\<rparr>;
                 w = store impl (SubscriptionImpl made) w
        in finish_subscription E node ci topic_name dds_name options impl made w })"

text \<open>From the context lock on: the topic, the QoS and the content-filtered topic.\<close>

definition build_subscription ::
  "env \<Rightarrow> ptr \<Rightarrow> ptr \<Rightarrow> string \<Rightarrow> string \<Rightarrow> message_callbacks \<Rightarrow> type_hash \<Rightarrow> rmw_qos_profile \<Rightarrow>
   subscription_options \<Rightarrow> world \<Rightarrow> ptr result" where
  "build_subscription E node ci topic_name dds_name callbacks hash qos options w = do {
     c \<leftarrow> context_impl_at ci w;
     type \<leftarrow> type_name callbacks;
     if shutdown c then Some (nullptr, w)
     else let (registered, w) = call_ok E (RegisterTypeSupport type) w
     in if \<not> registered then Some (nullptr, w)
     else let (topic, w) = create E TopicEntity ([participant c], [dds_name, type], []) w
     in if topic = nullptr then Some (nullptr, w)
     else let (q, w) = init_qos ReaderQos w;
              (supported, dds_qos) = apply_qos qos (default_reader_qos E)
     in if \<not> supported
     then do {
       w \<leftarrow> destroy ReaderQos q w;
       (_, w) \<leftarrow> delete E TopicEntity topic w;
       Some (nullptr, w) }
     else let (encoded, w) = attach_type_hash E hash w
     in case encoded of
          Inl _ \<Rightarrow> do {
            w \<leftarrow> destroy ReaderQos q w;
            (_, w) \<leftarrow> delete E TopicEntity topic w;
            Some (nullptr, w) }
        | Inr user_data \<Rightarrow> do {
            (filtered, w) \<leftarrow> create_filtered_topic E ci topic (content_filter_options options) w;
            if filtered = nullptr
            then do {
              w \<leftarrow> destroy ReaderQos q w;
              (_, w) \<leftarrow> delete E TopicEntity topic w;
              Some (nullptr, w) }
            else attach_reader E node ci topic_name dds_name options
                   (new_subscription_impl ci node topic filtered callbacks (resolved_qos qos dds_qos) hash
                     (sub_ignore_local options)) user_data dds_qos q w } }"

definition rmw_create_subscription ::
  "env \<Rightarrow> ptr \<Rightarrow> message_ts option \<Rightarrow> string option \<Rightarrow> rmw_qos_profile option \<Rightarrow>
   subscription_options option \<Rightarrow> world \<Rightarrow> ptr result" where
  "rmw_create_subscription E node type_support topic_name qos options w = do {
     valid \<leftarrow> valid_node node w;
     if \<not> valid then Some (nullptr, w)
     else case (qos, options) of
       (Some qos, Some options) \<Rightarrow>
         if (case content_filter_options options of None \<Rightarrow> False | Some x \<Rightarrow> filter_expression x = None)
         then Some (nullptr, w)
         else let (good, w) = validate_topic E topic_name (avoid_ros_namespace_conventions qos) w
         in if \<not> good then Some (nullptr, w)
         else if sub_require_unique options then Some (nullptr, w)
         else (case (topic_name, resolve_message_type_support type_support) of
            (Some topic_name, Some callbacks) \<Rightarrow>
              (case dds_topic_name topic_name (avoid_ros_namespace_conventions qos) of
                 None \<Rightarrow> Some (nullptr, w)
               | Some dds_name \<Rightarrow> do {
                   nh \<leftarrow> node_handle_at node w;
                   ctx \<leftarrow> context_at (node_context nh) w;
                   build_subscription E node (context_impl_ptr ctx) topic_name dds_name callbacks
                     (type_hash_of type_support) qos options w })
          | _ \<Rightarrow> Some (nullptr, w))
     | _ \<Rightarrow> Some (nullptr, w) }"

section \<open>Destroying a subscription\<close>

definition remove_subscription_from_graph ::
  "env \<Rightarrow> ptr \<Rightarrow> node_handle \<Rightarrow> guid option \<Rightarrow> world \<Rightarrow> world option" where
  "remove_subscription_from_graph E ci nh answer w = do {
     c \<leftarrow> context_impl_at ci w;
     case answer of
       None \<Rightarrow> Some w
     | Some g \<Rightarrow>
         if suppress_graph_updates c then Some w
         else do {
           name \<leftarrow> c_string_at (node_name nh) w;
           namespace \<leftarrow> c_string_at (node_namespace nh) w;
           let w = snd (call_rmw E (RemoveEndpointGraph g name namespace True) w);
           let w = snd (call_rmw E (RemoveEntity g True) w);
           notify_graph_change E ci w } }"

definition teardown_subscription ::
  "env \<Rightarrow> node_handle \<Rightarrow> ptr \<Rightarrow> subscription_handle \<Rightarrow> subscription_impl \<Rightarrow> world \<Rightarrow> rmw_ret result" where
  "teardown_subscription E nh subscription s impl w = (
     let (answer, w) = guid_from_reader E (sub_reader impl) w
     in do {
       w \<leftarrow> update_context (erase_subscription subscription) (sub_context impl) w;
       w \<leftarrow> remove_subscription_from_graph E (sub_context impl) nh answer w;
       let w = snd (call_dds E (ClearListener (sub_reader impl)) w);
       w \<leftarrow> cleanup_endpoint_events (event_guards impl) w;
       w \<leftarrow> destroy_loans (sub_loaned impl) w;
       (condition_ret, w) \<leftarrow> delete E ReadConditionEntity (sub_read_condition impl) w;
       (reader_ret, w) \<leftarrow> delete E DataReaderEntity (sub_reader impl) w;
       (filtered_ret, w) \<leftarrow> delete E FilteredTopicEntity (sub_filtered_topic impl) w;
       (topic_ret, w) \<leftarrow> delete E TopicEntity (sub_topic impl) w;
       w \<leftarrow> deallocate (handle_name s) w;
       w \<leftarrow> deallocate_object (handle_data s) w;
       w \<leftarrow> deallocate_object subscription w;
       w \<leftarrow> add_active (- 1) (sub_context impl) w;
       Some (if condition_ret = DDS_RETCODE_OK \<and> reader_ret = DDS_RETCODE_OK \<and>
                filtered_ret = DDS_RETCODE_OK \<and> topic_ret = DDS_RETCODE_OK
             then RMW_RET_OK else RMW_RET_ERROR, w) })"

definition rmw_destroy_subscription :: "env \<Rightarrow> ptr \<Rightarrow> ptr \<Rightarrow> world \<Rightarrow> rmw_ret result" where
  "rmw_destroy_subscription E node subscription w =
     (if node = nullptr \<or> subscription = nullptr then Some (RMW_RET_INVALID_ARGUMENT, w)
      else do {
        s \<leftarrow> subscription_at subscription w;
        if handle_data s = nullptr then Some (RMW_RET_INVALID_ARGUMENT, w)
        else do {
          nh \<leftarrow> node_handle_at node w;
          if node_identifier nh \<noteq> ZzddsIdentifier then Some (RMW_RET_INCORRECT_RMW_IMPLEMENTATION, w)
          else do {
            valid \<leftarrow> valid_node node w;
            if \<not> valid then Some (RMW_RET_INVALID_ARGUMENT, w)
            else if handle_identifier s \<noteq> ZzddsIdentifier
            then Some (RMW_RET_INCORRECT_RMW_IMPLEMENTATION, w)
            else do {
              impl \<leftarrow> subscription_impl_at (handle_data s) w;
              ctx \<leftarrow> context_at (node_context nh) w;
              if sub_context impl \<noteq> context_impl_ptr ctx then Some (RMW_RET_INVALID_ARGUMENT, w)
              else teardown_subscription E nh subscription s impl w } } } })"

section \<open>The life of a subscription\<close>

definition with_subscription :: "ptr \<Rightarrow> size_t \<Rightarrow> context_impl \<Rightarrow> context_impl" where
  "with_subscription p n c =
     c\<lparr>next_content_filter_id := n, subscriptions := insert p (subscriptions c),
       active_entities := active_entities c + 1\<rparr>"

definition made_subscription ::
  "ptr \<Rightarrow> ptr \<Rightarrow> ptr \<Rightarrow> ptr \<Rightarrow> ptr \<Rightarrow> ptr \<Rightarrow> subscription_impl \<Rightarrow> bool" where
  "made_subscription node ci topic filtered reader read_condition i \<longleftrightarrow>
     event_guards i = (\<lambda>_. nullptr) \<and> sub_loaned i = {} \<and> sub_context i = ci \<and> sub_node i = node \<and>
     sub_reader i = reader \<and> sub_read_condition i = read_condition \<and> sub_filtered_topic i = filtered \<and>
     sub_topic i = topic \<and> complete_callbacks (sub_callbacks i)"

definition subscription_created ::
  "ptr \<Rightarrow> ptr \<Rightarrow> context_impl \<Rightarrow> (ptr \<Rightarrow> object option) \<Rightarrow> (entity_kind \<times> ptr) multiset \<Rightarrow> ptr \<Rightarrow> world \<Rightarrow> bool"
  where
  "subscription_created node ci c h e p w \<longleftrightarrow>
     (\<exists>name_copy impl reader read_condition filtered topic cft i topic_name n.
     p \<noteq> nullptr \<and> name_copy \<noteq> nullptr \<and> impl \<noteq> nullptr \<and> reader \<noteq> nullptr \<and> read_condition \<noteq> nullptr \<and>
     filtered \<noteq> nullptr \<and> topic \<noteq> nullptr \<and>
     made_subscription node ci topic filtered reader read_condition i \<and>
     ledger (h(ci \<mapsto> ContextImpl (with_subscription p n c))) e
       [Memory name_copy (CString topic_name),
        Memory p (SubscriptionHandle \<lparr>handle_identifier = ZzddsIdentifier, handle_data = impl,
                                    handle_name = name_copy, is_cft_enabled = cft\<rparr>),
        Entity ReadConditionEntity read_condition, Entity DataReaderEntity reader,
        Memory impl (SubscriptionImpl i), Entity FilteredTopicEntity filtered, Entity TopicEntity topic] w)"

text \<open>Creating a subscription, even in vain, uses up content filter names of the context.\<close>

definition same_but_filters :: "ptr \<Rightarrow> (ptr \<Rightarrow> object option) \<Rightarrow> (ptr \<Rightarrow> object option) \<Rightarrow> bool" where
  "same_but_filters ci h h' \<longleftrightarrow> (\<exists>c n. h ci = Some (ContextImpl c) \<and>
     h' = h(ci \<mapsto> ContextImpl (c\<lparr>next_content_filter_id := n\<rparr>)))"

text \<open>The caller's arrays of filter parameters are as long as they claim.\<close>

definition readable_filter :: "filter_options option \<Rightarrow> bool" where
  "readable_filter options \<longleftrightarrow>
     (case options of None \<Rightarrow> True
      | Some x \<Rightarrow> (case parameter_data x of None \<Rightarrow> True | Some ps \<Rightarrow> unat (parameter_count x) \<le> length ps))"

lemma filter_parameters_readable: "n \<le> length ps \<Longrightarrow> \<exists>r. filter_parameters n ps = Some r"
proof (induction n ps rule: filter_parameters.induct)
  case (4 n s ps)
  then show ?case by auto
qed auto

lemma given_make_dds_string_seq [step]:
  assumes "readable_filter (Some x)" "\<And>r w'. given h e rs w' (f (r, w')) Q"
  shows "given h e rs w (Option.bind (make_dds_string_seq E x w) f) Q"
proof -
  have "\<exists>r. filter_parameters (unat (parameter_count x))
      (case parameter_data x of None \<Rightarrow> [] | Some ps \<Rightarrow> ps) = Some r"
    if "\<not> (parameter_count x \<noteq> 0 \<and> parameter_data x = None)"
    using that assms(1)
    by (cases "parameter_data x") (auto simp: readable_filter_def intro: filter_parameters_readable)
  with assms(2) show ?thesis
    by (auto simp: make_dds_string_seq_def given_def call_ok_def)
qed

lemma given_name_filtered_topic [step]:
  assumes "\<exists>c. h ci = Some (ContextImpl c)"
    and "\<And>c p w'. Some (ContextImpl c) = h ci \<Longrightarrow>
      given (h(ci \<mapsto> ContextImpl (count_filter c))) e (Entity FilteredTopicEntity p # rs) w' (f (p, w')) Q"
  shows "given h e rs w (Option.bind (name_filtered_topic E ci topic expression parameters w) f) Q"
proof -
  obtain c where c: "h ci = Some (ContextImpl c)" using assms(1) by blast
  have "given (h(ci \<mapsto> ContextImpl (count_filter c))) e rs w' (f (create E FilteredTopicEntity args w')) Q"
    for w' args
    using given_create [of E FilteredTopicEntity args _ e rs "\<lambda>p w'. f (p, w')" Q w'] assms(2) c
    by (simp add: split_beta)
  moreover have "given (h(ci \<mapsto> ContextImpl (count_filter c))) e rs w' (f (nullptr, w')) Q" for w'
    using assms(2) [of c nullptr w'] c by (simp add: given_def)
  ultimately show ?thesis
    unfolding name_filtered_topic_def
    using c by (intro step) simp_all
qed

lemma given_create_filtered_topic [step]:
  assumes "\<exists>c. h ci = Some (ContextImpl c)" "readable_filter options"
    and "\<And>c n p w'. Some (ContextImpl c) = h ci \<Longrightarrow>
      given (h(ci \<mapsto> ContextImpl (c\<lparr>next_content_filter_id := n\<rparr>))) e
        (Entity FilteredTopicEntity p # rs) w' (f (p, w')) Q"
  shows "given h e rs w (Option.bind (create_filtered_topic E ci topic options w) f) Q"
proof -
  obtain c where c: "h ci = Some (ContextImpl c)" using assms(1) by blast
  have counted: "given (h(ci \<mapsto> ContextImpl (count_filter c))) e
      (Entity FilteredTopicEntity p # rs) w' (f (p, w')) Q" for p w'
    using assms(3) [of c "next_content_filter_id c + 1"] c by (simp add: count_filter_def)
  have unchanged: "given h e rs w' (f (nullptr, w')) Q" for w'
    using assms(3) [of c "next_content_filter_id c" nullptr w'] c
    by (simp add: given_def fun_upd_idem)
  show ?thesis
  proof (cases options)
    case None
    then show ?thesis
      unfolding create_filtered_topic_def
      using c counted by (simp, intro step) auto
  next
    case (Some x)
    then show ?thesis
      unfolding create_filtered_topic_def
      using c assms(2) by (simp, intro step) (auto intro: counted unchanged)
  qed
qed

lemma given_release_subscription [step]:
  assumes "deletes_succeed E" "read_condition \<noteq> nullptr" "reader \<noteq> nullptr" "filtered \<noteq> nullptr" "topic \<noteq> nullptr"
    and "\<And>w'. given h e rs w' (f w') Q"
  shows "given h e (Memory name_copy a # Memory handle b # Entity ReadConditionEntity read_condition #
      Entity DataReaderEntity reader # Memory impl c # Entity FilteredTopicEntity filtered #
      Entity TopicEntity topic # rs) w
    (Option.bind (release_subscription E name_copy handle read_condition reader impl filtered topic w) f) Q"
  unfolding release_subscription_def by (intro step assms)

lemma registered_subscription_simps [simp]:
  "suppress_graph_updates (insert_subscription p c) = suppress_graph_updates c"
  "(insert_subscription p (c\<lparr>next_content_filter_id := n\<rparr>))\<lparr>active_entities :=
     active_entities (insert_subscription p (c\<lparr>next_content_filter_id := n\<rparr>)) + 1\<rparr> = with_subscription p n c"
  by (simp_all add: insert_subscription_def with_subscription_def)

lemma erase_registered_subscription:
  assumes "p \<notin> subscriptions c"
  shows "erase_subscription p (insert_subscription p c) = c" "erase_subscription p c = c"
  using assms by (simp_all add: insert_subscription_def erase_subscription_def)

lemma given_register_subscription [step]:
  assumes "\<exists>c. h ci = Some (ContextImpl c) \<and> p \<notin> subscriptions c"
    and "\<exists>nh name namespace. h node = Some (NodeHandle nh) \<and> h (node_name nh) = Some (CString name) \<and>
      h (node_namespace nh) = Some (CString namespace)"
    and "\<And>c w'. Some (ContextImpl c) = h ci \<Longrightarrow>
      given (h(ci \<mapsto> ContextImpl (insert_subscription p c))) e rs w' (f (True, w')) Q"
    and "\<And>c c' w'. Some (ContextImpl c) = h ci \<Longrightarrow> erase_subscription p c' = c \<Longrightarrow>
      given (h(ci \<mapsto> ContextImpl c')) e rs w' (f (False, w')) Q"
  shows "given h e rs w (Option.bind (register_subscription E node ci p g topic_name type w) f) Q"
proof -
  obtain c nh name namespace where c: "h ci = Some (ContextImpl c)" "p \<notin> subscriptions c"
      "h node = Some (NodeHandle nh)" "h (node_name nh) = Some (CString name)"
      "h (node_namespace nh) = Some (CString namespace)"
    using assms(1,2) by blast
  have "node \<noteq> ci" "node_name nh \<noteq> ci" "node_namespace nh \<noteq> ci" using c by auto
  moreover have "given h e rs w' (f (False, w')) Q" for w'
    using assms(4) [of c c] c by (simp add: fun_upd_idem erase_registered_subscription)
  moreover note assms(3) [of c] assms(4) [of c "insert_subscription p c"]
  ultimately show ?thesis
    unfolding register_subscription_def
    using c by (intro step) (simp_all add: erase_registered_subscription)
qed

lemma new_subscription_impl_simps [simp]:
  "sub_callbacks (new_subscription_impl ctx node topic filtered callbacks qos hash ignore) = callbacks"
  "sub_context (new_subscription_impl ctx node topic filtered callbacks qos hash ignore) = ctx"
  "sub_topic (new_subscription_impl ctx node topic filtered callbacks qos hash ignore) = topic"
  "sub_filtered_topic (new_subscription_impl ctx node topic filtered callbacks qos hash ignore) = filtered"
  by (simp_all add: new_subscription_impl_def)

lemma made_subscription_impl:
  "complete_callbacks callbacks \<Longrightarrow> made_subscription node ci topic filtered reader read_condition
    (new_subscription_impl ci node topic filtered callbacks qos hash ignore
       \<lparr>sub_reader := reader, sub_read_condition := read_condition\<rparr>)"
  by (simp add: made_subscription_def new_subscription_impl_def)

definition subscription_ready ::
  "env \<Rightarrow> ptr \<Rightarrow> node_handle \<Rightarrow> ptr \<Rightarrow> ptr \<Rightarrow> context_impl \<Rightarrow> world \<Rightarrow> bool" where
  "subscription_ready E node nh context ci c w \<longleftrightarrow> live_node node nh context ci c w \<and> deletes_succeed E \<and>
     (\<forall>p \<in> subscriptions c. heap w p \<noteq> None)"

lemma subscription_createdI:
  assumes "ledger (h(ci \<mapsto> ContextImpl (with_subscription p n c))) e
       [Memory name_copy (CString topic_name),
        Memory p (SubscriptionHandle \<lparr>handle_identifier = ZzddsIdentifier, handle_data = impl,
                                    handle_name = name_copy, is_cft_enabled = cft\<rparr>),
        Entity ReadConditionEntity read_condition, Entity DataReaderEntity reader,
        Memory impl (SubscriptionImpl i), Entity FilteredTopicEntity filtered, Entity TopicEntity topic] w"
    and "made_subscription node ci topic filtered reader read_condition i"
    and "p \<noteq> nullptr" "name_copy \<noteq> nullptr" "impl \<noteq> nullptr" "reader \<noteq> nullptr"
      "read_condition \<noteq> nullptr" "filtered \<noteq> nullptr" "topic \<noteq> nullptr"
  shows "subscription_created node ci c h e p w"
  unfolding subscription_created_def
  by (intro exI [of _ name_copy] exI [of _ impl] exI [of _ reader] exI [of _ read_condition]
      exI [of _ filtered] exI [of _ topic] exI [of _ cft] exI [of _ i] exI [of _ topic_name] exI [of _ n] conjI assms)

definition subscription_outcome ::
  "ptr \<Rightarrow> ptr \<Rightarrow> context_impl \<Rightarrow> (ptr \<Rightarrow> object option) \<Rightarrow> (entity_kind \<times> ptr) multiset \<Rightarrow> ptr \<times> world \<Rightarrow> bool"
  where
  "subscription_outcome node ci c h e r \<longleftrightarrow>
     (if fst r = nullptr then \<exists>n. ledger (h(ci \<mapsto> ContextImpl (c\<lparr>next_content_filter_id := n\<rparr>))) e [] (snd r)
      else subscription_created node ci c h e (fst r) (snd r))"

lemma outcome_null:
  "ledger (h(ci \<mapsto> ContextImpl (c\<lparr>next_content_filter_id := n\<rparr>))) e [] w \<Longrightarrow>
   subscription_outcome node ci c h e (nullptr, w)"
  by (auto simp: subscription_outcome_def)

lemma outcome_unchanged:
  "h ci = Some (ContextImpl c) \<Longrightarrow> ledger h e [] w \<Longrightarrow> subscription_outcome node ci c h e (nullptr, w)"
  by (rule outcome_null [where n = "next_content_filter_id c"]) (simp add: fun_upd_idem)

lemma finish_subscription_outcome:
  assumes "deletes_succeed E" "h ci = Some (ContextImpl c)"
    and "\<exists>nh name namespace. h node = Some (NodeHandle nh) \<and> h (node_name nh) = Some (CString name) \<and>
      h (node_namespace nh) = Some (CString namespace)"
    and "\<And>p. h p = None \<Longrightarrow> p \<notin> subscriptions c"
    and "made_subscription node ci topic filtered reader read_condition i"
    and "impl \<noteq> nullptr" "reader \<noteq> nullptr" "read_condition \<noteq> nullptr" "filtered \<noteq> nullptr" "topic \<noteq> nullptr"
  shows "given (h(ci \<mapsto> ContextImpl (c\<lparr>next_content_filter_id := n\<rparr>))) e
       [Entity ReadConditionEntity read_condition, Entity DataReaderEntity reader,
        Memory impl (SubscriptionImpl i), Entity FilteredTopicEntity filtered, Entity TopicEntity topic] w
     (finish_subscription E node ci topic_name dds_name options impl i w)
     (subscription_outcome node ci c h e)"
proof -
  obtain nh name namespace where nh: "h node = Some (NodeHandle nh)" "h (node_name nh) = Some (CString name)"
      "h (node_namespace nh) = Some (CString namespace)"
    using assms(3) by blast
  have sep: "node \<noteq> ci" "node_name nh \<noteq> ci" "node_namespace nh \<noteq> ci" using nh assms(2) by auto
  have i: "sub_read_condition i = read_condition" "sub_reader i = reader" "sub_filtered_topic i = filtered"
    "sub_topic i = topic" "\<exists>type. type_name (sub_callbacks i) = Some type"
    using assms(5) by (auto simp: made_subscription_def complete_callbacks_def)
  show ?thesis
    unfolding finish_subscription_def i
    using assms(1,7-10) nh sep i(5)
    apply (intro step)
    apply (simp_all add: fun_upd_idem outcome_null)
     apply (auto split: if_splits dest: assms(4))[1]
    apply (simp add: subscription_outcome_def)
    apply (elim conjE)
    apply (erule subscription_createdI [OF _ assms(5)])
    using assms(6-10) apply simp_all
    done
qed

lemma given_case_create [step]:
  assumes "\<And>p w'. given h e (Entity kind p # rs) w' (f p w') Q"
  shows "given h e rs w (case create E kind args w of (p, w') \<Rightarrow> f p w') Q"
  using given_create [of E kind args h e rs f Q w] assms by simp

lemma given_let_made [step]:
  "given h e rs w (f v) Q \<Longrightarrow> given h e rs w (let i = v :: subscription_impl in f i) Q"
  by simp

lemma attach_reader_outcome:
  assumes "deletes_succeed E" "h ci = Some (ContextImpl c)"
    and "\<exists>nh name namespace. h node = Some (NodeHandle nh) \<and> h (node_name nh) = Some (CString name) \<and>
      h (node_namespace nh) = Some (CString namespace)"
    and "\<And>p. h p = None \<Longrightarrow> p \<notin> subscriptions c"
    and "complete_callbacks callbacks" "q \<noteq> nullptr" "filtered \<noteq> nullptr" "topic \<noteq> nullptr"
  shows "given (h(ci \<mapsto> ContextImpl (c\<lparr>next_content_filter_id := n\<rparr>))) e
       [Entity FilteredTopicEntity filtered, Entity ReaderQos q, Entity TopicEntity topic] w
     (attach_reader E node ci topic_name dds_name options
       (new_subscription_impl ci node topic filtered callbacks qos hash ignore) user_data dds_qos q w)
     (subscription_outcome node ci c h e)"
  unfolding attach_reader_def create_subscription_reader_def new_subscription_impl_simps
  using assms(1,6-8)
  apply (intro step finish_subscription_outcome [OF assms(1-4)] made_subscription_impl assms(5-8))
  apply (simp_all add: fun_upd_idem outcome_null)
  apply (intro step)
  apply (simp_all add: outcome_null)
  done

lemma build_subscription_outcome:
  assumes "deletes_succeed E" "h ci = Some (ContextImpl c)"
    and "\<exists>nh name namespace. h node = Some (NodeHandle nh) \<and> h (node_name nh) = Some (CString name) \<and>
      h (node_namespace nh) = Some (CString namespace)"
    and "\<And>p. h p = None \<Longrightarrow> p \<notin> subscriptions c"
    and "complete_callbacks callbacks" "readable_filter (content_filter_options options)"
  shows "given h e [] w
     (build_subscription E node ci topic_name dds_name callbacks hash qos options w)
     (subscription_outcome node ci c h e)"
proof -
  have type: "\<exists>type. type_name callbacks = Some type"
    using assms(5) by (auto simp: complete_callbacks_def)
  show ?thesis
    unfolding build_subscription_def
    using assms(1,2,6) type
    apply (intro step)
    apply (simp_all add: outcome_unchanged outcome_null attach_reader_outcome [OF assms(1-5)])
    done
qed

lemma create_subscription_outcome:
  assumes "subscription_ready E node nh context ci c w"
    and "\<And>x. options = Some x \<Longrightarrow> readable_filter (content_filter_options x)"
  shows "post (rmw_create_subscription E node ts topic_name qos options w) (\<lambda>(p, w').
    if p = nullptr then same_but_filters ci (heap w) (heap w') \<and> entities w' = entities w \<and> wf_world w'
    else subscription_created node ci c (heap w) (entities w) p w')"
proof -
  have N: "live_node node nh context ci c w" and E: "deletes_succeed E"
    and P: "\<And>p. heap w p = None \<Longrightarrow> p \<notin> subscriptions c"
    using assms(1) by (auto simp: subscription_ready_def)
  note N = live_nodeD [OF N] note L = live_contextD [OF N(1)]
  obtain x where ch: "heap w context =
      Some (Context \<lparr>context_identifier = ZzddsIdentifier, context_impl_ptr = ci, settings = x\<rparr>)"
    using L(4) by blast
  have names: "\<exists>nh name namespace. heap w node = Some (NodeHandle nh) \<and>
      heap w (node_name nh) = Some (CString name) \<and> heap w (node_namespace nh) = Some (CString namespace)"
    using N by blast
  note build = build_subscription_outcome [OF E L(5) names P]
  have "post (rmw_create_subscription E node ts topic_name qos options w)
      (subscription_outcome node ci c (heap w) (entities w))"
    unfolding rmw_create_subscription_def
    apply (rule given_start [OF L(1)])
    using N(2-5) L(2,3,5) ch
    apply (intro step)
    apply (simp_all add: outcome_unchanged N(6))
    apply (simp add: build resolve_complete assms(2))
    done
  then show ?thesis
    by (rule post_mono)
       (auto simp: subscription_outcome_def same_but_filters_def L(5) dest!: ledger_empty split: if_splits)
qed

lemma erase_with_subscription:
  assumes "p \<notin> subscriptions c"
  shows "(erase_subscription p (with_subscription p n c))\<lparr>active_entities :=
      active_entities (erase_subscription p (with_subscription p n c)) - 1\<rparr> = c\<lparr>next_content_filter_id := n\<rparr>"
    "suppress_graph_updates (erase_subscription p (with_subscription p n c)) = suppress_graph_updates c"
  using assms by (simp_all add: erase_subscription_def with_subscription_def)

lemma teardown_subscription_outcome:
  assumes "ledger (h(ci \<mapsto> ContextImpl (with_subscription p n c))) e
       [Memory name_copy (CString topic_name), Memory p handle,
        Entity ReadConditionEntity read_condition, Entity DataReaderEntity reader,
        Memory impl x, Entity FilteredTopicEntity filtered, Entity TopicEntity topic] w"
    and "name_copy \<noteq> nullptr" "read_condition \<noteq> nullptr" "reader \<noteq> nullptr" "filtered \<noteq> nullptr" "topic \<noteq> nullptr"
    and "deletes_succeed E" "made_subscription node ci topic filtered reader read_condition i"
    and "h ci = Some (ContextImpl c)" "p \<notin> subscriptions c"
    and "h (node_name nh) = Some (CString name)" "h (node_namespace nh) = Some (CString namespace)"
    and "handle_name s = name_copy" "handle_data s = impl"
  shows "post (teardown_subscription E nh p s i w)
    (\<lambda>(ret, w'). ret = RMW_RET_OK \<and> ledger (h(ci \<mapsto> ContextImpl (c\<lparr>next_content_filter_id := n\<rparr>))) e [] w')"
proof -
  have sep: "node_name nh \<noteq> ci" "node_namespace nh \<noteq> ci" using assms(9,11,12) by auto
  have i: "event_guards i = (\<lambda>_. nullptr)" "sub_loaned i = {}" "sub_context i = ci" "sub_reader i = reader"
    "sub_read_condition i = read_condition" "sub_filtered_topic i = filtered" "sub_topic i = topic"
    using assms(8) by (simp_all add: made_subscription_def)
  have "given (h(ci \<mapsto> ContextImpl (with_subscription p n c))) e
       [Memory name_copy (CString topic_name), Memory p handle,
        Entity ReadConditionEntity read_condition, Entity DataReaderEntity reader,
        Memory impl x, Entity FilteredTopicEntity filtered, Entity TopicEntity topic] w
    (teardown_subscription E nh p s i w)
    (\<lambda>(ret, w'). ret = RMW_RET_OK \<and> ledger (h(ci \<mapsto> ContextImpl (c\<lparr>next_content_filter_id := n\<rparr>))) e [] w')"
    unfolding teardown_subscription_def remove_subscription_from_graph_def
    unfolding i assms(13,14) cleanup_no_events destroy_no_loans
    using assms(2-7,9,11,12) sep
    apply (intro step)
    apply (simp_all add: fun_upd_idem erase_with_subscription assms(10))
    done
  with assms(1) show ?thesis by (simp add: given_def)
qed

lemma destroy_subscription_outcome:
  assumes "subscription_ready E node nh context ci c w0"
    and "subscription_created node ci c (heap w0) (entities w0) p w"
  shows "post (rmw_destroy_subscription E node p w) (\<lambda>(ret, w').
    ret = RMW_RET_OK \<and> same_but_filters ci (heap w0) (heap w') \<and> entities w' = entities w0 \<and> wf_world w')"
proof -
  have N: "live_node node nh context ci c w0" and E: "deletes_succeed E"
    and P: "\<And>p. heap w0 p = None \<Longrightarrow> p \<notin> subscriptions c"
    using assms(1) by (auto simp: subscription_ready_def)
  note N = live_nodeD [OF N] note L = live_contextD [OF N(1)]
  obtain x where ch: "heap w0 context =
      Some (Context \<lparr>context_identifier = ZzddsIdentifier, context_impl_ptr = ci, settings = x\<rparr>)"
    using L(4) by blast
  obtain name_copy impl reader read_condition filtered topic cft i topic_name n where
    nz: "p \<noteq> nullptr" "name_copy \<noteq> nullptr" "impl \<noteq> nullptr" "reader \<noteq> nullptr" "read_condition \<noteq> nullptr"
      "filtered \<noteq> nullptr" "topic \<noteq> nullptr"
    and i: "made_subscription node ci topic filtered reader read_condition i"
    and l: "ledger ((heap w0)(ci \<mapsto> ContextImpl (with_subscription p n c))) (entities w0)
       [Memory name_copy (CString topic_name),
        Memory p (SubscriptionHandle \<lparr>handle_identifier = ZzddsIdentifier, handle_data = impl,
                                    handle_name = name_copy, is_cft_enabled = cft\<rparr>),
        Entity ReadConditionEntity read_condition, Entity DataReaderEntity reader,
        Memory impl (SubscriptionImpl i), Entity FilteredTopicEntity filtered, Entity TopicEntity topic] w"
    using assms(2) unfolding subscription_created_def by blast
  let ?s = "\<lparr>handle_identifier = ZzddsIdentifier, handle_data = impl, handle_name = name_copy, is_cft_enabled = cft\<rparr>"
  obtain name namespace where names: "heap w0 (node_name nh) = Some (CString name)"
    "heap w0 (node_namespace nh) = Some (CString namespace)"
    using N(8,9) by blast
  have fresh: "heap w0 p = None"
    and hp: "heap w p = Some (SubscriptionHandle ?s)" "heap w impl = Some (SubscriptionImpl i)"
    using l nz by (auto simp: ledger_def split: if_splits)
  have old: "heap w q = heap w0 q" if "heap w0 q \<noteq> None" "q \<noteq> ci" for q
    using ledger_same [OF l, of q] that by simp
  have "rmw_destroy_subscription E node p w = teardown_subscription E nh p ?s i w"
  proof -
    have "node \<noteq> ci" "context \<noteq> ci" using N L by auto
    then have "heap w context = heap w0 context" "heap w node = heap w0 node"
      using old [of "context"] old [of node] N L ch by simp_all
    then show ?thesis
      using N L ch hp nz i
      by (simp add: rmw_destroy_subscription_def valid_node_def subscription_at_def node_handle_at_def
        context_at_def subscription_impl_at_def made_subscription_def)
  qed
  then show ?thesis
    using post_mono [OF teardown_subscription_outcome [OF l nz(2,5,4,6,7) E i L(5) P [OF fresh] names],
        of ?s "\<lambda>(ret, w'). ret = RMW_RET_OK \<and> same_but_filters ci (heap w0) (heap w') \<and> entities w' = entities w0 \<and> wf_world w'"]
    by (auto dest!: ledger_empty simp: same_but_filters_def L(5))
qed

interpretation subscription_life: lifecycle_upto
    "\<lambda>w. subscription_ready E node nh ctx ci c w \<and>
      (\<forall>x. options = Some x \<longrightarrow> readable_filter (content_filter_options x))"
    "rmw_create_subscription E node ts topic_name qos options" "rmw_destroy_subscription E node"
    "subscription_created node ci c" "same_but_filters ci"
  for E node nh ctx ci c ts topic_name qos options
  by unfold_locales (rule create_subscription_outcome, blast, blast, rule destroy_subscription_outcome, blast)

text \<open>
  C28. A subscription's life leaves nothing behind but the count of filter names. Creating one from a
  valid node never has undefined behaviour, whichever of its steps fails (three allocations, topic,
  filter, reader, read condition, QoS, GUID, registration). When it gives null, the entities are what
  they were and the heap is too, except for \<^verbatim>\<open>next_content_filter_id\<close>. Otherwise destroying the
  subscription succeeds and takes back every object and entity it made, with the same exception, if
  zzdds does not refuse to delete and the caller's parameter array is as long as it says.
\<close>

theorem subscription_lifecycle:
  assumes "live_node node nh context ci c w" "\<forall>p \<in> subscriptions c. heap w p \<noteq> None"
    and "deletes_succeed E" "readable_filter (content_filter_options options)"
  shows "post (rmw_create_subscription E node ts topic_name qos (Some options) w) (\<lambda>(p, w1).
    if p = nullptr then same_but_filters ci (heap w) (heap w1) \<and> entities w1 = entities w
    else post (rmw_destroy_subscription E node p w1) (\<lambda>(ret, w2).
      ret = RMW_RET_OK \<and> same_but_filters ci (heap w) (heap w2) \<and> entities w2 = entities w))"
  using assms by (intro subscription_life.restores_upto) (simp add: subscription_ready_def)

definition filtered_options :: subscription_options where
  "filtered_options = \<lparr>sub_require_unique = False, sub_ignore_local = True, content_filter_options =
     Some \<lparr>filter_expression = Some ''x > %0'', parameter_count = 1, parameter_data = Some [Some ''5'']\<rparr>\<rparr>"

theorem subscription_lifecycle_witness:
  "post (rmw_create_subscription all_succeed 3 (Some byte_topic) (Some ''/chatter'') (Some example_profile)
      (Some filtered_options) node_world) (\<lambda>(p, w1).
    if p = nullptr then same_but_filters 2 (heap node_world) (heap w1) \<and> entities w1 = entities node_world
    else post (rmw_destroy_subscription all_succeed 3 p w1) (\<lambda>(ret, w2).
      ret = RMW_RET_OK \<and> same_but_filters 2 (heap node_world) (heap w2) \<and> entities w2 = entities node_world))"
  by (rule subscription_lifecycle [OF node_world_live])
     (simp_all add: empty_context_def deletes_succeed_def all_succeed_def readable_filter_def filtered_options_def)

section \<open>Names of filtered topics\<close>

lemma decimal_length: "n < 10 ^ Suc k \<Longrightarrow> length (decimal n) \<le> Suc k"
proof (induction n arbitrary: k rule: decimal.induct)
  case (1 n)
  show ?case
  proof (cases "n < 10")
    case False
    with 1(2) have "k \<noteq> 0" by (cases k) simp_all
    then obtain j where "k = Suc j" by (cases k) simp_all
    with 1 False show ?thesis
      by (subst decimal.simps) (simp add: less_mult_imp_div_less mult.commute)
  qed (subst decimal.simps, simp)
qed

definition number :: "string \<Rightarrow> nat" where
  "number s = foldl (\<lambda>n d. 10 * n + (of_char d - 48)) 0 s"

lemma digit_value: "n < 10 \<Longrightarrow> of_char (char_of (48 + n :: nat)) = 48 + n"
  by (simp add: of_char_of)

lemma number_decimal: "number (decimal n) = n"
proof (induction n rule: decimal.induct)
  case (1 n)
  show ?case
  proof (cases "n < 10")
    case True
    then show ?thesis by (subst decimal.simps) (simp add: number_def of_char_of)
  next
    case False
    with 1 show ?thesis
      by (subst decimal.simps) (simp add: number_def digit_value)
  qed
qed

lemma decimal_inject: "decimal m = decimal n \<longleftrightarrow> m = n"
  by (metis number_decimal)

text \<open>
  C29. The names of content-filtered topics are distinct for distinct counters and always fit the
  buffer of 64 characters with their terminator, so the branch that gives up on a truncated name is
  never taken.
\<close>

theorem filter_names:
  "length (filter_name i) + 1 \<le> 64 \<and> (filter_name i = filter_name j \<longleftrightarrow> i = j)"
proof -
  have "unat i < 2 ^ 64" using unsigned_less [of i] by simp
  also have "(2 :: nat) ^ 64 < 10 ^ Suc 19" by simp
  finally have "length (decimal (unat i)) \<le> 20" using decimal_length [of "unat i" 19] by simp
  then show ?thesis by (simp add: filter_name_def decimal_inject word_unat_eq_iff)
qed

end
