(* ===== verification/Taking.thy ===== *)
theory Taking
  imports Subscription
begin

text \<open>
  What a client does with a subscription between its creation and its destruction: taking messages,
  serialized messages, loans and sequences, changing and reading the content filter, and reading the
  QoS (\<^verbatim>\<open>rmw_data_plane.cpp\<close>). zzdds lends every taken sample; a loan is an entity that has to be
  returned.
\<close>

section \<open>Samples\<close>

text \<open>\<^verbatim>\<open>RawLoan\<close> with the sample's data and info; \<open>loan\<close> is null while nothing is lent.\<close>

record raw_sample =
  loan :: ptr
  loan_data :: "uint8 list"
  info :: sample_info

definition no_sample :: raw_sample where
  "no_sample = \<lparr>loan = nullptr, loan_data = [], info = \<lparr>valid_data = False, publication_handle = 0,
     source_sec = 0, source_nanosec = 0\<rparr>\<rparr>"

text \<open>\<^verbatim>\<open>DDS_DataReader_take_raw\<close> lends whatever sequences it gives, empty ones included.\<close>

definition take_raw :: "env \<Rightarrow> ptr \<Rightarrow> world \<Rightarrow> (dds_ret \<times> ptr \<times> raw_take) \<times> world" where
  "take_raw E reader w =
     (let answer = take_answer E (trace w) (TakeRaw reader);
          (ret, w) = call_dds E (TakeRaw reader) w
      in if ret = DDS_RETCODE_OK
         then let (lent, w) = hold RawSampleLoan w in ((ret, lent, answer), w)
         else ((ret, nullptr, answer), w))"

definition return_raw_loan :: "env \<Rightarrow> raw_sample \<Rightarrow> world \<Rightarrow> dds_ret result" where
  "return_raw_loan E sample w = delete E RawSampleLoan (loan sample) w"

definition is_local_publication :: "env \<Rightarrow> subscription_impl \<Rightarrow> instance_handle \<Rightarrow> world \<Rightarrow> bool result" where
  "is_local_publication E impl handle w =
     (let (answer, w) = guid_from_publication E (sub_reader impl) handle w
      in case answer of
           None \<Rightarrow> Some (False, w)
         | Some g \<Rightarrow> do {
             c \<leftarrow> context_impl_at (sub_context impl) w;
             Some (g \<in> local_publication_guids c, w) })"

text \<open>One round of \<^verbatim>\<open>take_visible_sample\<close> up to the visibility test: \<open>DDS_RETCODE_OK\<close> with a sample only.\<close>

definition take_one :: "env \<Rightarrow> ptr \<Rightarrow> world \<Rightarrow> (dds_ret \<times> raw_sample) result" where
  "take_one E reader w =
     (let ((ret, lent, answer), w) = take_raw E reader w;
          sample = no_sample\<lparr>loan := lent\<rparr>
      in if ret \<noteq> DDS_RETCODE_OK then Some ((ret, no_sample), w)
         else if raw_payloads answer = [] \<and> raw_infos answer = []
         then do {
           (returned, w) \<leftarrow> return_raw_loan E sample w;
           Some ((if returned = DDS_RETCODE_OK then DDS_RETCODE_NO_DATA else returned, no_sample), w) }
         else if length (raw_payloads answer) \<noteq> 1 \<or> raw_payloads_null answer \<or>
                 length (raw_infos answer) \<noteq> 1 \<or> raw_infos_null answer
         then do {
           (_, w) \<leftarrow> return_raw_loan E sample w;
           Some ((DDS_RETCODE_ERROR, no_sample), w) }
         else Some ((ret, sample\<lparr>loan_data := hd (raw_payloads answer), info := hd (raw_infos answer)\<rparr>), w))"

text \<open>The loop: it may run for ever, which is undefined (\<open>None\<close>) here.\<close>

partial_function (option) take_visible_sample ::
  "env \<Rightarrow> subscription_impl \<Rightarrow> world \<Rightarrow> ((dds_ret \<times> raw_sample) \<times> world) option" where
  "take_visible_sample E impl w = do {
     ((ret, sample), w) \<leftarrow> take_one E (sub_reader impl) w;
     if ret \<noteq> DDS_RETCODE_OK \<or> \<not> ignore_local_publications impl then Some ((ret, sample), w)
     else do {
       (local, w) \<leftarrow> is_local_publication E impl (publication_handle (info sample)) w;
       if \<not> local then Some ((ret, sample), w)
       else do {
         (_, w) \<leftarrow> return_raw_loan E sample w;
         take_visible_sample E impl w } } }"

section \<open>Message info\<close>

record message_info =
  source_timestamp :: int64
  received_timestamp :: int64
  publication_sequence_number :: uint64
  reception_sequence_number :: uint64
  publisher_gid :: rmw_gid
  from_intra_process :: bool

definition zero_message_info :: "env \<Rightarrow> message_info" where
  "zero_message_info E = \<lparr>source_timestamp = 0, received_timestamp = 0, publication_sequence_number = 0,
     reception_sequence_number = 0, publisher_gid = \<lparr>gid_identifier = NullIdentifier,
     gid_data = replicate (16 + gid_padding E) 0\<rparr>, from_intra_process = False\<rparr>"

text \<open>\<^verbatim>\<open>RCUTILS_S_TO_NS\<close> of the seconds as \<^verbatim>\<open>int64_t\<close>, plus the nanoseconds.\<close>

definition sample_time :: "sample_info \<Rightarrow> int64" where
  "sample_time source = scast (source_sec source) * 1000000000 + ucast (source_nanosec source)"

definition fill_message_info ::
  "env \<Rightarrow> ptr \<Rightarrow> sample_info \<Rightarrow> world \<Rightarrow> (bool \<times> message_info) \<times> world" where
  "fill_message_info E reader source w =
     (let now = time_answer E (trace w);
          w = record_call SystemTimeNow w;
          filled = (zero_message_info E)\<lparr>source_timestamp := sample_time source,
            received_timestamp := (case now of None \<Rightarrow> 0 | Some t \<Rightarrow> t),
            publication_sequence_number := - 1, reception_sequence_number := - 1\<rparr>;
          (answer, w) = guid_from_publication E reader (publication_handle source) w
      in case answer of
           None \<Rightarrow> ((False, filled), w)
         | Some g \<Rightarrow> ((True, filled\<lparr>publisher_gid := gid_of E g, from_intra_process := False\<rparr>), w))"

section \<open>Taking a message\<close>

text \<open>
  Outputs: an argument tells whether the pointer to the output is given, and the result holds what
  is written to it, \<open>None\<close> if nothing is.
\<close>

definition rmw_take :: "env \<Rightarrow> ptr \<Rightarrow> ptr \<Rightarrow> bool \<Rightarrow> world \<Rightarrow> (rmw_ret \<times> bool option) result" where
  "rmw_take E subscription ros_message taken w = do {
     validation \<leftarrow> validate_subscription subscription w;
     if validation \<noteq> RMW_RET_OK then Some ((validation, None), w)
     else if ros_message = nullptr \<or> \<not> taken then Some ((RMW_RET_INVALID_ARGUMENT, None), w)
     else do {
       s \<leftarrow> subscription_at subscription w;
       impl \<leftarrow> subscription_impl_at (handle_data s) w;
       ((ret, sample), w) \<leftarrow> take_visible_sample E impl w;
       if ret = DDS_RETCODE_NO_DATA then Some ((RMW_RET_OK, Some False), w)
       else if ret \<noteq> DDS_RETCODE_OK then Some ((RMW_RET_ERROR, Some False), w)
       else do {
         (decoded, w) \<leftarrow> (if valid_data (info sample)
                         then read_message E (sub_callbacks impl) (loan_data sample) ros_message w
                         else Some (False, w));
         (returned, w) \<leftarrow> return_raw_loan E sample w;
         Some (if returned \<noteq> DDS_RETCODE_OK then (RMW_RET_ERROR, Some False)
               else if valid_data (info sample) \<and> \<not> decoded then (RMW_RET_ERROR, Some False)
               else (RMW_RET_OK, Some (valid_data (info sample))), w) } } }"

definition rmw_take_with_info ::
  "env \<Rightarrow> ptr \<Rightarrow> ptr \<Rightarrow> bool \<Rightarrow> bool \<Rightarrow> world \<Rightarrow> (rmw_ret \<times> bool option \<times> message_info option) result" where
  "rmw_take_with_info E subscription ros_message taken message_info w = do {
     validation \<leftarrow> validate_subscription subscription w;
     if validation \<noteq> RMW_RET_OK then Some ((validation, None, None), w)
     else if ros_message = nullptr \<or> \<not> taken \<or> \<not> message_info
     then Some ((RMW_RET_INVALID_ARGUMENT, None, None), w)
     else do {
       s \<leftarrow> subscription_at subscription w;
       impl \<leftarrow> subscription_impl_at (handle_data s) w;
       ((ret, sample), w) \<leftarrow> take_visible_sample E impl w;
       if ret = DDS_RETCODE_NO_DATA then Some ((RMW_RET_OK, Some False, None), w)
       else if ret \<noteq> DDS_RETCODE_OK then Some ((RMW_RET_ERROR, Some False, None), w)
       else do {
         (decoded, w) \<leftarrow> (if valid_data (info sample)
                         then read_message E (sub_callbacks impl) (loan_data sample) ros_message w
                         else Some (True, w));
         (_, w) \<leftarrow> return_raw_loan E sample w;
         if \<not> decoded then Some ((RMW_RET_ERROR, Some False, None), w)
         else if \<not> valid_data (info sample) then Some ((RMW_RET_OK, Some False, None), w)
         else let ((resolved, filled), w) = fill_message_info E (sub_reader impl) (info sample) w
         in Some (if resolved then (RMW_RET_OK, Some True, Some filled)
                  else (RMW_RET_ERROR, Some False, Some filled), w) } } }"

section \<open>Taking a serialized message\<close>

text \<open>\<^verbatim>\<open>memcpy\<close> into the buffer, which is grown first where it is too small.\<close>

definition fill_buffer :: "ptr \<Rightarrow> uint8 list \<Rightarrow> world \<Rightarrow> world option" where
  "fill_buffer message bytes w = do {
     m \<leftarrow> serialized_at message w;
     if buffer_capacity m < length bytes then None
     else Some (store message (SerializedMessage (m\<lparr>buffer := overwrite bytes (buffer m),
                  buffer_length := length bytes\<rparr>)) w) }"

definition make_room :: "env \<Rightarrow> ptr \<Rightarrow> raw_sample \<Rightarrow> world \<Rightarrow> rmw_ret result" where
  "make_room E message sample w = do {
     m \<leftarrow> serialized_at message w;
     Some (if valid_data (info sample) \<and> buffer_capacity m < length (loan_data sample)
           then resize_array E message m (length (loan_data sample)) w
           else (RMW_RET_OK, w)) }"

definition rmw_take_serialized_message ::
  "env \<Rightarrow> ptr \<Rightarrow> ptr \<Rightarrow> bool \<Rightarrow> world \<Rightarrow> (rmw_ret \<times> bool option) result" where
  "rmw_take_serialized_message E subscription message taken w = do {
     validation \<leftarrow> validate_subscription subscription w;
     if validation \<noteq> RMW_RET_OK then Some ((validation, None), w)
     else if message = nullptr \<or> \<not> taken then Some ((RMW_RET_INVALID_ARGUMENT, None), w)
     else do {
       s \<leftarrow> subscription_at subscription w;
       impl \<leftarrow> subscription_impl_at (handle_data s) w;
       ((ret, sample), w) \<leftarrow> take_visible_sample E impl w;
       if ret = DDS_RETCODE_NO_DATA then Some ((RMW_RET_OK, Some False), w)
       else if ret \<noteq> DDS_RETCODE_OK then Some ((RMW_RET_ERROR, Some False), w)
       else do {
         (resize, w) \<leftarrow> make_room E message sample w;
         if resize \<noteq> RMW_RET_OK
         then do {
           (_, w) \<leftarrow> return_raw_loan E sample w;
           Some ((if resize = RMW_RET_BAD_ALLOC then RMW_RET_BAD_ALLOC else RMW_RET_ERROR, Some False), w) }
         else do {
           w \<leftarrow> (if valid_data (info sample) then fill_buffer message (loan_data sample) w else Some w);
           (_, w) \<leftarrow> return_raw_loan E sample w;
           Some ((RMW_RET_OK, Some (valid_data (info sample))), w) } } } }"

definition rmw_take_serialized_message_with_info ::
  "env \<Rightarrow> ptr \<Rightarrow> ptr \<Rightarrow> bool \<Rightarrow> bool \<Rightarrow> world \<Rightarrow> (rmw_ret \<times> bool option \<times> message_info option) result"
  where
  "rmw_take_serialized_message_with_info E subscription message taken message_info w =
     (if \<not> message_info then Some ((RMW_RET_INVALID_ARGUMENT, None, None), w)
      else do {
        validation \<leftarrow> validate_subscription subscription w;
        if validation \<noteq> RMW_RET_OK then Some ((validation, None, None), w)
        else if message = nullptr \<or> \<not> taken then Some ((RMW_RET_INVALID_ARGUMENT, None, None), w)
        else do {
          s \<leftarrow> subscription_at subscription w;
          impl \<leftarrow> subscription_impl_at (handle_data s) w;
          ((ret, sample), w) \<leftarrow> take_visible_sample E impl w;
          if ret = DDS_RETCODE_NO_DATA then Some ((RMW_RET_OK, Some False, None), w)
          else if ret \<noteq> DDS_RETCODE_OK then Some ((RMW_RET_ERROR, Some False, None), w)
          else do {
            (resize, w) \<leftarrow> make_room E message sample w;
            if resize \<noteq> RMW_RET_OK
            then do {
              (_, w) \<leftarrow> return_raw_loan E sample w;
              Some ((RMW_RET_BAD_ALLOC, Some False, None), w) }
            else if \<not> valid_data (info sample)
            then do {
              (_, w) \<leftarrow> return_raw_loan E sample w;
              Some ((RMW_RET_OK, Some False, None), w) }
            else do {
              w \<leftarrow> fill_buffer message (loan_data sample) w;
              let ((resolved, filled), w) = fill_message_info E (sub_reader impl) (info sample) w;
              (_, w) \<leftarrow> return_raw_loan E sample w;
              Some (if resolved then (RMW_RET_OK, Some True, Some filled)
                    else (RMW_RET_ERROR, Some False, Some filled), w) } } } })"

section \<open>Taking a sequence\<close>

text \<open>
  An array of messages: the data pointer, whose array holds at least \<open>capacity\<close> pointers, and the
  array of infos, of which only the capacity matters here. Reading past an array is undefined.
\<close>

record message_sequence =
  sequence_data :: "ptr list option"
  sequence_capacity :: size_t

record info_sequence =
  infos_null :: bool
  infos_capacity :: size_t

text \<open>The loop: the infos of the messages taken, with the return code of a failed take.\<close>

fun take_each :: "env \<Rightarrow> ptr \<Rightarrow> nat \<Rightarrow> ptr list \<Rightarrow> world \<Rightarrow> (rmw_ret \<times> message_info list) result" where
  "take_each E subscription 0 _ w = Some ((RMW_RET_OK, []), w)"
| "take_each E subscription (Suc n) [] w = None"
| "take_each E subscription (Suc n) (m # ms) w = do {
     ((ret, taken, filled), w) \<leftarrow> rmw_take_with_info E subscription m True True w;
     if ret \<noteq> RMW_RET_OK then Some ((ret, []), w)
     else case (taken, filled) of
       (Some True, Some i) \<Rightarrow> do {
         ((ret, infos), w) \<leftarrow> take_each E subscription n ms w;
         Some ((ret, i # infos), w) }
     | _ \<Rightarrow> Some ((RMW_RET_OK, []), w) }"

text \<open>
  The result: the return code, the infos written (as many as \<^verbatim>\<open>*taken\<close> says) and the size written to
  both sequences, \<open>None\<close> where it is not.
\<close>

definition rmw_take_sequence ::
  "env \<Rightarrow> ptr \<Rightarrow> size_t \<Rightarrow> message_sequence option \<Rightarrow> info_sequence option \<Rightarrow> bool \<Rightarrow> world \<Rightarrow>
   (rmw_ret \<times> message_info list \<times> nat option) result" where
  "rmw_take_sequence E subscription n messages infos taken w = do {
     validation \<leftarrow> validate_subscription subscription w;
     if validation \<noteq> RMW_RET_OK then Some ((validation, [], None), w)
     else case (messages, infos) of
       (Some ms, Some is) \<Rightarrow>
         (case sequence_data ms of
            None \<Rightarrow> Some ((RMW_RET_INVALID_ARGUMENT, [], None), w)
          | Some ps \<Rightarrow>
              if n = 0 \<or> \<not> taken \<or> infos_null is \<or> sequence_capacity ms < n \<or> infos_capacity is < n
              then Some ((RMW_RET_INVALID_ARGUMENT, [], None), w)
              else do {
                ((ret, filled), w) \<leftarrow> take_each E subscription (unat n) ps w;
                Some ((ret, filled, if ret = RMW_RET_OK then Some (length filled) else None), w) })
     | _ \<Rightarrow> Some ((RMW_RET_INVALID_ARGUMENT, [], None), w) }"

section \<open>Loans\<close>

definition erase_taken :: "ptr \<Rightarrow> ptr \<Rightarrow> world \<Rightarrow> bool result" where
  "erase_taken p message w = do {
     impl \<leftarrow> subscription_impl_at p w;
     Some (message \<in> sub_loaned impl,
           store p (SubscriptionImpl (impl\<lparr>sub_loaned := sub_loaned impl - {message}\<rparr>)) w) }"

definition insert_taken :: "ptr \<Rightarrow> ptr \<Rightarrow> world \<Rightarrow> world option" where
  "insert_taken p message w = do {
     impl \<leftarrow> subscription_impl_at p w;
     Some (store p (SubscriptionImpl (impl\<lparr>sub_loaned := insert message (sub_loaned impl)\<rparr>)) w) }"

text \<open>From the decoded message on: it becomes a loan, unless its info cannot be given.\<close>

definition lend_message ::
  "env \<Rightarrow> ptr \<Rightarrow> subscription_impl \<Rightarrow> ptr \<Rightarrow> sample_info \<Rightarrow> bool \<Rightarrow> world \<Rightarrow>
   (rmw_ret \<times> ptr option \<times> message_info option) result" where
  "lend_message E p impl message source message_info w =
     (let (room, w) = call_ok E GrowContainer w
      in if \<not> room
         then do {
           w \<leftarrow> destroy_ros_message message w;
           Some ((RMW_RET_BAD_ALLOC, None, None), w) }
         else do {
           w \<leftarrow> insert_taken p message w;
           if \<not> message_info then Some ((RMW_RET_OK, Some message, None), w)
           else let ((resolved, filled), w) = fill_message_info E (sub_reader impl) source w
           in if resolved then Some ((RMW_RET_OK, Some message, Some filled), w)
              else do {
                (_, w) \<leftarrow> erase_taken p message w;
                w \<leftarrow> destroy_ros_message message w;
                Some ((RMW_RET_ERROR, None, Some filled), w) } })"

text \<open>\<open>p\<close> points to the implementation object; \<^verbatim>\<open>*taken\<close> becomes true where a message is given.\<close>

definition take_compatibility_loan ::
  "env \<Rightarrow> ptr \<Rightarrow> bool \<Rightarrow> world \<Rightarrow> (rmw_ret \<times> ptr option \<times> message_info option) result" where
  "take_compatibility_loan E p message_info w = do {
     impl \<leftarrow> subscription_impl_at p w;
     let (message, w) = create_ros_message E (sub_callbacks impl) w;
     if message = nullptr then Some ((RMW_RET_BAD_ALLOC, None, None), w)
     else do {
       ((ret, sample), w) \<leftarrow> take_visible_sample E impl w;
       if ret \<noteq> DDS_RETCODE_OK
       then do {
         w \<leftarrow> destroy_ros_message message w;
         Some ((if ret = DDS_RETCODE_NO_DATA then RMW_RET_OK else RMW_RET_ERROR, None, None), w) }
       else do {
         (decoded, w) \<leftarrow> (if valid_data (info sample)
                         then read_message E (sub_callbacks impl) (loan_data sample) message w
                         else Some (True, w));
         (returned, w) \<leftarrow> return_raw_loan E sample w;
         if returned \<noteq> DDS_RETCODE_OK \<or> \<not> decoded
         then do {
           w \<leftarrow> destroy_ros_message message w;
           Some ((RMW_RET_ERROR, None, None), w) }
         else if \<not> valid_data (info sample)
         then do {
           w \<leftarrow> destroy_ros_message message w;
           Some ((RMW_RET_OK, None, None), w) }
         else lend_message E p impl message (info sample) message_info w } } }"

definition rmw_take_loaned_message ::
  "env \<Rightarrow> ptr \<Rightarrow> ptr option \<Rightarrow> bool \<Rightarrow> world \<Rightarrow> (rmw_ret \<times> ptr option) result" where
  "rmw_take_loaned_message E subscription loaned_message taken w = do {
     validation \<leftarrow> validate_subscription subscription w;
     if validation \<noteq> RMW_RET_OK then Some ((validation, None), w)
     else if loaned_message \<noteq> Some nullptr \<or> \<not> taken then Some ((RMW_RET_INVALID_ARGUMENT, None), w)
     else do {
       s \<leftarrow> subscription_at subscription w;
       ((ret, message, _), w) \<leftarrow> take_compatibility_loan E (handle_data s) False w;
       Some ((ret, message), w) } }"

definition rmw_take_loaned_message_with_info ::
  "env \<Rightarrow> ptr \<Rightarrow> ptr option \<Rightarrow> bool \<Rightarrow> bool \<Rightarrow> world \<Rightarrow> (rmw_ret \<times> ptr option \<times> message_info option) result"
  where
  "rmw_take_loaned_message_with_info E subscription loaned_message taken message_info w = do {
     validation \<leftarrow> validate_subscription subscription w;
     if validation \<noteq> RMW_RET_OK then Some ((validation, None, None), w)
     else if loaned_message \<noteq> Some nullptr \<or> \<not> taken \<or> \<not> message_info
     then Some ((RMW_RET_INVALID_ARGUMENT, None, None), w)
     else do {
       s \<leftarrow> subscription_at subscription w;
       take_compatibility_loan E (handle_data s) True w } }"

definition rmw_return_loaned_message_from_subscription :: "ptr \<Rightarrow> ptr \<Rightarrow> world \<Rightarrow> rmw_ret result" where
  "rmw_return_loaned_message_from_subscription subscription loaned_message w = do {
     validation \<leftarrow> validate_subscription subscription w;
     if validation \<noteq> RMW_RET_OK then Some (validation, w)
     else if loaned_message = nullptr then Some (RMW_RET_INVALID_ARGUMENT, w)
     else do {
       s \<leftarrow> subscription_at subscription w;
       (erased, w) \<leftarrow> erase_taken (handle_data s) loaned_message w;
       if \<not> erased then Some (RMW_RET_ERROR, w)
       else do {
         w \<leftarrow> destroy_ros_message loaned_message w;
         Some (RMW_RET_OK, w) } } }"

section \<open>The content filter\<close>

definition rmw_subscription_get_actual_qos ::
  "ptr \<Rightarrow> bool \<Rightarrow> world \<Rightarrow> (rmw_ret \<times> rmw_qos_profile option) result" where
  "rmw_subscription_get_actual_qos subscription qos_output w = do {
     validation \<leftarrow> validate_subscription subscription w;
     if validation \<noteq> RMW_RET_OK then Some ((validation, None), w)
     else if \<not> qos_output then Some ((RMW_RET_INVALID_ARGUMENT, None), w)
     else do {
       s \<leftarrow> subscription_at subscription w;
       impl \<leftarrow> subscription_impl_at (handle_data s) w;
       Some ((RMW_RET_OK, Some (sub_qos impl)), w) } }"

text \<open>
  Setting the filter in place. A filtered topic that is not one of zzdds is an error like a rejected
  expression: the answer to \<open>SetFilterExpression\<close> stands for both.
\<close>

definition rmw_subscription_set_content_filter ::
  "env \<Rightarrow> ptr \<Rightarrow> filter_options option \<Rightarrow> world \<Rightarrow> rmw_ret result" where
  "rmw_subscription_set_content_filter E subscription options w = do {
     validation \<leftarrow> validate_subscription subscription w;
     if validation \<noteq> RMW_RET_OK then Some (validation, w)
     else case options of
       None \<Rightarrow> Some (RMW_RET_INVALID_ARGUMENT, w)
     | Some x \<Rightarrow>
         (case filter_expression x of
            None \<Rightarrow> Some (RMW_RET_INVALID_ARGUMENT, w)
          | Some expression \<Rightarrow> do {
              (parameters, w) \<leftarrow> make_dds_string_seq E x w;
              case parameters of
                None \<Rightarrow> Some (RMW_RET_INVALID_ARGUMENT, w)
              | Some ps \<Rightarrow> do {
                  s \<leftarrow> subscription_at subscription w;
                  impl \<leftarrow> subscription_impl_at (handle_data s) w;
                  let (ret, w) = call_dds E (SetFilterExpression (sub_filtered_topic impl) expression ps) w;
                  if ret = DDS_RETCODE_OUT_OF_RESOURCES then Some (RMW_RET_BAD_ALLOC, w)
                  else if ret \<noteq> DDS_RETCODE_OK then Some (RMW_RET_ERROR, w)
                  else Some (RMW_RET_OK, store subscription
                         (SubscriptionHandle (s\<lparr>is_cft_enabled := expression \<noteq> ''''\<rparr>)) w) } }) }"

text \<open>
  Reading it back: the parameters come in a sequence that zzdds allocates. A null expression is read
  like an empty one.
\<close>

definition rmw_subscription_get_content_filter ::
  "env \<Rightarrow> ptr \<Rightarrow> bool \<Rightarrow> bool \<Rightarrow> world \<Rightarrow> (rmw_ret \<times> (string \<times> string list) option) result" where
  "rmw_subscription_get_content_filter E subscription valid_allocator options w = do {
     validation \<leftarrow> validate_subscription subscription w;
     if validation \<noteq> RMW_RET_OK then Some ((validation, None), w)
     else if \<not> valid_allocator \<or> \<not> options then Some ((RMW_RET_INVALID_ARGUMENT, None), w)
     else do {
       s \<leftarrow> subscription_at subscription w;
       impl \<leftarrow> subscription_impl_at (handle_data s) w;
       let expression = string_answer E (trace w) (GetFilterExpression (sub_filtered_topic impl));
       let w = record_call (GetFilterExpression (sub_filtered_topic impl)) w;
       if expression = '''' then Some ((RMW_RET_UNSUPPORTED, None), w)
       else let parameters = string_list_answer E (trace w) (GetFilterParameters (sub_filtered_topic impl));
                (ret, w) = call_dds E (GetFilterParameters (sub_filtered_topic impl)) w
       in if ret \<noteq> DDS_RETCODE_OK then Some ((RMW_RET_ERROR, None), w)
       else let (sequence, w) = hold StringSequence w;
                (room, w) = call_ok E GrowContainer w
       in if \<not> room
       then do {
         w \<leftarrow> destroy StringSequence sequence w;
         Some ((RMW_RET_BAD_ALLOC, None), w) }
       else let (ret, w) = call_rmw E (InitFilterOptions expression parameters) w
       in do {
         w \<leftarrow> destroy StringSequence sequence w;
         Some ((ret, if ret = RMW_RET_OK then Some (expression, parameters) else None), w) } } }"

end
