(* ===== verification/Taking_Props.thy ===== *)
theory Taking_Props
  imports Taking
begin

text \<open>
  The take operations: they return while zzdds has finitely many samples to offer, give every sample
  they were lent back, and deliver the visible samples in order. A loaned message has a life like any
  other entity.
\<close>

section \<open>Steps over the primitives\<close>

lemma given_pair_applied [step]:
  "given h e rs w (f a b c) Q \<Longrightarrow> given h e rs w ((case (a, b) of (x, y) \<Rightarrow> f x y) c) Q"
  "given h e rs w (Option.bind (f a b c) g) Q \<Longrightarrow>
   given h e rs w (Option.bind ((case (a, b) of (x, y) \<Rightarrow> f x y) c) g) Q"
  by simp_all

lemma given_subscription_at [step]:
  assumes "\<exists>x. h p = Some (SubscriptionHandle x)"
    and "\<And>x. Some (SubscriptionHandle x) = h p \<Longrightarrow> given h e rs w (f x) Q"
  shows "given h e rs w (Option.bind (subscription_at p w) f) Q"
  using assms by (auto simp: given_def subscription_at_def ledger_same [of h e rs w])

lemma given_subscription_impl_at [step]:
  assumes "\<exists>x. h p = Some (SubscriptionImpl x)"
    and "\<And>x. Some (SubscriptionImpl x) = h p \<Longrightarrow> given h e rs w (f x) Q"
  shows "given h e rs w (Option.bind (subscription_impl_at p w) f) Q"
  using assms by (auto simp: given_def subscription_impl_at_def ledger_same [of h e rs w])

lemma given_validate_subscription [step]:
  assumes "\<exists>s. p \<noteq> nullptr \<and> h p = Some (SubscriptionHandle s) \<and> handle_data s \<noteq> nullptr \<and>
      handle_identifier s = ZzddsIdentifier"
    and "given h e rs w (f RMW_RET_OK) Q"
  shows "given h e rs w (Option.bind (validate_subscription p w) f) Q"
  using assms by (auto simp: given_def validate_subscription_def subscription_at_def ledger_same [of h e rs w])

text \<open>
  zzdds has finitely many samples to offer: \<open>b\<close> bounds how many, each take of one lowers it and no call
  of this layer raises it.
\<close>

definition drains :: "env \<Rightarrow> ptr \<Rightarrow> (call list \<Rightarrow> nat) \<Rightarrow> bool" where
  "drains E reader b \<longleftrightarrow> (\<forall>c t. b (c # t) \<le> b t) \<and>
     (\<forall>t. dds_code E t (TakeRaw reader) = DDS_RETCODE_OK \<longrightarrow>
          raw_payloads (take_answer E t (TakeRaw reader)) \<noteq> [] \<longrightarrow> b (TakeRaw reader # t) < b t)"

definition finite_backlog :: "env \<Rightarrow> ptr \<Rightarrow> bool" where
  "finite_backlog E reader \<longleftrightarrow> (\<exists>b. drains E reader b)"

lemma drains_mono: "drains E r b \<Longrightarrow> b (c # t) \<le> b t"
  by (simp add: drains_def)

lemma ledger_hold: "ledger h e rs w \<Longrightarrow> ledger h e (Entity kind (next_ptr w) # rs) (snd (hold kind w))"
  by (auto simp: hold_def ledger_def wf_world_def)

text \<open>One round: \<open>DDS_RETCODE_OK\<close> exactly if a sample is lent, and then the backlog got smaller.\<close>

lemma return_raw_loan_ledger:
  assumes "ledger h e (Entity RawSampleLoan (loan s) # rs) w" "loan s \<noteq> nullptr" "deletes_succeed E"
  shows "\<exists>w'. return_raw_loan E s w = Some (DDS_RETCODE_OK, w') \<and> ledger h e rs w' \<and>
    trace w' = Delete RawSampleLoan (loan s) # trace w"
  using ledger_without_entity [of h e "[]" RawSampleLoan "loan s" rs w] assms
  by (auto simp: return_raw_loan_def delete_def call_dds_def deletes_succeed_def ledger_record_entities)

lemma take_one_ledger:
  assumes "ledger h e rs w" "deletes_succeed E" "drains E reader b"
  shows "\<exists>ret s w'. take_one E reader w = Some ((ret, s), w') \<and> b (trace w') \<le> b (trace w) \<and>
    (if ret = DDS_RETCODE_OK
     then ledger h e (Entity RawSampleLoan (loan s) # rs) w' \<and> loan s \<noteq> nullptr \<and> b (trace w') < b (trace w)
     else s = no_sample \<and> ledger h e rs w')"
proof -
  let ?c = "TakeRaw reader" and ?w = "record_call (TakeRaw reader) w"
  let ?a = "take_answer E (trace w) ?c" and ?s = "no_sample\<lparr>loan := next_ptr w\<rparr>"
  have l: "ledger h e rs ?w" using assms(1) by simp
  have nz: "next_ptr w \<noteq> nullptr" using assms(1) by (auto simp: ledger_def wf_world_def)
  obtain W where hold: "hold RawSampleLoan ?w = (next_ptr w, W)" and t: "trace W = ?c # trace w"
    by (simp add: hold_def)
  have held: "ledger h e (Entity RawSampleLoan (loan ?s) # rs) W"
    using ledger_hold [OF l, of RawSampleLoan] hold by simp
  then obtain w' where w': "return_raw_loan E ?s W = Some (DDS_RETCODE_OK, w')"
      "ledger h e rs w'" "trace w' = Delete RawSampleLoan (loan ?s) # trace W"
    using return_raw_loan_ledger [OF held _ assms(2)] nz by auto
  have b: "b (?c # trace w) \<le> b (trace w)" "b (trace w') \<le> b (trace w)"
    using drains_mono [OF assms(3)] w'(3) t by (metis order_trans)+
  note eq = take_one_def take_raw_def call_dds_def
  show ?thesis
  proof (cases "dds_code E (trace w) ?c = DDS_RETCODE_OK")
    case False
    with l b show ?thesis by (simp add: eq)
  next
    case True
    show ?thesis
    proof (cases "length (raw_payloads ?a) \<noteq> 1 \<or> raw_payloads_null ?a \<or> length (raw_infos ?a) \<noteq> 1 \<or> raw_infos_null ?a")
      case bad: True
      then show ?thesis
        using True w' b hold by (auto simp: eq Let_def)
    next
      case good: False
      then have "raw_payloads ?a \<noteq> []" by auto
      with True assms(3) have "b (?c # trace w) < b (trace w)" by (simp add: drains_def)
      with good True held b t nz hold show ?thesis
        by (auto simp: eq Let_def)
    qed
  qed
qed

lemma is_local_publication_eq:
  assumes "heap w (sub_context i) = Some (ContextImpl c)"
  shows "is_local_publication E i p w =
    Some (case guid_answer E (trace w) (PublicationGuid (sub_reader i) p) of None \<Rightarrow> False
          | Some g \<Rightarrow> g \<in> local_publication_guids c, record_call (PublicationGuid (sub_reader i) p) w)"
  using assms
  by (auto simp: is_local_publication_def guid_from_publication_def call_guid_def context_impl_at_def split: option.splits)

text \<open>The loop returns, by induction on the backlog.\<close>

lemma take_visible_ledger:
  assumes "ledger h e rs w" "deletes_succeed E" "drains E (sub_reader i) b"
    and "h (sub_context i) = Some (ContextImpl c)"
  shows "\<exists>ret s w'. take_visible_sample E i w = Some ((ret, s), w') \<and>
    (if ret = DDS_RETCODE_OK then ledger h e (Entity RawSampleLoan (loan s) # rs) w' \<and> loan s \<noteq> nullptr
     else s = no_sample \<and> ledger h e rs w')"
  using assms(1)
proof (induction "b (trace w)" arbitrary: w rule: less_induct)
  case (less w)
  obtain ret s w1 where one: "take_one E (sub_reader i) w = Some ((ret, s), w1)"
    and l1: "if ret = DDS_RETCODE_OK
      then ledger h e (Entity RawSampleLoan (loan s) # rs) w1 \<and> loan s \<noteq> nullptr \<and> b (trace w1) < b (trace w)
      else s = no_sample \<and> ledger h e rs w1"
    using take_one_ledger [OF less.prems assms(2,3)] by blast
  show ?case
  proof (cases "ret = DDS_RETCODE_OK \<and> ignore_local_publications i")
    case False
    with one l1 show ?thesis by (subst take_visible_sample.simps) auto
  next
    case True
    let ?w2 = "record_call (PublicationGuid (sub_reader i) (publication_handle (info s))) w1"
    have l2: "ledger h e (Entity RawSampleLoan (loan s) # rs) ?w2" "loan s \<noteq> nullptr"
      "b (trace w1) < b (trace w)" using l1 True by simp_all
    have "heap w1 (sub_context i) = Some (ContextImpl c)"
      using l1 True ledger_old assms(4) by fastforce
    note local = is_local_publication_eq [OF this, of E "publication_handle (info s)"]
    obtain w3 where w3: "return_raw_loan E s ?w2 = Some (DDS_RETCODE_OK, w3)" "ledger h e rs w3"
        "trace w3 = Delete RawSampleLoan (loan s) # trace ?w2"
      using return_raw_loan_ledger [OF l2(1,2) assms(2)] by blast
    have "b (trace w3) < b (trace w)"
      using l2(3) w3(3) drains_mono [OF assms(3)] by (metis order.strict_trans1 record_call_simps(5))
    from less.hyps [OF this w3(2)] show ?thesis
      using one True local w3 l2 by (subst take_visible_sample.simps) (auto split: option.splits)
  qed
qed

lemma given_take_visible [step]:
  assumes "deletes_succeed E" "finite_backlog E (sub_reader i)" "\<exists>c. h (sub_context i) = Some (ContextImpl c)"
    and "\<And>ret s w'. ret = DDS_RETCODE_OK \<longleftrightarrow> loan s \<noteq> nullptr \<Longrightarrow>
      given h e (Entity RawSampleLoan (loan s) # rs) w' (f ((ret, s), w')) Q"
  shows "given h e rs w (Option.bind (take_visible_sample E i w) f) Q"
proof -
  obtain b where b: "drains E (sub_reader i) b" using assms(2) by (auto simp: finite_backlog_def)
  have "post (Option.bind (take_visible_sample E i w) f) Q" if l: "ledger h e rs w"
  proof -
    obtain ret s w' where r: "take_visible_sample E i w = Some ((ret, s), w')"
        "if ret = DDS_RETCODE_OK then ledger h e (Entity RawSampleLoan (loan s) # rs) w' \<and> loan s \<noteq> nullptr
         else s = no_sample \<and> ledger h e rs w'"
      using take_visible_ledger [OF l assms(1) b] assms(3) by blast
    then have "ret = DDS_RETCODE_OK \<longleftrightarrow> loan s \<noteq> nullptr" "ledger h e (Entity RawSampleLoan (loan s) # rs) w'"
      by (simp_all add: no_sample_def split: if_splits)
    from assms(4) [OF this(1)] this(2) r(1) show ?thesis by (simp add: given_def)
  qed
  then show ?thesis by (simp add: given_def)
qed

lemma given_return_raw_loan [step]:
  assumes "deletes_succeed E" "loan s \<noteq> nullptr" "\<And>w'. given h e rs w' (f (DDS_RETCODE_OK, w')) Q"
  shows "given h e (Entity RawSampleLoan (loan s) # rs) w (Option.bind (return_raw_loan E s w) f) Q"
  unfolding return_raw_loan_def by (intro step assms)

lemma given_fill_message_info [step]:
  assumes "\<And>good filled w'. given h e rs w' (f (good, filled) w') Q"
  shows "given h e rs w (let (r, w') = fill_message_info E reader source w in f r w') Q"
proof -
  have "ledger h e rs (snd (fill_message_info E reader source w))" if "ledger h e rs w"
    using that
    by (simp add: fill_message_info_def guid_from_publication_def call_guid_def Let_def split: option.split)
  with assms show ?thesis
    by (cases "fill_message_info E reader source w") (auto simp: given_def)
qed

text \<open>Reading into a message that was there before, and into one the operation made.\<close>

lemma given_read_message [step]:
  assumes "\<exists>v. h m = Some (RosMessage v)" "deserialize_fn cb \<noteq> None"
    and "\<And>v good w'. given (h(m \<mapsto> RosMessage v)) e rs w' (f (good, w')) Q"
  shows "given h e rs w (Option.bind (read_message E cb bytes m w) f) Q"
proof -
  obtain v d where v: "h m = Some (RosMessage v)" "deserialize_fn cb = Some d" using assms(1,2) by auto
  have "post (f (good, w)) Q" if "ledger h e rs w" for good
    using assms(3) [of v w good] that v by (simp add: given_def fun_upd_idem)
  moreover have "post (f (good, store m (RosMessage v') w)) Q" if "ledger h e rs w" for good v'
    using assms(3) [of v' "store m (RosMessage v') w" good] ledger_update [OF that v(1), of "RosMessage v'"]
    by (simp add: given_def)
  ultimately show ?thesis
    using v by (auto simp: given_def read_message_def ros_message_at_def ledger_same [of h e rs w] split: prod.split)
qed

lemma given_read_own_message [step]:
  assumes "m \<noteq> nullptr" "deserialize_fn cb \<noteq> None"
    and "\<And>v good w'. given h e (Entity k p # Memory m (RosMessage v) # rs) w' (f (good, w')) Q"
  shows "given h e (Entity k p # Memory m (RosMessage v) # rs) w
    (Option.bind (read_message E cb bytes m w) f) Q"
proof -
  obtain d where d: "deserialize_fn cb = Some d" using assms(2) by auto
  have "heap w m = Some (RosMessage v)" if "ledger h e (Entity k p # Memory m (RosMessage v) # rs) w"
    using that assms(1) by (simp add: ledger_def)
  moreover note assms(3) [of v w] assms(3) [of _ "store m (RosMessage _) w"]
    ledger_fill [of h e "[Entity k p]" m "RosMessage v" rs w, unfolded append.simps, OF _ assms(1)]
  ultimately show ?thesis
    using d by (auto simp: given_def read_message_def ros_message_at_def split: prod.split) blast
qed

lemma given_make_room [step]:
  assumes "\<exists>m. h p = Some (SerializedMessage m)"
    and "\<And>m r w'. (r = RMW_RET_OK \<Longrightarrow> valid_data (info s) \<Longrightarrow> length (loan_data s) \<le> buffer_capacity m) \<Longrightarrow>
      given (h(p \<mapsto> SerializedMessage m)) e rs w' (f (r, w')) Q"
  shows "given h e rs w (Option.bind (make_room E p s w) f) Q"
proof -
  obtain m where m: "h p = Some (SerializedMessage m)" using assms(1) by blast
  let ?c = "ResizeArray (length (loan_data s))"
  have "post (Option.bind (make_room E p s w) f) Q" if l: "ledger h e rs w"
  proof -
    have at: "serialized_at p w = Some m"
      using ledger_old [OF l m] by (simp add: serialized_at_def)
    note keep = assms(2) [of _ m, unfolded given_def, rule_format]
    show ?thesis
    proof (cases "valid_data (info s) \<and> buffer_capacity m < length (loan_data s)")
      case False
      then show ?thesis using keep [of RMW_RET_OK w] at l m by (auto simp: make_room_def fun_upd_idem)
    next
      case True
      let ?m = "m\<lparr>buffer := take (length (loan_data s)) (buffer m @ replicate (length (loan_data s)) 0),
        buffer_length := min (length (loan_data s)) (buffer_length m), buffer_null := False\<rparr>"
      have "ledger (h(p \<mapsto> SerializedMessage ?m)) e rs (store p (SerializedMessage ?m) (record_call ?c w))"
        by (rule ledger_update [where h = h and x = "SerializedMessage m"]) (simp_all add: l m)
      then show ?thesis
        using True at m l keep [of "rmw_code E (trace w) ?c" "record_call ?c w"]
          assms(2) [of RMW_RET_OK ?m "store p (SerializedMessage ?m) (record_call ?c w)"]
        by (auto simp: make_room_def resize_array_def call_rmw_def Let_def fun_upd_idem given_def buffer_capacity_def)
    qed
  qed
  then show ?thesis by (simp add: given_def)
qed

lemma given_fill_buffer [step]:
  assumes "\<exists>m. h p = Some (SerializedMessage m) \<and> length bytes \<le> buffer_capacity m"
    and "\<And>m w'. given (h(p \<mapsto> SerializedMessage m)) e rs w' (f w') Q"
  shows "given h e rs w (Option.bind (fill_buffer p bytes w) f) Q"
proof -
  obtain m where m: "h p = Some (SerializedMessage m)" "length bytes \<le> buffer_capacity m" using assms(1) by blast
  let ?m = "m\<lparr>buffer := overwrite bytes (buffer m), buffer_length := length bytes\<rparr>"
  have "post (f (store p (SerializedMessage ?m) w)) Q" if "ledger h e rs w"
    using assms(2) [of ?m "store p (SerializedMessage ?m) w"] ledger_update [OF that m(1), of "SerializedMessage ?m"]
    by (simp add: given_def)
  then show ?thesis
    using m by (auto simp: given_def fill_buffer_def serialized_at_def ledger_same [of h e rs w])
qed

section \<open>Every sample is given back\<close>

definition live_subscription ::
  "ptr \<Rightarrow> ptr \<Rightarrow> subscription_impl \<Rightarrow> (ptr \<Rightarrow> object option) \<Rightarrow> bool" where
  "live_subscription subscription p i h \<longleftrightarrow> subscription \<noteq> nullptr \<and> p \<noteq> nullptr \<and>
     (\<exists>s. h subscription = Some (SubscriptionHandle s) \<and> handle_data s = p \<and>
          handle_identifier s = ZzddsIdentifier) \<and>
     h p = Some (SubscriptionImpl i) \<and> (\<exists>c. h (sub_context i) = Some (ContextImpl c)) \<and>
     complete_callbacks (sub_callbacks i)"

lemma live_subscriptionD:
  assumes "live_subscription subscription p i h"
  shows "subscription \<noteq> nullptr" "p \<noteq> nullptr" "h p = Some (SubscriptionImpl i)"
    "\<exists>c. h (sub_context i) = Some (ContextImpl c)" "\<exists>x. deserialize_fn (sub_callbacks i) = Some x"
    "\<exists>s. h subscription = Some (SubscriptionHandle s) \<and> handle_data s = p \<and> handle_identifier s = ZzddsIdentifier"
  using assms by (auto simp: live_subscription_def complete_callbacks_def)

lemma live_subscription_update:
  assumes "live_subscription subscription p i h" "h m = Some x"
    and "\<And>y. x \<noteq> SubscriptionHandle y" "\<And>y. x \<noteq> SubscriptionImpl y" "\<And>y. x \<noteq> ContextImpl y"
  shows "live_subscription subscription p i (h(m \<mapsto> z))"
proof -
  have "h m \<noteq> Some (SubscriptionHandle s)" "h m \<noteq> Some (SubscriptionImpl j)" "h m \<noteq> Some (ContextImpl c)"
    for s j c using assms(2-5) by simp_all
  then have "m \<noteq> subscription" "m \<noteq> p" "m \<noteq> sub_context i"
    using assms(1) by (auto simp: live_subscription_def)
  with assms(1) show ?thesis by (simp add: live_subscription_def)
qed

lemma take_message_returns:
  assumes "live_subscription subscription p i h" "deletes_succeed E" "finite_backlog E (sub_reader i)"
    and "h m = Some (RosMessage v0)" "m \<noteq> nullptr"
  shows "given h e [] w (rmw_take E subscription m taken w)
      (\<lambda>(r, w'). \<exists>v. ledger (h(m \<mapsto> RosMessage v)) e [] w')"
    and "given h e [] w (rmw_take_with_info E subscription m taken message_info w)
      (\<lambda>(r, w'). \<exists>v. ledger (h(m \<mapsto> RosMessage v)) e [] w')"
proof -
  note D = live_subscriptionD [OF assms(1)]
  obtain s where s: "h subscription = Some (SubscriptionHandle s)" "handle_data s = p"
      "handle_identifier s = ZzddsIdentifier"
    using D(6) by blast
  have unchanged: "\<exists>v. ledger (h(m \<mapsto> RosMessage v)) e [] w'" if "ledger h e [] w'" for w'
    using that assms(4) by (intro exI [of _ v0]) (simp add: fun_upd_idem)
  show "given h e [] w (rmw_take E subscription m taken w)
      (\<lambda>(r, w'). \<exists>v. ledger (h(m \<mapsto> RosMessage v)) e [] w')"
    unfolding rmw_take_def
    using D(1-5) s assms(2,4,5)
    apply (intro step)
    apply (simp_all add: unchanged assms(3))
    apply blast+
    done
  show "given h e [] w (rmw_take_with_info E subscription m taken message_info w)
      (\<lambda>(r, w'). \<exists>v. ledger (h(m \<mapsto> RosMessage v)) e [] w')"
    unfolding rmw_take_with_info_def
    using D(1-5) s assms(2,4,5)
    apply (intro step)
    apply (simp_all add: unchanged assms(3))
    apply blast+
    done
qed

lemma take_serialized_returns:
  assumes "live_subscription subscription p i h" "deletes_succeed E" "finite_backlog E (sub_reader i)"
    and "h m = Some (SerializedMessage m0)" "m \<noteq> nullptr"
  shows "given h e [] w (rmw_take_serialized_message E subscription m taken w)
      (\<lambda>(r, w'). \<exists>v. ledger (h(m \<mapsto> SerializedMessage v)) e [] w')"
    and "given h e [] w (rmw_take_serialized_message_with_info E subscription m taken message_info w)
      (\<lambda>(r, w'). \<exists>v. ledger (h(m \<mapsto> SerializedMessage v)) e [] w')"
proof -
  note D = live_subscriptionD [OF assms(1)]
  obtain s where s: "h subscription = Some (SubscriptionHandle s)" "handle_data s = p"
      "handle_identifier s = ZzddsIdentifier"
    using D(6) by blast
  have unchanged: "\<exists>v. ledger (h(m \<mapsto> SerializedMessage v)) e [] w'" if "ledger h e [] w'" for w'
    using that assms(4) by (intro exI [of _ m0]) (simp add: fun_upd_idem)
  show "given h e [] w (rmw_take_serialized_message E subscription m taken w)
      (\<lambda>(r, w'). \<exists>v. ledger (h(m \<mapsto> SerializedMessage v)) e [] w')"
    unfolding rmw_take_serialized_message_def
    using D(1-5) s assms(2,4,5)
    apply (intro step)
    apply (simp_all add: unchanged assms(3))
    apply blast+
    done
  show "given h e [] w (rmw_take_serialized_message_with_info E subscription m taken message_info w)
      (\<lambda>(r, w'). \<exists>v. ledger (h(m \<mapsto> SerializedMessage v)) e [] w')"
    unfolding rmw_take_serialized_message_with_info_def
    using D(1-5) s assms(2,4,5)
    apply (intro step)
    apply (simp_all add: unchanged assms(3))
    apply blast+
    done
qed

text \<open>A sequence, by induction on the messages to fill in.\<close>

lemma take_each_returns:
  assumes "live_subscription subscription p i h" "deletes_succeed E" "finite_backlog E (sub_reader i)"
    and "\<forall>m \<in> set ms. m \<noteq> nullptr \<and> (\<exists>v. h m = Some (RosMessage v))" "n \<le> length ms"
    and "ledger h e [] w"
  shows "\<exists>r w' h'. take_each E subscription n ms w = Some (r, w') \<and> ledger h' e [] w' \<and>
    (\<forall>q. q \<notin> set ms \<longrightarrow> h' q = h q)"
  using assms
proof (induction n arbitrary: ms h w)
  case 0
  then show ?case by auto
next
  case (Suc n)
  then obtain m ms' where ms: "ms = m # ms'" by (cases ms) auto
  with Suc.prems(4) obtain v0 where m: "h m = Some (RosMessage v0)" "m \<noteq> nullptr" by auto
  obtain ret taken filled w1 v where take: "rmw_take_with_info E subscription m True True w = Some ((ret, taken, filled), w1)"
      and l1: "ledger (h(m \<mapsto> RosMessage v)) e [] w1"
    using take_message_returns(2) [OF Suc.prems(1-3) m, of e w True True] Suc.prems(6)
    by (auto simp: given_def post_ex)
  have live: "live_subscription subscription p i (h(m \<mapsto> RosMessage v))"
    using live_subscription_update [OF Suc.prems(1) m(1)] by simp
  have "\<forall>m' \<in> set ms'. m' \<noteq> nullptr \<and> (\<exists>v'. (h(m \<mapsto> RosMessage v)) m' = Some (RosMessage v'))"
    using Suc.prems(4) ms by auto
  from Suc.IH [OF live Suc.prems(2,3) this _ l1] obtain ret' infos w' h'
    where rest: "take_each E subscription n ms' w1 = Some ((ret', infos), w')" "ledger h' e [] w'"
      "\<forall>q. q \<notin> set ms' \<longrightarrow> h' q = (h(m \<mapsto> RosMessage v)) q"
    using Suc.prems(5) ms by auto
  show ?case
    using take l1 rest ms by (auto split: option.split bool.split)
qed

datatype take_request =
    TakeMessage ptr bool
  | TakeWithInfo ptr bool bool
  | TakeSerialized ptr bool
  | TakeSerializedWithInfo ptr bool bool
  | TakeSequence size_t "message_sequence option" "info_sequence option" bool

fun run_take :: "env \<Rightarrow> ptr \<Rightarrow> take_request \<Rightarrow> world \<Rightarrow> rmw_ret result" where
  "run_take E s (TakeMessage m t) w = do { ((ret, _), w) \<leftarrow> rmw_take E s m t w; Some (ret, w) }"
| "run_take E s (TakeWithInfo m t i) w = do { ((ret, _), w) \<leftarrow> rmw_take_with_info E s m t i w; Some (ret, w) }"
| "run_take E s (TakeSerialized m t) w = do { ((ret, _), w) \<leftarrow> rmw_take_serialized_message E s m t w; Some (ret, w) }"
| "run_take E s (TakeSerializedWithInfo m t i) w =
     do { ((ret, _), w) \<leftarrow> rmw_take_serialized_message_with_info E s m t i w; Some (ret, w) }"
| "run_take E s (TakeSequence n ms infos t) w = do { ((ret, _), w) \<leftarrow> rmw_take_sequence E s n ms infos t w; Some (ret, w) }"

fun targets :: "take_request \<Rightarrow> ptr set" where
  "targets (TakeMessage m t) = {m}"
| "targets (TakeWithInfo m t i) = {m}"
| "targets (TakeSerialized m t) = {m}"
| "targets (TakeSerializedWithInfo m t i) = {m}"
| "targets (TakeSequence n None infos t) = {}"
| "targets (TakeSequence n (Some ms) infos t) = (case sequence_data ms of None \<Rightarrow> {} | Some ps \<Rightarrow> set ps)"

text \<open>The messages to fill in exist, and an array is as long as its capacity says.\<close>

fun valid_take :: "world \<Rightarrow> take_request \<Rightarrow> bool" where
  "valid_take w (TakeMessage m t) \<longleftrightarrow> (\<exists>v. heap w m = Some (RosMessage v))"
| "valid_take w (TakeWithInfo m t i) \<longleftrightarrow> (\<exists>v. heap w m = Some (RosMessage v))"
| "valid_take w (TakeSerialized m t) \<longleftrightarrow> (\<exists>v. heap w m = Some (SerializedMessage v))"
| "valid_take w (TakeSerializedWithInfo m t i) \<longleftrightarrow> (\<exists>v. heap w m = Some (SerializedMessage v))"
| "valid_take w (TakeSequence n None infos t) \<longleftrightarrow> True"
| "valid_take w (TakeSequence n (Some ms) infos t) \<longleftrightarrow>
     (case sequence_data ms of None \<Rightarrow> True
      | Some ps \<Rightarrow> unat (sequence_capacity ms) \<le> length ps \<and>
          (\<forall>m \<in> set ps. \<exists>v. heap w m = Some (RosMessage v)))"

lemma take_sequence_returns:
  assumes "live_subscription s p i (heap w)" "deletes_succeed E" "finite_backlog E (sub_reader i)" "wf_world w"
    and "valid_take w (TakeSequence n ms infos t)"
  shows "post (rmw_take_sequence E s n ms infos t w) (\<lambda>(r, w').
    entities w' = entities w \<and> (\<forall>q. q \<notin> targets (TakeSequence n ms infos t) \<longrightarrow> heap w' q = heap w q))"
proof -
  have valid: "validate_subscription s w = Some RMW_RET_OK"
    using live_subscriptionD [OF assms(1)] by (auto simp: validate_subscription_def subscription_at_def)
  show ?thesis
  proof (cases "\<exists>m x ps. ms = Some m \<and> infos = Some x \<and> sequence_data m = Some ps \<and>
      \<not> (n = 0 \<or> \<not> t \<or> infos_null x \<or> sequence_capacity m < n \<or> infos_capacity x < n)")
    case False
    with valid show ?thesis
      by (auto simp: rmw_take_sequence_def split: option.split)
  next
    case True
    then obtain m x ps where m: "ms = Some m" "infos = Some x" "sequence_data m = Some ps"
      and ok: "\<not> (n = 0 \<or> \<not> t \<or> infos_null x \<or> sequence_capacity m < n \<or> infos_capacity x < n)"
      by blast
    have "unat n \<le> length ps" "\<forall>m \<in> set ps. m \<noteq> nullptr \<and> (\<exists>v. heap w m = Some (RosMessage v))"
      using assms(4,5) m ok wf_worldD(3) [OF assms(4)] by (auto simp: word_less_nat_alt)
    then obtain r w' h' where "take_each E s (unat n) ps w = Some (r, w')" "ledger h' (entities w) [] w'"
        "\<forall>q. q \<notin> set ps \<longrightarrow> h' q = heap w q"
      using take_each_returns [OF assms(1-3) _ _ ledger_start [OF assms(4)], of ps "unat n"] by blast
    with valid m ok show ?thesis
      by (auto simp: rmw_take_sequence_def split_beta dest!: ledger_empty)
  qed
qed

lemma only_filled:
  assumes "given h e [] w m (\<lambda>(r, w'). \<exists>v. ledger (h(p \<mapsto> f v)) e [] w')" "ledger h e [] w"
  shows "post (Option.bind m (\<lambda>((ret, _), w). Some (ret, w)))
    (\<lambda>(ret, w'). entities w' = e \<and> (\<forall>q. q \<noteq> p \<longrightarrow> heap w' q = h q))"
  using assms by (auto simp: given_def post_bind elim!: post_mono dest!: ledger_empty)

text \<open>
  C30. Every way of taking from a live subscription returns and has no undefined behaviour, whatever
  zzdds answers and whichever arguments are missing: the sample it was lent is given back on every
  path, errors included, and of the heap only the messages to fill in change, as long as zzdds has
  finitely many samples to offer (a subscription that ignores local publications skips those of its
  own context in a loop) and does not refuse a loan back.
\<close>

theorem takes_return_every_sample:
  assumes "live_subscription s p i (heap w)" "wf_world w" "valid_take w r"
    and "finite_backlog E (sub_reader i)" "deletes_succeed E"
  shows "post (run_take E s r w) (\<lambda>(ret, w').
    entities w' = entities w \<and> (\<forall>q. q \<notin> targets r \<longrightarrow> heap w' q = heap w q))"
proof -
  note start = ledger_start [OF assms(2)]
  have nz: "m \<noteq> nullptr" if "heap w m = Some x" for m x using that wf_worldD(3) [OF assms(2)] by auto
  note take = take_message_returns [OF assms(1,5,4) _ nz, of _ _ _ "entities w" w]
    take_serialized_returns [OF assms(1,5,4) _ nz, of _ _ _ "entities w" w]
  show ?thesis
  proof (cases r)
    case (TakeSequence n ms infos t)
    then show ?thesis
      using take_sequence_returns [OF assms(1,5,4,2), of n ms infos t] assms(3)
      by (auto simp: post_bind elim!: post_mono)
  next
    case (TakeMessage m t)
    then show ?thesis using assms(3) only_filled [OF take(1) start] by auto
  next
    case (TakeWithInfo m t x)
    then show ?thesis using assms(3) only_filled [OF take(2) start] by auto
  next
    case (TakeSerialized m t)
    then show ?thesis using assms(3) only_filled [OF take(3) start] by auto
  next
    case (TakeSerializedWithInfo m t x)
    then show ?thesis using assms(3) only_filled [OF take(4) start] by auto
  qed
qed

definition one_sample :: "ptr \<Rightarrow> call list \<Rightarrow> raw_take" where
  "one_sample reader t =
     (if TakeRaw reader \<in> set t then \<lparr>raw_payloads = [], raw_payloads_null = True, raw_infos = [], raw_infos_null = True\<rparr>
      else \<lparr>raw_payloads = [[0, 1, 0, 0, 5]], raw_payloads_null = False,
            raw_infos = [\<lparr>valid_data = True, publication_handle = 9, source_sec = 1, source_nanosec = 5\<rparr>],
            raw_infos_null = False\<rparr>)"

definition sample_env :: env where
  "sample_env = all_succeed\<lparr>take_answer := (\<lambda>t _. one_sample 60 t)\<rparr>"

definition example_subscription :: subscription_impl where
  "example_subscription = (new_subscription_impl 2 3 61 62 byte_callbacks example_profile 9 True)
     \<lparr>sub_reader := 60, sub_read_condition := 63\<rparr>"

definition subscription_world :: world where
  "subscription_world = node_world\<lparr>heap := (heap node_world)
     (10 \<mapsto> SubscriptionHandle \<lparr>handle_identifier = ZzddsIdentifier, handle_data = 11, handle_name = 12, is_cft_enabled = False\<rparr>,
      11 \<mapsto> SubscriptionImpl example_subscription, 12 \<mapsto> CString ''/chatter'', 13 \<mapsto> RosMessage 0,
      14 \<mapsto> RosMessage 0), next_ptr := 100\<rparr>"

lemma subscription_world_live: "live_subscription 10 11 example_subscription (heap subscription_world)"
  by (simp add: live_subscription_def subscription_world_def node_world_def small_world_def
    example_subscription_def new_subscription_impl_def complete_byte_callbacks)

lemma subscription_world_wf: "wf_world subscription_world"
  by (simp add: wf_world_def subscription_world_def node_world_def small_world_def)

lemma sample_env_drains: "finite_backlog sample_env 60"
proof -
  have "drains sample_env 60 (\<lambda>t. if TakeRaw 60 \<in> set t then 0 else 1)"
    by (simp add: drains_def sample_env_def one_sample_def)
  then show ?thesis unfolding finite_backlog_def by blast
qed

theorem takes_return_every_sample_witness:
  "post (run_take sample_env 10 (TakeWithInfo 13 True True) subscription_world) (\<lambda>(ret, w').
    entities w' = entities subscription_world \<and>
    (\<forall>q. q \<notin> targets (TakeWithInfo 13 True True) \<longrightarrow> heap w' q = heap subscription_world q))"
  by (rule takes_return_every_sample [OF subscription_world_live subscription_world_wf])
     (simp_all add: example_subscription_def sample_env_drains, simp_all add: subscription_world_def
        sample_env_def deletes_succeed_def all_succeed_def)

section \<open>What a take delivers\<close>

text \<open>
  The samples zzdds has for a reader: the next takes are answered with them one by one, and with
  empty sequences when they are used up.
\<close>

definition raw_of :: "uint8 list \<times> sample_info \<Rightarrow> raw_take" where
  "raw_of z = \<lparr>raw_payloads = [fst z], raw_payloads_null = False, raw_infos = [snd z], raw_infos_null = False\<rparr>"

definition nothing_raw :: raw_take where
  "nothing_raw = \<lparr>raw_payloads = [], raw_payloads_null = True, raw_infos = [], raw_infos_null = True\<rparr>"

definition taken_in :: "ptr \<Rightarrow> call list \<Rightarrow> nat" where
  "taken_in reader t = length (filter ((=) (TakeRaw reader)) t)"

definition pending :: "env \<Rightarrow> ptr \<Rightarrow> (uint8 list \<times> sample_info) list \<Rightarrow> call list \<Rightarrow> bool" where
  "pending E reader zs t \<longleftrightarrow> (\<forall>cs. dds_code E (cs @ t) (TakeRaw reader) = DDS_RETCODE_OK \<and>
     take_answer E (cs @ t) (TakeRaw reader) =
       (if taken_in reader cs < length zs then raw_of (zs ! taken_in reader cs) else nothing_raw))"

lemma pendingD:
  assumes "pending E reader zs t"
  shows "dds_code E t (TakeRaw reader) = DDS_RETCODE_OK"
    "take_answer E t (TakeRaw reader) = (case zs of [] \<Rightarrow> nothing_raw | z # _ \<Rightarrow> raw_of z)"
  using assms [unfolded pending_def, rule_format, of "[]"]
  by (auto simp: taken_in_def split: list.split)

lemma pending_other: "pending E reader zs t \<Longrightarrow> c \<noteq> TakeRaw reader \<Longrightarrow> pending E reader zs (c # t)"
  unfolding pending_def
proof (intro allI)
  fix cs
  assume p: "\<forall>cs. dds_code E (cs @ t) (TakeRaw reader) = DDS_RETCODE_OK \<and>
     take_answer E (cs @ t) (TakeRaw reader) =
       (if taken_in reader cs < length zs then raw_of (zs ! taken_in reader cs) else nothing_raw)"
    and c: "c \<noteq> TakeRaw reader"
  show "dds_code E (cs @ c # t) (TakeRaw reader) = DDS_RETCODE_OK \<and>
     take_answer E (cs @ c # t) (TakeRaw reader) =
       (if taken_in reader cs < length zs then raw_of (zs ! taken_in reader cs) else nothing_raw)"
    using p [rule_format, of "cs @ [c]"] c by (auto simp: taken_in_def)
qed

lemma pending_take: "pending E reader zs t \<Longrightarrow> pending E reader (tl zs) (TakeRaw reader # t)"
  unfolding pending_def
proof (intro allI)
  fix cs
  assume p: "\<forall>cs. dds_code E (cs @ t) (TakeRaw reader) = DDS_RETCODE_OK \<and>
     take_answer E (cs @ t) (TakeRaw reader) =
       (if taken_in reader cs < length zs then raw_of (zs ! taken_in reader cs) else nothing_raw)"
  show "dds_code E (cs @ TakeRaw reader # t) (TakeRaw reader) = DDS_RETCODE_OK \<and>
     take_answer E (cs @ TakeRaw reader # t) (TakeRaw reader) =
       (if taken_in reader cs < length (tl zs) then raw_of (tl zs ! taken_in reader cs) else nothing_raw)"
    using p [rule_format, of "cs @ [TakeRaw reader]"]
    by (cases zs) (auto simp: taken_in_def)
qed

text \<open>The calls made since \<open>t\<close>: the trace only grows.\<close>

definition since :: "call list \<Rightarrow> call list \<Rightarrow> bool" where
  "since t t' \<longleftrightarrow> (\<exists>new. t' = new @ t)"

lemma since_refl [simp]: "since t t"
  by (simp add: since_def)

lemma since_Cons: "since t t' \<Longrightarrow> since t (c # t')"
  by (auto simp: since_def intro: exI [of _ "c # new" for new])

lemma since_trans: "since t t' \<Longrightarrow> since t' t'' \<Longrightarrow> since t t''"
  by (auto simp: since_def)

lemma take_one_pending:
  assumes "pending E reader zs (trace w)" "deletes_succeed E"
  shows "\<exists>w'. heap w' = heap w \<and> next_ptr w \<le> next_ptr w' \<and> pending E reader (tl zs) (trace w') \<and>
    since (trace w) (trace w') \<and>
    (case zs of
       [] \<Rightarrow> take_one E reader w = Some ((DDS_RETCODE_NO_DATA, no_sample), w') \<and> entities w' = entities w
     | z # _ \<Rightarrow> \<exists>s. take_one E reader w = Some ((DDS_RETCODE_OK, s), w') \<and> (loan_data s, info s) = z \<and>
         entities w' = add_mset (RawSampleLoan, loan s) (entities w))"
proof -
  let ?w = "record_call (TakeRaw reader) w"
  obtain W where hold: "hold RawSampleLoan ?w = (next_ptr w, W)" and t: "trace W = TakeRaw reader # trace w"
    and W: "heap W = heap w" "next_ptr w \<le> next_ptr W" "entities W = add_mset (RawSampleLoan, next_ptr w) (entities w)"
    by (simp add: hold_def)
  have rest: "pending E reader (tl zs) (trace W)" using pending_take [OF assms(1)] t by simp
  show ?thesis
  proof (cases zs)
    case Nil
    let ?w' = "record_call (Delete RawSampleLoan (next_ptr w)) W\<lparr>entities := entities w\<rparr>"
    have "take_one E reader w = Some ((DDS_RETCODE_NO_DATA, no_sample), ?w')"
      using pendingD [OF assms(1)] Nil hold W assms(2)
      by (simp add: take_one_def take_raw_def call_dds_def nothing_raw_def return_raw_loan_def delete_def
        deletes_succeed_def)
    moreover have "pending E reader (tl zs) (trace ?w')" using pending_other [OF rest] by simp
    ultimately show ?thesis using W Nil by (intro exI [of _ ?w']) (simp add: t since_Cons)
  next
    case (Cons z rest)
    then show ?thesis
      using pendingD [OF assms(1)] hold W rest
      by (intro exI [of _ W]) (simp add: take_one_def take_raw_def call_dds_def raw_of_def t since_Cons)
  qed
qed

text \<open>Where the publications of the samples come from, and which samples a subscription does not skip.\<close>

definition publications :: "env \<Rightarrow> ptr \<Rightarrow> (instance_handle \<Rightarrow> guid option) \<Rightarrow> bool" where
  "publications E reader g \<longleftrightarrow> (\<forall>t p. guid_answer E t (PublicationGuid reader p) = g p)"

definition visible ::
  "subscription_impl \<Rightarrow> context_impl \<Rightarrow> (instance_handle \<Rightarrow> guid option) \<Rightarrow> uint8 list \<times> sample_info \<Rightarrow> bool" where
  "visible i c g z \<longleftrightarrow> ignore_local_publications i \<longrightarrow>
     (case g (publication_handle (snd z)) of None \<Rightarrow> True | Some x \<Rightarrow> x \<notin> local_publication_guids c)"

lemma take_visible_pending:
  assumes "pending E (sub_reader i) zs (trace w)" "deletes_succeed E" "publications E (sub_reader i) g"
    and "heap w (sub_context i) = Some (ContextImpl c)"
  shows "\<exists>w'. heap w' = heap w \<and>
    (case dropWhile (\<lambda>z. \<not> visible i c g z) zs of
       [] \<Rightarrow> take_visible_sample E i w = Some ((DDS_RETCODE_NO_DATA, no_sample), w') \<and>
         entities w' = entities w \<and> pending E (sub_reader i) [] (trace w')
     | z # rest \<Rightarrow> \<exists>s. take_visible_sample E i w = Some ((DDS_RETCODE_OK, s), w') \<and>
         (loan_data s, info s) = z \<and> entities w' = add_mset (RawSampleLoan, loan s) (entities w) \<and>
         pending E (sub_reader i) rest (trace w'))"
  using assms(1,4)
proof (induction zs arbitrary: w)
  case Nil
  from take_one_pending [OF Nil.prems(1) assms(2)] show ?case
    by (subst take_visible_sample.simps) auto
next
  case (Cons z rest)
  obtain s w1 where one: "take_one E (sub_reader i) w = Some ((DDS_RETCODE_OK, s), w1)"
      "(loan_data s, info s) = z" "heap w1 = heap w" "pending E (sub_reader i) rest (trace w1)"
      "entities w1 = add_mset (RawSampleLoan, loan s) (entities w)"
    using take_one_pending [OF Cons.prems(1) assms(2)] by auto
  let ?c = "PublicationGuid (sub_reader i) (publication_handle (info s))"
  have local: "is_local_publication E i (publication_handle (info s)) w1 =
      Some (case g (publication_handle (info s)) of None \<Rightarrow> False | Some x \<Rightarrow> x \<in> local_publication_guids c,
        record_call ?c w1)"
    using is_local_publication_eq [of w1 i c E] one(3) Cons.prems(2) assms(3) by (simp add: publications_def)
  have z: "info s = snd z" using one(2) by auto
  show ?case
  proof (cases "visible i c g z")
    case True
    have "\<exists>w'. take_visible_sample E i w = Some ((DDS_RETCODE_OK, s), w') \<and> (w' = w1 \<or> w' = record_call ?c w1)"
      using one(1) local True z
      by (subst take_visible_sample.simps) (auto simp: visible_def split: option.splits)
    then obtain w' where w': "take_visible_sample E i w = Some ((DDS_RETCODE_OK, s), w')"
        "w' = w1 \<or> w' = record_call ?c w1"
      by blast
    then have "heap w' = heap w" "entities w' = entities w1" "pending E (sub_reader i) rest (trace w')"
      using one(3,4) pending_other [OF one(4), of ?c] by auto
    with True w'(1) one(2,5) show ?thesis by (intro exI [of _ w']) auto
  next
    case False
    define w2 where "w2 = record_call (Delete RawSampleLoan (loan s)) (record_call ?c w1)\<lparr>entities := entities w\<rparr>"
    have p: "pending E (sub_reader i) rest (trace w2)"
      using pending_other [OF pending_other [OF one(4), of ?c], of "Delete RawSampleLoan (loan s)"] by (simp add: w2_def)
    have "return_raw_loan E s (record_call ?c w1) = Some (DDS_RETCODE_OK, w2)"
      using one(5) assms(2)
      by (simp add: return_raw_loan_def delete_def call_dds_def deletes_succeed_def w2_def)
    then have "take_visible_sample E i w = take_visible_sample E i w2"
      using one(1) local False z
      by (subst take_visible_sample.simps) (auto simp: visible_def split: option.splits)
    moreover have "heap w2 = heap w" "entities w2 = entities w" using one(3) by (simp_all add: w2_def)
    ultimately show ?thesis
      using Cons.IH [OF p] Cons.prems(2) False by (simp cong: list.case_cong)
  qed
qed

text \<open>
  C31. A take skips exactly the samples of its own context's publications. While zzdds has the samples
  \<open>zs\<close> for the reader, \<^verbatim>\<open>take_visible_sample\<close> returns after finitely many rounds with the first
  sample of \<open>zs\<close> that a subscription may see, unchanged, and the samples after it stay for the
  next take; the skipped ones have all been given back. When there is none it reports no data and
  holds nothing.
\<close>

theorem takes_first_visible_sample:
  assumes "pending E (sub_reader i) zs (trace w)" "publications E (sub_reader i) g"
    and "heap w (sub_context i) = Some (ContextImpl c)" "deletes_succeed E"
  shows "post (take_visible_sample E i w) (\<lambda>((ret, s), w'). heap w' = heap w \<and>
    (case dropWhile (\<lambda>z. \<not> visible i c g z) zs of
       [] \<Rightarrow> ret = DDS_RETCODE_NO_DATA \<and> loan s = nullptr \<and> entities w' = entities w
     | z # rest \<Rightarrow> ret = DDS_RETCODE_OK \<and> (loan_data s, info s) = z \<and>
         entities w' = add_mset (RawSampleLoan, loan s) (entities w) \<and>
         pending E (sub_reader i) rest (trace w')))"
  using take_visible_pending [OF assms(1,4,2,3)]
  by (cases "dropWhile (\<lambda>z. \<not> visible i c g z) zs")
     (auto simp: no_sample_def simp del: dropWhile_eq_Nil_conv)

text \<open>Two samples, of which the first is a local publication's.\<close>

definition local_first :: "(uint8 list \<times> sample_info) list" where
  "local_first =
     [([0, 1, 0, 0, 4], \<lparr>valid_data = True, publication_handle = 8, source_sec = 1, source_nanosec = 5\<rparr>),
      ([0, 1, 0, 0, 5], \<lparr>valid_data = True, publication_handle = 9, source_sec = 2, source_nanosec = 6\<rparr>)]"

definition queue_env :: "(uint8 list \<times> sample_info) list \<Rightarrow> env" where
  "queue_env zs = all_succeed\<lparr>take_answer := (\<lambda>t c. if taken_in 60 t < length zs then raw_of (zs ! taken_in 60 t) else nothing_raw),
     guid_answer := (\<lambda>t c. case c of PublicationGuid r p \<Rightarrow> Some (replicate 16 (ucast p)) | _ \<Rightarrow> None)\<rparr>"

definition local_context :: context_impl where
  "local_context = empty_context\<lparr>local_publication_guids := {replicate 16 8}\<rparr>"

definition local_world :: world where
  "local_world = subscription_world\<lparr>heap := (heap subscription_world)(2 \<mapsto> ContextImpl local_context), trace := []\<rparr>"

lemma queue_env_pending: "pending (queue_env zs) 60 zs []"
  by (simp add: pending_def queue_env_def all_succeed_def taken_in_def)

lemma queue_env_publications: "publications (queue_env zs) 60 (\<lambda>p. Some (replicate 16 (ucast p)))"
  by (simp add: publications_def queue_env_def)

lemma queue_env_deletes: "deletes_succeed (queue_env zs)"
  by (simp add: deletes_succeed_def queue_env_def all_succeed_def)

theorem takes_first_visible_sample_witness:
  "post (take_visible_sample (queue_env local_first) example_subscription local_world)
    (\<lambda>((ret, s), w'). ret = DDS_RETCODE_OK \<and> loan_data s = [0, 1, 0, 0, 5])"
proof -
  have i: "sub_reader example_subscription = 60" "sub_context example_subscription = 2"
    "ignore_local_publications example_subscription"
    by (simp_all add: example_subscription_def new_subscription_impl_def)
  have "heap local_world (sub_context example_subscription) = Some (ContextImpl local_context)"
    by (simp add: local_world_def i)
  from takes_first_visible_sample [OF _ _ this queue_env_deletes, where zs = local_first and g = "\<lambda>p. Some (replicate 16 (ucast p))", of local_first]
  show ?thesis
    using queue_env_pending queue_env_publications
    by (simp add: i local_world_def local_first_def visible_def local_context_def) (auto elim: post_mono)
qed

text \<open>
  What the type support reads from the bytes of a payload: the value \<open>D bytes\<close>, or nothing for bytes
  that zzdds does not accept as CDR or that do not hold a message. Reading does not depend on what the
  message held before.
\<close>

definition decodes :: "env \<Rightarrow> message_callbacks \<Rightarrow> (uint8 list \<Rightarrow> ros_value option) \<Rightarrow> bool" where
  "decodes E cb D \<longleftrightarrow> (\<exists>d. deserialize_fn cb = Some d \<and> (\<forall>bytes.
     if cdr_readable E bytes
     then \<forall>v. fst (d bytes v) = (D bytes \<noteq> None) \<and> (\<forall>x. D bytes = Some x \<longrightarrow> snd (d bytes v) = x)
     else D bytes = None))"

lemma decodes_read:
  assumes "decodes E cb D" "heap w m = Some (RosMessage v)"
  shows "\<exists>v'. read_message E cb bytes m w = Some (D bytes \<noteq> None, store m (RosMessage v') w) \<and>
    (\<forall>x. D bytes = Some x \<longrightarrow> v' = x)"
proof -
  obtain d where d: "deserialize_fn cb = Some d"
    and D: "if cdr_readable E bytes
      then \<forall>v. fst (d bytes v) = (D bytes \<noteq> None) \<and> (\<forall>x. D bytes = Some x \<longrightarrow> snd (d bytes v) = x)
      else D bytes = None"
    using assms(1) unfolding decodes_def by blast
  have same: "store m (RosMessage v) w = w"
    using assms(2) by (intro world.equality) (simp_all add: fun_upd_idem)
  show ?thesis
  proof (cases "cdr_readable E bytes")
    case True
    then have D: "fst (d bytes v) = (D bytes \<noteq> None)" "\<forall>x. D bytes = Some x \<longrightarrow> snd (d bytes v) = x"
      using D by simp_all
    have "read_message E cb bytes m w = Some (D bytes \<noteq> None, store m (RosMessage (snd (d bytes v))) w)"
      using True d D(1) assms(2) by (simp add: read_message_def ros_message_at_def split_beta)
    with D(2) show ?thesis by blast
  next
    case False
    with D same show ?thesis
      by (intro exI [of _ v]) (simp add: read_message_def)
  qed
qed

text \<open>What a delivered sample's info says.\<close>

definition tells :: "env \<Rightarrow> (instance_handle \<Rightarrow> guid option) \<Rightarrow> sample_info \<Rightarrow> message_info \<Rightarrow> bool" where
  "tells E g source filled \<longleftrightarrow> source_timestamp filled = sample_time source \<and>
     (\<exists>x. g (publication_handle source) = Some x \<and> publisher_gid filled = gid_of E x) \<and>
     \<not> from_intra_process filled"

lemma fill_message_info_known:
  assumes "publications E reader g"
  shows "\<exists>filled. fill_message_info E reader source w =
      ((g (publication_handle source) \<noteq> None, filled),
       record_call (PublicationGuid reader (publication_handle source)) (record_call SystemTimeNow w)) \<and>
    (g (publication_handle source) \<noteq> None \<longrightarrow> tells E g source filled)"
  using assms
  by (auto simp: fill_message_info_def guid_from_publication_def call_guid_def publications_def Let_def tells_def
      split: option.split)

text \<open>A sample whose payload can be read and whose publisher is known.\<close>

definition deliverable ::
  "(uint8 list \<Rightarrow> ros_value option) \<Rightarrow> (instance_handle \<Rightarrow> guid option) \<Rightarrow> uint8 list \<times> sample_info \<Rightarrow> bool" where
  "deliverable D g z \<longleftrightarrow> D (fst z) \<noteq> None \<and> g (publication_handle (snd z)) \<noteq> None"

lemma take_with_info_pending:
  assumes "live_subscription s p i (heap w)" "deletes_succeed E" "pending E (sub_reader i) zs (trace w)"
    and "publications E (sub_reader i) g" "decodes E (sub_callbacks i) D"
    and "heap w (sub_context i) = Some (ContextImpl c)" "heap w m = Some (RosMessage v)" "m \<noteq> nullptr"
  shows "\<exists>w'. entities w' = entities w \<and>
    (case dropWhile (\<lambda>z. \<not> visible i c g z) zs of
       [] \<Rightarrow> rmw_take_with_info E s m True True w = Some ((RMW_RET_OK, Some False, None), w') \<and> heap w' = heap w
     | z # rest \<Rightarrow>
         if \<not> valid_data (snd z)
         then rmw_take_with_info E s m True True w = Some ((RMW_RET_OK, Some False, None), w') \<and> heap w' = heap w
         else if deliverable D g z
         then pending E (sub_reader i) rest (trace w') \<and>
           heap w' = (heap w)(m \<mapsto> RosMessage (the (D (fst z)))) \<and>
           (\<exists>filled. rmw_take_with_info E s m True True w = Some ((RMW_RET_OK, Some True, Some filled), w') \<and>
             tells E g (snd z) filled)
         else (\<exists>filled. rmw_take_with_info E s m True True w = Some ((RMW_RET_ERROR, Some False, filled), w')) \<and>
           (\<forall>q. q \<noteq> m \<longrightarrow> heap w' q = heap w q))"
proof -
  have valid: "validate_subscription s w = Some RMW_RET_OK" and
    at: "\<exists>h. subscription_at s w = Some h \<and> handle_data h = p" "subscription_impl_at p w = Some i"
    using live_subscriptionD [OF assms(1)]
    by (auto simp: validate_subscription_def subscription_at_def subscription_impl_at_def)
  obtain w1 where w1: "heap w1 = heap w" and
    r: "case dropWhile (\<lambda>z. \<not> visible i c g z) zs of
       [] \<Rightarrow> take_visible_sample E i w = Some ((DDS_RETCODE_NO_DATA, no_sample), w1) \<and>
         entities w1 = entities w \<and> pending E (sub_reader i) [] (trace w1)
     | z # rest \<Rightarrow> \<exists>s. take_visible_sample E i w = Some ((DDS_RETCODE_OK, s), w1) \<and>
         (loan_data s, info s) = z \<and> entities w1 = add_mset (RawSampleLoan, loan s) (entities w) \<and>
         pending E (sub_reader i) rest (trace w1)"
    using take_visible_pending [OF assms(3,2,4,6)] by blast
  show ?thesis
  proof (cases "dropWhile (\<lambda>z. \<not> visible i c g z) zs")
    case Nil
    with r w1 valid at assms(8) show ?thesis
      by (intro exI [of _ w1]) (auto simp: rmw_take_with_info_def simp del: dropWhile_eq_Nil_conv)
  next
    case (Cons z rest)
    with r obtain x where x: "take_visible_sample E i w = Some ((DDS_RETCODE_OK, x), w1)" "(loan_data x, info x) = z"
      and e1: "entities w1 = add_mset (RawSampleLoan, loan x) (entities w)"
      and p1: "pending E (sub_reader i) rest (trace w1)"
      by auto
    have z: "loan_data x = fst z" "info x = snd z" using x(2) by auto
    have give: "return_raw_loan E x u = Some (DDS_RETCODE_OK, record_call (Delete RawSampleLoan (loan x)) u
        \<lparr>entities := entities w\<rparr>)" if "entities u = entities w1" for u
      using that e1 assms(2) by (simp add: return_raw_loan_def delete_def call_dds_def deletes_succeed_def)
    show ?thesis
    proof (cases "valid_data (snd z)")
      case False
      let ?w' = "record_call (Delete RawSampleLoan (loan x)) w1\<lparr>entities := entities w\<rparr>"
      show ?thesis
        using False Cons x z w1 valid at assms(8) give [of w1]
        by (intro exI [of _ ?w']) (auto simp: rmw_take_with_info_def)
    next
      case True
      obtain v' where v': "read_message E (sub_callbacks i) (fst z) m w1 =
          Some (D (fst z) \<noteq> None, store m (RosMessage v') w1)" "\<forall>x. D (fst z) = Some x \<longrightarrow> v' = x"
        using decodes_read [OF assms(5), of w1 m v] w1 assms(7) by auto
      define w2 where "w2 = record_call (Delete RawSampleLoan (loan x)) (store m (RosMessage v') w1)\<lparr>entities := entities w\<rparr>"
      define w3 where "w3 = record_call (PublicationGuid (sub_reader i) (publication_handle (snd z)))
        (record_call SystemTimeNow w2)"
      obtain filled where f: "fill_message_info E (sub_reader i) (snd z) w2 =
            ((g (publication_handle (snd z)) \<noteq> None, filled), w3)"
          "g (publication_handle (snd z)) \<noteq> None \<longrightarrow> tells E g (snd z) filled"
        using fill_message_info_known [OF assms(4)] unfolding w3_def by blast
      have given_back: "return_raw_loan E x (store m (RosMessage v') w1) = Some (DDS_RETCODE_OK, w2)"
        using give [of "store m (RosMessage v') w1"] by (simp add: w2_def)
      have heaps: "heap w2 = (heap w)(m \<mapsto> RosMessage v')" "heap w3 = heap w2" "entities w2 = entities w"
          "entities w3 = entities w"
        by (simp_all add: w3_def w2_def w1)
      have run: "rmw_take_with_info E s m True True w =
          (if D (fst z) = None then Some ((RMW_RET_ERROR, Some False, None), w2)
           else if g (publication_handle (snd z)) = None then Some ((RMW_RET_ERROR, Some False, Some filled), w3)
           else Some ((RMW_RET_OK, Some True, Some filled), w3))"
        using True x z valid at assms(8) f(1) v'(1) given_back by (auto simp: rmw_take_with_info_def)
      show ?thesis
      proof (cases "deliverable D g z")
        case deliver: True
        then have "v' = the (D (fst z))" using v'(2) by (auto simp: deliverable_def)
        moreover have "pending E (sub_reader i) rest (trace w3)"
          using p1 by (simp add: w3_def w2_def pending_other)
        ultimately show ?thesis
          using True Cons f(2) run heaps deliver by (intro exI [of _ w3]) (auto simp: deliverable_def)
      next
        case False
        have "\<exists>u filled. rmw_take_with_info E s m True True w = Some ((RMW_RET_ERROR, Some False, filled), u) \<and>
            entities u = entities w \<and> heap u = (heap w)(m \<mapsto> RosMessage v')"
          using False run heaps by (cases "D (fst z)") (auto simp: deliverable_def)
        then show ?thesis using True Cons False by auto
      qed
    qed
  qed
qed

text \<open>The visible samples before the first without data, at most \<open>n\<close>.\<close>

definition delivered ::
  "subscription_impl \<Rightarrow> context_impl \<Rightarrow> (instance_handle \<Rightarrow> guid option) \<Rightarrow> nat \<Rightarrow> (uint8 list \<times> sample_info) list \<Rightarrow>
   (uint8 list \<times> sample_info) list" where
  "delivered i c g n zs = take n (takeWhile (\<lambda>z. valid_data (snd z)) (filter (visible i c g) zs))"

lemma filter_dropWhile: "filter P xs = (case dropWhile (\<lambda>x. \<not> P x) xs of [] \<Rightarrow> [] | y # ys \<Rightarrow> y # filter P ys)"
  by (induction xs) auto

lemma delivered_Suc:
  "delivered i c g (Suc n) zs =
    (case dropWhile (\<lambda>z. \<not> visible i c g z) zs of
       [] \<Rightarrow> []
     | z # rest \<Rightarrow> if valid_data (snd z) then z # delivered i c g n rest else [])"
  by (subst (1) delivered_def, subst filter_dropWhile) (simp add: delivered_def split: list.split del: dropWhile_eq_Nil_conv)

fun filled_in ::
  "(uint8 list \<Rightarrow> ros_value option) \<Rightarrow> ptr list \<Rightarrow> (uint8 list \<times> sample_info) list \<Rightarrow> (ptr \<Rightarrow> object option) \<Rightarrow>
   ptr \<Rightarrow> object option" where
  "filled_in D (m # ms) (z # zs) h = (filled_in D ms zs h)(m \<mapsto> RosMessage (the (D (fst z))))"
| "filled_in D _ _ h = h"

lemma filled_in_update: "m \<notin> set ms \<Longrightarrow> filled_in D ms zs (h(m \<mapsto> x)) = (filled_in D ms zs h)(m \<mapsto> x)"
  by (induction D ms zs h rule: filled_in.induct) (auto simp: fun_upd_twist)

lemma take_each_delivers:
  assumes "live_subscription s p i (heap w)" "deletes_succeed E" "pending E (sub_reader i) zs (trace w)"
    and "publications E (sub_reader i) g" "decodes E (sub_callbacks i) D"
    and "heap w (sub_context i) = Some (ContextImpl c)"
    and "\<forall>m \<in> set ms. m \<noteq> nullptr \<and> (\<exists>v. heap w m = Some (RosMessage v))" "distinct ms" "n \<le> length ms"
  shows "\<exists>infos w'. take_each E s n ms w =
      Some ((if list_all (deliverable D g) (delivered i c g n zs) then RMW_RET_OK else RMW_RET_ERROR, infos), w') \<and>
    entities w' = entities w \<and>
    list_all2 (\<lambda>z. tells E g (snd z)) (takeWhile (deliverable D g) (delivered i c g n zs)) infos \<and>
    (\<forall>q. list_all (deliverable D g) (delivered i c g n zs) \<or>
         q \<noteq> ms ! length (takeWhile (deliverable D g) (delivered i c g n zs)) \<longrightarrow>
       heap w' q = filled_in D ms (takeWhile (deliverable D g) (delivered i c g n zs)) (heap w) q)"
  using assms
proof (induction n arbitrary: ms zs w)
  case 0
  then show ?case by (simp add: delivered_def)
next
  case (Suc n)
  then obtain m ms' where ms: "ms = m # ms'" by (cases ms) auto
  with Suc.prems(7) obtain v where m: "heap w m = Some (RosMessage v)" "m \<noteq> nullptr" by auto
  obtain w1 where w1: "entities w1 = entities w" and
    r: "case dropWhile (\<lambda>z. \<not> visible i c g z) zs of
       [] \<Rightarrow> rmw_take_with_info E s m True True w = Some ((RMW_RET_OK, Some False, None), w1) \<and> heap w1 = heap w
     | z # rest \<Rightarrow>
         if \<not> valid_data (snd z)
         then rmw_take_with_info E s m True True w = Some ((RMW_RET_OK, Some False, None), w1) \<and> heap w1 = heap w
         else if deliverable D g z
         then pending E (sub_reader i) rest (trace w1) \<and>
           heap w1 = (heap w)(m \<mapsto> RosMessage (the (D (fst z)))) \<and>
           (\<exists>filled. rmw_take_with_info E s m True True w = Some ((RMW_RET_OK, Some True, Some filled), w1) \<and>
             tells E g (snd z) filled)
         else (\<exists>filled. rmw_take_with_info E s m True True w = Some ((RMW_RET_ERROR, Some False, filled), w1)) \<and>
           (\<forall>q. q \<noteq> m \<longrightarrow> heap w1 q = heap w q)"
    using take_with_info_pending [OF Suc.prems(1-6) m] by blast
  show ?case
  proof (cases "\<exists>z rest. dropWhile (\<lambda>z. \<not> visible i c g z) zs = z # rest \<and> valid_data (snd z)")
    case False
    then have "rmw_take_with_info E s m True True w = Some ((RMW_RET_OK, Some False, None), w1) \<and> heap w1 = heap w"
      "delivered i c g (Suc n) zs = []"
      using r by (auto simp: delivered_Suc simp del: dropWhile_eq_Nil_conv split: list.splits if_splits)
    with w1 ms show ?thesis by simp
  next
    case True
    then obtain z rest where z: "dropWhile (\<lambda>z. \<not> visible i c g z) zs = z # rest" "valid_data (snd z)"
      by blast
    then have del: "delivered i c g (Suc n) zs = z # delivered i c g n rest" by (simp add: delivered_Suc)
    show ?thesis
    proof (cases "deliverable D g z")
      case False
      with r z del w1 ms show ?thesis by auto
    next
      case deliver: True
      with r z obtain filled where p1: "pending E (sub_reader i) rest (trace w1)"
        and h1: "heap w1 = (heap w)(m \<mapsto> RosMessage (the (D (fst z))))"
        and t1: "rmw_take_with_info E s m True True w = Some ((RMW_RET_OK, Some True, Some filled), w1)"
          "tells E g (snd z) filled"
        by auto
      have live: "live_subscription s p i (heap w1)"
        using live_subscription_update [OF Suc.prems(1) m(1)] h1 by simp
      have "m \<noteq> sub_context i" using m Suc.prems(6) by auto
      then have c: "heap w1 (sub_context i) = Some (ContextImpl c)" using h1 Suc.prems(6) by simp
      have rest_ms: "\<forall>m' \<in> set ms'. m' \<noteq> nullptr \<and> (\<exists>v'. heap w1 m' = Some (RosMessage v'))" "distinct ms'" "m \<notin> set ms'"
        using Suc.prems(7,8) ms h1 by auto
      let ?ds = "delivered i c g n rest"
      from Suc.IH [OF live Suc.prems(2) p1 Suc.prems(4,5) c rest_ms(1,2)] Suc.prems(9) ms
      obtain infos w' where rest: "take_each E s n ms' w1 =
            Some ((if list_all (deliverable D g) ?ds then RMW_RET_OK else RMW_RET_ERROR, infos), w')"
          "entities w' = entities w1"
          "list_all2 (\<lambda>z. tells E g (snd z)) (takeWhile (deliverable D g) ?ds) infos"
        and heap: "\<And>q. list_all (deliverable D g) ?ds \<or> q \<noteq> ms' ! length (takeWhile (deliverable D g) ?ds) \<Longrightarrow>
          heap w' q = filled_in D ms' (takeWhile (deliverable D g) ?ds) (heap w1) q"
        by auto
      have "take_each E s (Suc n) ms w =
          Some ((if list_all (deliverable D g) ?ds then RMW_RET_OK else RMW_RET_ERROR, filled # infos), w')"
        using t1 rest(1) ms by simp
      moreover have "heap w' q = filled_in D ms (z # takeWhile (deliverable D g) ?ds) (heap w) q"
        if "list_all (deliverable D g) ?ds \<or> q \<noteq> ms' ! length (takeWhile (deliverable D g) ?ds)" for q
        using heap [OF that] unfolding h1 filled_in_update [OF rest_ms(3)] ms by simp
      ultimately show ?thesis
        using del deliver rest w1 t1(2) ms by (intro exI [of _ "filled # infos"] exI [of _ w']) auto
    qed
  qed
qed

lemma filled_in_at:
  assumes "distinct ms" "k < length ms" "k < length zs"
  shows "filled_in D ms zs h (ms ! k) = Some (RosMessage (the (D (fst (zs ! k)))))"
  using assms
proof (induction D ms zs h arbitrary: k rule: filled_in.induct)
  case (1 D m ms z zs h)
  then show ?case by (cases k) auto
qed auto

lemma filled_in_other: "q \<notin> set (take (length zs) ms) \<Longrightarrow> filled_in D ms zs h q = h q"
  by (induction D ms zs h rule: filled_in.induct) auto

text \<open>
  C32. Taking a sequence delivers the samples in order. With the samples \<open>zs\<close> waiting, the call for
  \<open>n\<close> messages looks at the visible samples before the first one without data, at most \<open>n\<close>. If the
  payload of each can be read and its publisher is known it succeeds, and both sizes are their number;
  otherwise it fails at the first that is not so and writes no size. Either way the samples before that
  one are delivered: the \<open>k\<close>-th message is filled in with the decoded \<open>k\<close>-th of them, its info with
  that sample's time and publisher. No other message changes but the one at which the call failed, and
  no sample stays on loan.
\<close>

theorem take_sequence_delivers:
  assumes "live_subscription s p i (heap w)" "heap w (sub_context i) = Some (ContextImpl c)"
    and "pending E (sub_reader i) zs (trace w)" "publications E (sub_reader i) g"
    and "decodes E (sub_callbacks i) D" "deletes_succeed E" "wf_world w"
    and "\<forall>m \<in> set ms. \<exists>v. heap w m = Some (RosMessage v)" "distinct ms"
    and "n \<noteq> 0" "n \<le> cap" "unat cap \<le> length ms" "n \<le> cap'"
  defines "vs \<equiv> delivered i c g (unat n) zs" and "ds \<equiv> takeWhile (deliverable D g) (delivered i c g (unat n) zs)"
  shows "post (rmw_take_sequence E s n (Some \<lparr>sequence_data = Some ms, sequence_capacity = cap\<rparr>)
      (Some \<lparr>infos_null = False, infos_capacity = cap'\<rparr>) True w) (\<lambda>((ret, infos, n'), w').
    ret = (if list_all (deliverable D g) vs then RMW_RET_OK else RMW_RET_ERROR) \<and>
    n' = (if list_all (deliverable D g) vs then Some (length vs) else None) \<and>
    list_all2 (\<lambda>z. tells E g (snd z)) ds infos \<and> entities w' = entities w \<and>
    (\<forall>k < length ds. heap w' (ms ! k) = Some (RosMessage (the (D (fst (ds ! k)))))) \<and>
    (\<forall>q. q \<notin> set (take (length ds) ms) \<longrightarrow> (\<not> list_all (deliverable D g) vs \<longrightarrow> q \<noteq> ms ! length ds) \<longrightarrow>
       heap w' q = heap w q))"
proof -
  have valid: "validate_subscription s w = Some RMW_RET_OK"
    using live_subscriptionD [OF assms(1)] by (auto simp: validate_subscription_def subscription_at_def)
  have n: "unat n \<le> length ms" using assms(11,12) by (auto simp: word_le_nat_alt)
  have "\<forall>m \<in> set ms. m \<noteq> nullptr \<and> (\<exists>v. heap w m = Some (RosMessage v))"
    using assms(8) wf_worldD(3) [OF assms(7)] by auto
  from take_each_delivers [OF assms(1,6,3-5,2) this assms(9) n]
  obtain infos w' where r: "take_each E s (unat n) ms w =
        Some ((if list_all (deliverable D g) vs then RMW_RET_OK else RMW_RET_ERROR, infos), w')"
      "entities w' = entities w" "list_all2 (\<lambda>z. tells E g (snd z)) ds infos"
    and heap: "\<And>q. list_all (deliverable D g) vs \<or> q \<noteq> ms ! length ds \<Longrightarrow> heap w' q = filled_in D ms ds (heap w) q"
    unfolding ds_def vs_def by blast
  have all: "list_all (deliverable D g) vs \<Longrightarrow> ds = vs"
    by (simp add: ds_def vs_def list_all_iff takeWhile_eq_all_conv)
  have less: "\<not> list_all (deliverable D g) vs \<Longrightarrow> length ds < length vs"
    unfolding ds_def vs_def list_all_iff
    by (metis length_takeWhile_le linorder_neqE_nat not_le set_takeWhileD takeWhile_eq_take take_all order_refl)
  have vs: "length vs \<le> length ms" using n by (simp add: vs_def delivered_def)
  have "heap w' (ms ! k) = Some (RosMessage (the (D (fst (ds ! k)))))" if k: "k < length ds" for k
  proof -
    have "length ds \<le> length vs" using all less by (cases "list_all (deliverable D g) vs") auto
    moreover have "list_all (deliverable D g) vs \<or> ms ! k \<noteq> ms ! length ds"
      using less vs k nth_eq_iff_index_eq [OF assms(9), of k "length ds"] by auto
    ultimately show ?thesis
      using heap [of "ms ! k"] filled_in_at [OF assms(9), of k ds] k vs by simp
  qed
  moreover have "length infos = length ds" using r(3) by (simp add: list_all2_lengthD)
  ultimately show ?thesis
    using r valid assms(10,11,13) filled_in_other [of _ ds ms D "heap w"] heap all
    by (auto simp: rmw_take_sequence_def not_less)
qed

text \<open>Two samples for others, with a payload that is cut short behind them.\<close>

definition byte_info :: "int32 \<Rightarrow> sample_info" where
  "byte_info seconds = \<lparr>valid_data = True, publication_handle = 9, source_sec = seconds, source_nanosec = 7\<rparr>"

definition four_samples :: "(uint8 list \<times> sample_info) list" where
  "four_samples = local_first @ [([0, 1, 0, 0, 6], byte_info 3), ([0, 1, 0, 0], byte_info 4)]"

definition byte_value :: "uint8 list \<Rightarrow> ros_value option" where
  "byte_value bytes = (if length bytes = 5 then Some (unat (bytes ! 4)) else None)"

lemma byte_decodes:
  assumes "cdr_readable E = cdr_readable all_succeed"
  shows "decodes E byte_callbacks byte_value"
  using assms by (auto simp: decodes_def byte_callbacks_def byte_value_def all_succeed_def)

lemma queue_env_readable: "cdr_readable (queue_env zs) = cdr_readable all_succeed"
  by (simp add: queue_env_def)

definition three_messages :: world where
  "three_messages = local_world\<lparr>heap := (heap local_world)(15 \<mapsto> RosMessage 0)\<rparr>"

lemma example_subscription_simps:
  "sub_reader example_subscription = 60" "sub_context example_subscription = 2"
  "sub_callbacks example_subscription = byte_callbacks" "ignore_local_publications example_subscription"
  by (simp_all add: example_subscription_def new_subscription_impl_def)

lemma three_messages_simps:
  "heap three_messages 2 = Some (ContextImpl local_context)" "heap three_messages 13 = Some (RosMessage 0)"
  "heap three_messages 14 = Some (RosMessage 0)" "heap three_messages 15 = Some (RosMessage 0)"
  "trace three_messages = []"
  by (simp_all add: three_messages_def local_world_def subscription_world_def)

lemma three_messages_live: "live_subscription 10 11 example_subscription (heap three_messages)"
  using subscription_world_live
  by (auto simp: live_subscription_def three_messages_def local_world_def example_subscription_simps)

lemma three_messages_wf: "wf_world three_messages"
  by (simp add: wf_world_def three_messages_def local_world_def subscription_world_def node_world_def small_world_def)

lemma four_delivered:
  "delivered example_subscription local_context (\<lambda>p. Some (replicate 16 (ucast p))) 3 four_samples = tl four_samples"
  by (simp add: delivered_def four_samples_def local_first_def visible_def example_subscription_simps
    local_context_def byte_info_def)

text \<open>Three messages are asked for; the local sample is skipped, two are delivered, the third fails.\<close>

theorem take_sequence_delivers_witness:
  "post (rmw_take_sequence (queue_env four_samples) 10 3
      (Some \<lparr>sequence_data = Some [13, 14, 15], sequence_capacity = 3\<rparr>)
      (Some \<lparr>infos_null = False, infos_capacity = 3\<rparr>) True three_messages) (\<lambda>((ret, infos, n'), w').
    ret = RMW_RET_ERROR \<and> n' = None \<and> heap w' 13 = Some (RosMessage 5) \<and> heap w' 14 = Some (RosMessage 6))"
proof -
  note r = take_sequence_delivers [where zs = four_samples and c = local_context and ms = "[13, 14, 15]" and
    n = 3 and cap = 3 and cap' = 3 and g = "\<lambda>p. Some (replicate 16 (ucast p))" and E = "queue_env four_samples",
    OF three_messages_live, unfolded example_subscription_simps three_messages_simps,
    OF _ queue_env_pending queue_env_publications byte_decodes [OF queue_env_readable] queue_env_deletes three_messages_wf]
  have three: "unat (3 :: size_t) = 3" by simp
  have tl: "tl four_samples = [([0, 1, 0, 0, 5],
      \<lparr>valid_data = True, publication_handle = 9, source_sec = 2, source_nanosec = 6\<rparr>),
      ([0, 1, 0, 0, 6], byte_info 3), ([0, 1, 0, 0], byte_info 4)]"
    by (simp add: four_samples_def local_first_def)
  show ?thesis
    by (rule post_mono [OF r], simp_all add: three four_delivered three_messages_simps)
       (auto simp: tl deliverable_def byte_value_def byte_info_def dest: spec [of _ 0] spec [of _ 1])
qed

end
