(* ===== verification/Taking_Loans.thy ===== *)
theory Taking_Loans
  imports Taking_Props
begin

text \<open>
  The messages a subscription lends: taking one and returning it is a life like that of an entity, so
  it is one more interpretation of the contract \<open>lifecycle\<close>.
\<close>

definition loan_ready ::
  "env \<Rightarrow> ptr \<Rightarrow> ptr \<Rightarrow> subscription_impl \<Rightarrow> world \<Rightarrow> bool" where
  "loan_ready E s p i w \<longleftrightarrow> wf_world w \<and> live_subscription s p i (heap w) \<and> deletes_succeed E \<and>
     finite_backlog E (sub_reader i) \<and> (\<forall>m \<in> sub_loaned i. heap w m \<noteq> None)"

definition lending_one :: "ptr \<Rightarrow> subscription_impl \<Rightarrow> subscription_impl" where
  "lending_one m i = i\<lparr>sub_loaned := insert m (sub_loaned i)\<rparr>"

definition message_lent ::
  "ptr \<Rightarrow> subscription_impl \<Rightarrow> (ptr \<Rightarrow> object option) \<Rightarrow> (entity_kind \<times> ptr) multiset \<Rightarrow> ptr \<Rightarrow> world \<Rightarrow> bool" where
  "message_lent p i h e m w \<longleftrightarrow> m \<noteq> nullptr \<and> h m = None \<and>
     (\<exists>v. ledger (h(p \<mapsto> SubscriptionImpl (lending_one m i))) e [Memory m (RosMessage v)] w)"

text \<open>Taking a loan as one operation that makes a message, and returning it as the one that discards it.\<close>

definition make_loan :: "env \<Rightarrow> ptr \<Rightarrow> bool \<Rightarrow> world \<Rightarrow> ptr result" where
  "make_loan E s message_info w =
     (if message_info
      then do {
        ((_, m, _), w) \<leftarrow> rmw_take_loaned_message_with_info E s (Some nullptr) True True w;
        Some (case m of None \<Rightarrow> nullptr | Some p \<Rightarrow> p, w) }
      else do {
        ((_, m), w) \<leftarrow> rmw_take_loaned_message E s (Some nullptr) True w;
        Some (case m of None \<Rightarrow> nullptr | Some p \<Rightarrow> p, w) })"

lemma given_create_ros_message [step]:
  assumes "\<And>p w'. (p \<noteq> nullptr \<Longrightarrow> h p = None) \<Longrightarrow>
      given h e (Memory p (RosMessage (new_message cb)) # rs) w' (f p w') Q"
  shows "given h e rs w (let (p, w') = create_ros_message E cb w in f p w') Q"
  unfolding create_ros_message_def by (intro step assms)

lemma given_destroy_ros_message [step]:
  assumes "m \<noteq> nullptr" "\<And>w'. given h e rs w' (f w') Q"
  shows "given h e (Memory m x # rs) w (Option.bind (destroy_ros_message m w) f) Q"
  unfolding destroy_ros_message_def by (intro step assms)

lemma given_insert_taken [step]:
  assumes "\<exists>i. h p = Some (SubscriptionImpl i)"
    and "\<And>i w'. Some (SubscriptionImpl i) = h p \<Longrightarrow>
      given (h(p \<mapsto> SubscriptionImpl (lending_one m i))) e rs w' (f w') Q"
  shows "given h e rs w (Option.bind (insert_taken p m w) f) Q"
  using assms
  by (auto simp: given_def insert_taken_def subscription_impl_at_def ledger_same [of h e rs w] lending_one_def
    ledger_update)

lemma given_erase_taken [step]:
  assumes "\<exists>i. h p = Some (SubscriptionImpl i)"
    and "\<And>i w'. Some (SubscriptionImpl i) = h p \<Longrightarrow>
      given (h(p \<mapsto> SubscriptionImpl (i\<lparr>sub_loaned := sub_loaned i - {m}\<rparr>))) e rs w' (f (m \<in> sub_loaned i, w')) Q"
  shows "given h e rs w (Option.bind (erase_taken p m w) f) Q"
  using assms
  by (auto simp: given_def erase_taken_def subscription_impl_at_def ledger_same [of h e rs w] ledger_update)

lemma lending_one_erase:
  "m \<notin> sub_loaned i \<Longrightarrow> (lending_one m i)\<lparr>sub_loaned := sub_loaned (lending_one m i) - {m}\<rparr> = i"
  "m \<in> sub_loaned (lending_one m i)"
  by (simp_all add: lending_one_def)

definition loan_outcome ::
  "ptr \<Rightarrow> subscription_impl \<Rightarrow> (ptr \<Rightarrow> object option) \<Rightarrow> (entity_kind \<times> ptr) multiset \<Rightarrow>
   (rmw_ret \<times> ptr option \<times> message_info option) \<times> world \<Rightarrow> bool" where
  "loan_outcome p i h e r \<longleftrightarrow>
     (case r of ((ret, None, filled), w) \<Rightarrow> ledger h e [] w
      | ((ret, Some m, filled), w) \<Rightarrow> message_lent p i h e m w)"

lemma loan_outcome_simps [simp]:
  "loan_outcome p i h e ((ret, None, filled), w) = ledger h e [] w"
  "loan_outcome p i h e ((ret, Some m, filled), w) = message_lent p i h e m w"
  by (simp_all add: loan_outcome_def)

text \<open>Here the message read into is one the operation made.\<close>

declare given_read_message [step del]

lemma given_nothing: "given h e (Entity k nullptr # rs) w m Q = given h e rs w m Q"
  by (simp add: given_def)

lemma lend_message_outcome:
  assumes "h p = Some (SubscriptionImpl i)" "m \<notin> sub_loaned i" "m \<noteq> nullptr" "h m = None"
  shows "given h e [Memory m (RosMessage v)] w (lend_message E p i m source message_info w) (loan_outcome p i h e)"
  unfolding lend_message_def
  using assms
  apply (intro step)
  apply (simp_all add: lending_one_erase fun_upd_idem message_lent_def)
  apply blast+
  done

lemma take_compatibility_loan_outcome:
  assumes "live_subscription s p i h" "deletes_succeed E" "finite_backlog E (sub_reader i)"
    and "\<And>m. h m = None \<Longrightarrow> m \<notin> sub_loaned i"
  shows "given h e [] w (take_compatibility_loan E p message_info w) (loan_outcome p i h e)"
proof -
  note D = live_subscriptionD [OF assms(1)]
  show ?thesis
    unfolding take_compatibility_loan_def
    using D(2-5) assms(2,3)
    apply (intro step)
    apply (simp_all add: lend_message_outcome assms(4) given_nothing)
    apply (intro conjI impI step)
    apply simp_all
    done
qed

lemma make_loan_outcome:
  assumes "loan_ready E s p i w"
  shows "post (make_loan E s message_info w) (\<lambda>(m, w').
    if m = nullptr then ledger (heap w) (entities w) [] w' else message_lent p i (heap w) (entities w) m w')"
proof -
  have wf: "wf_world w" and live: "live_subscription s p i (heap w)" and E: "deletes_succeed E"
    and B: "finite_backlog E (sub_reader i)" and L: "\<And>m. heap w m = None \<Longrightarrow> m \<notin> sub_loaned i"
    using assms by (auto simp: loan_ready_def)
  have valid: "validate_subscription s w = Some RMW_RET_OK" and at: "\<exists>x. subscription_at s w = Some x \<and> handle_data x = p"
    using live_subscriptionD [OF live] by (auto simp: validate_subscription_def subscription_at_def)
  have "post (take_compatibility_loan E p mi w) (loan_outcome p i (heap w) (entities w))" for mi
    using take_compatibility_loan_outcome [OF live E B L] given_start [OF wf] by blast
  then obtain ret m filled w' where r: "take_compatibility_loan E p message_info w = Some ((ret, m, filled), w')"
      and o: "loan_outcome p i (heap w) (entities w) ((ret, m, filled), w')"
    by (fastforce simp: post_ex)
  have "make_loan E s message_info w = Some (case m of None \<Rightarrow> nullptr | Some p \<Rightarrow> p, w')"
    using r valid at
    by (cases message_info) (auto simp: make_loan_def rmw_take_loaned_message_def rmw_take_loaned_message_with_info_def)
  with o show ?thesis by (cases m) (auto simp: message_lent_def)
qed

lemma return_loan_outcome:
  assumes "loan_ready E s p i w0" "message_lent p i (heap w0) (entities w0) m w"
  shows "post (rmw_return_loaned_message_from_subscription s m w) (\<lambda>(ret, w').
    ret = RMW_RET_OK \<and> ledger (heap w0) (entities w0) [] w')"
proof -
  have live: "live_subscription s p i (heap w0)" and L: "\<And>m. heap w0 m = None \<Longrightarrow> m \<notin> sub_loaned i"
    using assms(1) by (auto simp: loan_ready_def)
  note D = live_subscriptionD [OF live]
  obtain x where x: "heap w0 s = Some (SubscriptionHandle x)" "handle_data x = p" "handle_identifier x = ZzddsIdentifier"
    using D(6) by blast
  obtain v where m: "m \<noteq> nullptr" "heap w0 m = None"
    and l: "ledger ((heap w0)(p \<mapsto> SubscriptionImpl (lending_one m i))) (entities w0) [Memory m (RosMessage v)] w"
    using assms(2) by (auto simp: message_lent_def)
  have "s \<noteq> p" using x D(3) by auto
  have "given ((heap w0)(p \<mapsto> SubscriptionImpl (lending_one m i))) (entities w0) [Memory m (RosMessage v)] w
      (rmw_return_loaned_message_from_subscription s m w)
      (\<lambda>(ret, w'). ret = RMW_RET_OK \<and> ledger (heap w0) (entities w0) [] w')"
    unfolding rmw_return_loaned_message_from_subscription_def
    using D(1-3) x m(1) \<open>s \<noteq> p\<close>
    apply (intro step)
    apply (simp_all add: lending_one_erase L [OF m(2)] fun_upd_idem)
    done
  with l show ?thesis by (simp add: given_def)
qed

interpretation subscription_loan: lifecycle "loan_ready E s p i" "make_loan E s message_info"
    "rmw_return_loaned_message_from_subscription s" "message_lent p i"
  for E s p i message_info
  by unfold_locales (rule make_loan_outcome, assumption, rule return_loan_outcome)

text \<open>
  C33. A message taken as a loan, with or without its info, belongs to the subscription until it is
  returned. Taking one never has undefined behaviour; where it gives no message (no data, a sample
  without data, a failed allocation, take, decoding, bookkeeping or GUID lookup) it leaves no trace.
  Otherwise returning the message succeeds, and heap, registry of loans and entities are what they
  were before.
\<close>

theorem loaned_message_lifecycle:
  assumes "wf_world w" "live_subscription s p i (heap w)" "\<forall>m \<in> sub_loaned i. heap w m \<noteq> None"
    and "finite_backlog E (sub_reader i)" "deletes_succeed E"
  shows "post (make_loan E s message_info w) (\<lambda>(m, w1).
    if m = nullptr then heap w1 = heap w \<and> entities w1 = entities w
    else post (rmw_return_loaned_message_from_subscription s m w1) (\<lambda>(ret, w2).
      ret = RMW_RET_OK \<and> heap w2 = heap w \<and> entities w2 = entities w))"
  using assms by (intro subscription_loan.restores) (simp add: loan_ready_def)

theorem loaned_message_lifecycle_witness:
  "post (make_loan sample_env 10 True subscription_world) (\<lambda>(m, w1).
    if m = nullptr then heap w1 = heap subscription_world \<and> entities w1 = entities subscription_world
    else post (rmw_return_loaned_message_from_subscription 10 m w1) (\<lambda>(ret, w2).
      ret = RMW_RET_OK \<and> heap w2 = heap subscription_world \<and> entities w2 = entities subscription_world))"
  by (rule loaned_message_lifecycle [OF subscription_world_wf subscription_world_live])
     (simp_all add: example_subscription_def new_subscription_impl_def sample_env_drains,
      simp add: sample_env_def deletes_succeed_def all_succeed_def)

end
