(* ===== verification/Service.thy ===== *)
theory Service
  imports Publishing Taking
begin

text \<open>
  Clients and services (\<^verbatim>\<open>rmw_service.cpp\<close>): a client is a publisher of requests and a subscription
  to replies, a service the reverse. A message on the wire is the client's GUID, the request's
  sequence number and the serialized message.
\<close>

unbundle bit_operations_syntax

section \<open>The wire format\<close>

definition dds_guid_size :: nat where
  "dds_guid_size = 16"

definition request_header_size :: nat where
  "request_header_size = dds_guid_size + 8"

definition encode_sequence :: "int64 \<Rightarrow> uint8 list" where
  "encode_sequence sequence = map (\<lambda>index. ucast (drop_bit (56 - 8 * index) sequence)) [0 ..< 8]"

definition decode_sequence :: "uint8 list \<Rightarrow> int64" where
  "decode_sequence input = foldl (\<lambda>value byte. push_bit 8 value OR ucast byte) 0 (take 8 input)"

record request_id =
  writer_guid :: "uint8 list"
  sequence_number :: int64

record service_info =
  service_source_timestamp :: int64
  service_received_timestamp :: int64
  service_request_id :: request_id

section \<open>Publishing a service message\<close>

text \<open>
  \<^verbatim>\<open>rmw_serialized_message_init\<close> of a local variable: a buffer of \<open>n\<close> bytes, whose contents are
  unspecified (here 0). The address is null where it fails; \<^verbatim>\<open>rmw_serialized_message_fini\<close> frees it.
\<close>

definition init_message :: "env \<Rightarrow> nat \<Rightarrow> world \<Rightarrow> (rmw_ret \<times> ptr) \<times> world" where
  "init_message E n w =
     (let (ret, w) = call_rmw E (InitArray n) w
      in if ret \<noteq> RMW_RET_OK then ((ret, nullptr), w)
         else ((ret, next_ptr w), w\<lparr>next_ptr := next_ptr w + 1,
            heap := (heap w)(next_ptr w \<mapsto> SerializedMessage \<lparr>buffer = replicate n 0, buffer_length = 0,
              buffer_null = (n = 0), allocator_valid = True\<rparr>)\<rparr>))"

definition wire_bytes :: "request_id \<Rightarrow> uint8 list \<Rightarrow> uint8 list" where
  "wire_bytes r payload =
     take dds_guid_size (writer_guid r) @ encode_sequence (sequence_number r) @ payload"

text \<open>The three copies into the wire buffer.\<close>

definition write_wire :: "ptr \<Rightarrow> request_id \<Rightarrow> serialized_message \<Rightarrow> world \<Rightarrow> world option" where
  "write_wire wire r payload w = do {
     bytes \<leftarrow> message_bytes payload;
     m \<leftarrow> serialized_at wire w;
     if buffer_capacity m < request_header_size + buffer_length payload then None
     else Some (store wire (SerializedMessage (m\<lparr>buffer := overwrite (wire_bytes r bytes) (buffer m),
                  buffer_length := request_header_size + buffer_length payload\<rparr>)) w) }"

definition publish_service_message ::
  "env \<Rightarrow> ptr \<Rightarrow> message_callbacks \<Rightarrow> ptr \<Rightarrow> request_id \<Rightarrow> world \<Rightarrow> rmw_ret result" where
  "publish_service_message E publisher callbacks ros_message request_id w =
     (let ((result, payload), w) = init_message E 0 w
      in if result \<noteq> RMW_RET_OK then Some (result, w)
      else do {
        (result, w) \<leftarrow> rmw_serialize E ros_message (Some (message_handle callbacks)) payload w;
        p \<leftarrow> serialized_at payload w;
        let result = (if result = RMW_RET_OK \<and> buffer_length p > unat SIZE_MAX - request_header_size
                      then RMW_RET_ERROR else result);
        let ((result, wire), w) =
          (if result = RMW_RET_OK then init_message E (request_header_size + buffer_length p) w
           else ((result, nullptr), w));
        (result, w) \<leftarrow> (if result = RMW_RET_OK
          then do {
            w \<leftarrow> write_wire wire request_id p w;
            rmw_publish_serialized_message E publisher wire w }
          else Some (result, w));
        w \<leftarrow> free_if_not_null wire w;
        w \<leftarrow> deallocate payload w;
        Some (result, w) })"

section \<open>Taking a service message\<close>

text \<open>
  The message is decoded from a view on the wire buffer past the header, a local variable without
  memory of its own.
\<close>

definition accept_message ::
  "env \<Rightarrow> message_callbacks \<Rightarrow> message_info \<Rightarrow> uint8 list \<Rightarrow> ptr \<Rightarrow> world \<Rightarrow>
   (rmw_ret \<times> bool option \<times> service_info option) result" where
  "accept_message E callbacks message_info bytes ros_message w =
     (let filled = \<lparr>service_source_timestamp = source_timestamp message_info,
            service_received_timestamp = received_timestamp message_info,
            service_request_id = \<lparr>writer_guid = take dds_guid_size bytes,
              sequence_number = decode_sequence (drop dds_guid_size bytes)\<rparr>\<rparr>;
          payload = next_ptr w;
          w = w\<lparr>next_ptr := next_ptr w + 1,
             heap := (heap w)(payload \<mapsto> SerializedMessage \<lparr>buffer = drop request_header_size bytes,
               buffer_length = length bytes - request_header_size, buffer_null = False, allocator_valid = True\<rparr>)\<rparr>
      in do {
        (result, w) \<leftarrow> rmw_deserialize E payload (Some (message_handle callbacks)) ros_message w;
        w \<leftarrow> deallocate payload w;
        Some ((result, Some (result = RMW_RET_OK), Some filled), w) })"

text \<open>
  One round of the loop up to the comparison of the GUID: \<open>Inl\<close> leaves the loop, \<open>Inr\<close> is a message
  with its info.
\<close>

definition take_wire ::
  "env \<Rightarrow> ptr \<Rightarrow> ptr \<Rightarrow> world \<Rightarrow>
   ((rmw_ret \<times> bool option \<times> service_info option) + (message_info \<times> uint8 list)) result" where
  "take_wire E subscription wire w = do {
     m \<leftarrow> serialized_at wire w;
     ((result, taken, message_info), w) \<leftarrow> rmw_take_serialized_message_with_info E subscription wire True True
       (store wire (SerializedMessage (m\<lparr>buffer_length := 0\<rparr>)) w);
     case message_info of
       None \<Rightarrow> Some (Inl (result, taken, None), w)
     | Some i \<Rightarrow>
         if result \<noteq> RMW_RET_OK \<or> taken \<noteq> Some True then Some (Inl (result, taken, None), w)
         else do {
           m \<leftarrow> serialized_at wire w;
           if buffer_length m \<le> request_header_size then Some (Inl (RMW_RET_ERROR, Some False, None), w)
           else do {
             bytes \<leftarrow> message_bytes m;
             Some (Inr (i, bytes), w) } } }"

text \<open>The loop over the replies that are meant for other clients.\<close>

partial_function (option) take_service_loop ::
  "env \<Rightarrow> ptr \<Rightarrow> message_callbacks \<Rightarrow> ptr \<Rightarrow> ptr \<Rightarrow> uint8 list option \<Rightarrow> world \<Rightarrow>
   ((rmw_ret \<times> bool option \<times> service_info option) \<times> world) option" where
  "take_service_loop E subscription callbacks wire ros_message expected_guid w = do {
     (r, w) \<leftarrow> take_wire E subscription wire w;
     case r of
       Inl left \<Rightarrow> Some (left, w)
     | Inr message \<Rightarrow>
         if expected_guid \<noteq> None \<and> expected_guid \<noteq> Some (take dds_guid_size (snd message))
         then take_service_loop E subscription callbacks wire ros_message expected_guid w
         else accept_message E callbacks (fst message) (snd message) ros_message w }"

definition take_service_message ::
  "env \<Rightarrow> ptr \<Rightarrow> message_callbacks \<Rightarrow> ptr \<Rightarrow> uint8 list option \<Rightarrow> world \<Rightarrow>
   (rmw_ret \<times> bool option \<times> service_info option) result" where
  "take_service_message E subscription callbacks ros_message expected_guid w =
     (let ((result, wire), w) = init_message E 0 w
      in if result \<noteq> RMW_RET_OK then Some ((result, None, None), w)
      else do {
        (result, w) \<leftarrow> take_service_loop E subscription callbacks wire ros_message expected_guid w;
        w \<leftarrow> deallocate wire w;
        Some (result, w) })"

section \<open>Requests and responses\<close>

text \<open>\<^verbatim>\<open>valid_handle\<close> of a client or service, with the code returned for one that is not.\<close>

definition check_handle :: "ptr \<Rightarrow> (ptr \<Rightarrow> world \<Rightarrow> endpoint_handle option) \<Rightarrow> world \<Rightarrow> rmw_ret option" where
  "check_handle handle handle_at w =
     (if handle = nullptr then Some RMW_RET_INVALID_ARGUMENT
      else do {
        h \<leftarrow> handle_at handle w;
        Some (if handle_identifier h \<noteq> ZzddsIdentifier then RMW_RET_INCORRECT_RMW_IMPLEMENTATION
              else if handle_data h = nullptr then RMW_RET_INVALID_ARGUMENT else RMW_RET_OK) })"

definition rmw_send_request :: "env \<Rightarrow> ptr \<Rightarrow> ptr \<Rightarrow> bool \<Rightarrow> world \<Rightarrow> (rmw_ret \<times> int64 option) result" where
  "rmw_send_request E client ros_request sequence_id w = do {
     validation \<leftarrow> check_handle client client_at w;
     if validation \<noteq> RMW_RET_OK then Some ((validation, None), w)
     else if ros_request = nullptr \<or> \<not> sequence_id then Some ((RMW_RET_INVALID_ARGUMENT, None), w)
     else do {
       h \<leftarrow> client_at client w;
       impl \<leftarrow> client_impl_at (handle_data h) w;
       ((result, gid), w) \<leftarrow> rmw_get_gid_for_publisher E (request_publisher impl) True w;
       case gid of
         None \<Rightarrow> Some ((result, None), w)
       | Some g \<Rightarrow> do {
           let r = \<lparr>writer_guid = take dds_guid_size (gid_data g), sequence_number = next_sequence impl\<rparr>;
           let w = store (handle_data h) (ClientImpl (impl\<lparr>next_sequence := next_sequence impl + 1\<rparr>)) w;
           (result, w) \<leftarrow> publish_service_message E (request_publisher impl)
             (ts_request (client_typesupport impl)) ros_request r w;
           Some ((result, if result = RMW_RET_OK then Some (sequence_number r) else None), w) } } }"

definition rmw_take_request ::
  "env \<Rightarrow> ptr \<Rightarrow> bool \<Rightarrow> ptr \<Rightarrow> bool \<Rightarrow> world \<Rightarrow> (rmw_ret \<times> bool option \<times> service_info option) result" where
  "rmw_take_request E service request_header ros_request taken w = do {
     validation \<leftarrow> check_handle service service_at w;
     if validation \<noteq> RMW_RET_OK then Some ((validation, None, None), w)
     else if \<not> request_header \<or> ros_request = nullptr \<or> \<not> taken
     then Some ((RMW_RET_INVALID_ARGUMENT, None, None), w)
     else do {
       h \<leftarrow> service_at service w;
       impl \<leftarrow> service_impl_at (handle_data h) w;
       take_service_message E (request_subscription impl) (ts_request (service_typesupport impl)) ros_request None w } }"

definition rmw_send_response :: "env \<Rightarrow> ptr \<Rightarrow> request_id option \<Rightarrow> ptr \<Rightarrow> world \<Rightarrow> rmw_ret result" where
  "rmw_send_response E service request_id ros_response w = do {
     validation \<leftarrow> check_handle service service_at w;
     if validation \<noteq> RMW_RET_OK then Some (validation, w)
     else case request_id of
       None \<Rightarrow> Some (RMW_RET_INVALID_ARGUMENT, w)
     | Some r \<Rightarrow>
         if ros_response = nullptr then Some (RMW_RET_INVALID_ARGUMENT, w)
         else do {
           h \<leftarrow> service_at service w;
           impl \<leftarrow> service_impl_at (handle_data h) w;
           publish_service_message E (response_publisher impl) (ts_response (service_typesupport impl))
             ros_response r w } }"

definition rmw_take_response ::
  "env \<Rightarrow> ptr \<Rightarrow> bool \<Rightarrow> ptr \<Rightarrow> bool \<Rightarrow> world \<Rightarrow> (rmw_ret \<times> bool option \<times> service_info option) result" where
  "rmw_take_response E client request_header ros_response taken w = do {
     validation \<leftarrow> check_handle client client_at w;
     if validation \<noteq> RMW_RET_OK then Some ((validation, None, None), w)
     else if \<not> request_header \<or> ros_response = nullptr \<or> \<not> taken
     then Some ((RMW_RET_INVALID_ARGUMENT, None, None), w)
     else do {
       h \<leftarrow> client_at client w;
       impl \<leftarrow> client_impl_at (handle_data h) w;
       ((result, gid), w) \<leftarrow> rmw_get_gid_for_publisher E (request_publisher impl) True w;
       case gid of
         None \<Rightarrow> Some ((result, None, None), w)
       | Some g \<Rightarrow> take_service_message E (response_subscription impl) (ts_response (client_typesupport impl))
           ros_response (Some (take dds_guid_size (gid_data g))) w } }"

section \<open>Creating a client or a service\<close>

text \<open>The class \<^verbatim>\<open>ServiceHashOverride\<close>: set by its constructor, cleared by its destructor.\<close>

definition set_override :: "type_hash option \<Rightarrow> world \<Rightarrow> world" where
  "set_override hash w = w\<lparr>service_hash_override := hash\<rparr>"

definition allocate_handle ::
  "env \<Rightarrow> (endpoint_handle \<Rightarrow> object) \<Rightarrow> string \<Rightarrow> ptr \<Rightarrow> world \<Rightarrow> (ptr \<times> ptr) result" where
  "allocate_handle E kind name impl w =
     (let (result, w) = allocate_object E
            (kind \<lparr>handle_identifier = NullIdentifier, handle_data = nullptr, handle_name = nullptr\<rparr>) w;
          (copy, w) = duplicate_string E name w
      in if result = nullptr \<or> copy = nullptr
      then do {
        w \<leftarrow> free_if_not_null copy w;
        w \<leftarrow> deallocate_object result w;
        Some ((nullptr, nullptr), w) }
      else Some ((result, copy), store result
             (kind \<lparr>handle_identifier = ZzddsIdentifier, handle_data = impl, handle_name = copy\<rparr>) w))"

text \<open>\<^verbatim>\<open>cleanup_publisher\<close> and \<^verbatim>\<open>cleanup_subscription\<close> ignore the result.\<close>

definition cleanup_publisher :: "env \<Rightarrow> ptr \<Rightarrow> ptr \<Rightarrow> world \<Rightarrow> world option" where
  "cleanup_publisher E node publisher w = do {
     (_, w) \<leftarrow> rmw_destroy_publisher E node publisher w;
     Some w }"

definition cleanup_subscription :: "env \<Rightarrow> ptr \<Rightarrow> ptr \<Rightarrow> world \<Rightarrow> world option" where
  "cleanup_subscription E node subscription w = do {
     (_, w) \<leftarrow> rmw_destroy_subscription E node subscription w;
     Some w }"

definition mark_publisher :: "ptr \<Rightarrow> world \<Rightarrow> world option" where
  "mark_publisher publisher w = do {
     h \<leftarrow> publisher_at publisher w;
     impl \<leftarrow> publisher_impl_at (handle_data h) w;
     Some (store (handle_data h) (PublisherImpl (impl\<lparr>pub_is_service_endpoint := True\<rparr>)) w) }"

definition mark_subscription :: "ptr \<Rightarrow> world \<Rightarrow> world option" where
  "mark_subscription subscription w = do {
     s \<leftarrow> subscription_at subscription w;
     impl \<leftarrow> subscription_impl_at (handle_data s) w;
     Some (store (handle_data s) (SubscriptionImpl (impl\<lparr>sub_is_service_endpoint := True\<rparr>)) w) }"

definition insert_client :: "ptr \<Rightarrow> context_impl \<Rightarrow> context_impl" where
  "insert_client p c = c\<lparr>clients := insert p (clients c)\<rparr>"

definition erase_client :: "ptr \<Rightarrow> context_impl \<Rightarrow> context_impl" where
  "erase_client p c = c\<lparr>clients := clients c - {p}\<rparr>"

definition insert_service :: "ptr \<Rightarrow> context_impl \<Rightarrow> context_impl" where
  "insert_service p c = c\<lparr>services := insert p (services c)\<rparr>"

definition erase_service :: "ptr \<Rightarrow> context_impl \<Rightarrow> context_impl" where
  "erase_service p c = c\<lparr>services := services c - {p}\<rparr>"

text \<open>From the two endpoints on.\<close>

definition finish_client ::
  "env \<Rightarrow> ptr \<Rightarrow> ptr \<Rightarrow> service_type_support \<Rightarrow> string \<Rightarrow> ptr \<Rightarrow> ptr \<Rightarrow> world \<Rightarrow> ptr result" where
  "finish_client E node ci ts service_name pub sub w = do {
     w \<leftarrow> mark_publisher pub w;
     w \<leftarrow> mark_subscription sub w;
     let (impl, w) = allocate_object E (ClientImpl \<lparr>client_context = ci, client_node = node,
           request_publisher = pub, response_subscription = sub, client_typesupport = ts, next_sequence = 1\<rparr>) w;
     ((result, copy), w) \<leftarrow> (if impl = nullptr then Some ((nullptr, nullptr), w)
       else allocate_handle E ClientHandle service_name impl w);
     if result = nullptr
     then do {
       w \<leftarrow> deallocate_object impl w;
       w \<leftarrow> cleanup_subscription E node sub w;
       w \<leftarrow> cleanup_publisher E node pub w;
       Some (nullptr, w) }
     else let (room, w) = call_ok E GrowContainer w
     in if \<not> room
     then do {
       w \<leftarrow> cleanup_subscription E node sub w;
       w \<leftarrow> cleanup_publisher E node pub w;
       w \<leftarrow> deallocate copy w;
       w \<leftarrow> deallocate_object impl w;
       w \<leftarrow> deallocate_object result w;
       Some (nullptr, w) }
     else do {
       w \<leftarrow> update_context (insert_client result) ci w;
       w \<leftarrow> notify_graph_change E ci w;
       Some (result, w) } }"

text \<open>The two topics, built in strings whose memory may not be had. A rejected name builds none.\<close>

definition make_service_topics ::
  "env \<Rightarrow> string option \<Rightarrow> world \<Rightarrow> (string \<times> string) option \<times> world" where
  "make_service_topics E name w =
     (if service_topics name True = None then (None, w)
      else let (room, w) = call_ok E GrowContainer w in (service_topics name room, w))"

definition build_client ::
  "env \<Rightarrow> ptr \<Rightarrow> ptr \<Rightarrow> service_type_support \<Rightarrow> string \<Rightarrow> string \<Rightarrow> string \<Rightarrow> rmw_qos_profile \<Rightarrow> world \<Rightarrow>
   ptr result" where
  "build_client E node ci ts request_topic response_topic service_name qos w = do {
     (pub, w) \<leftarrow> rmw_create_publisher E node (Some (message_handle (ts_request ts))) (Some request_topic)
       (Some qos) (Some default_publisher_options) w;
     if pub = nullptr then Some (nullptr, w)
     else do {
       (sub, w) \<leftarrow> rmw_create_subscription E node (Some (message_handle (ts_response ts))) (Some response_topic)
         (Some qos) (Some default_subscription_options) w;
       if sub = nullptr
       then do {
         w \<leftarrow> cleanup_publisher E node pub w;
         Some (nullptr, w) }
       else finish_client E node ci ts service_name pub sub w } }"

definition rmw_create_client ::
  "env \<Rightarrow> ptr \<Rightarrow> service_ts option \<Rightarrow> string option \<Rightarrow> rmw_qos_profile option \<Rightarrow> world \<Rightarrow> ptr result" where
  "rmw_create_client E node type_support service_name qos w = do {
     valid \<leftarrow> valid_node node w;
     if \<not> valid \<or> qos = None then Some (nullptr, w)
     else case resolve_service_type_support type_support of
       None \<Rightarrow> Some (nullptr, w)
     | Some ts \<Rightarrow>
         let (topics, w) = make_service_topics E service_name w
         in case (topics, service_name, qos) of
           (Some (request_topic, response_topic), Some name, Some q) \<Rightarrow> do {
             nh \<leftarrow> node_handle_at node w;
             ctx \<leftarrow> context_at (node_context nh) w;
             (result, w) \<leftarrow> build_client E node (context_impl_ptr ctx) ts request_topic response_topic name q
               (set_override (Some (ts_type_hash ts)) w);
             Some (result, set_override None w) }
         | _ \<Rightarrow> Some (nullptr, w) }"

definition finish_service ::
  "env \<Rightarrow> ptr \<Rightarrow> ptr \<Rightarrow> service_type_support \<Rightarrow> string \<Rightarrow> ptr \<Rightarrow> ptr \<Rightarrow> world \<Rightarrow> ptr result" where
  "finish_service E node ci ts service_name sub pub w = do {
     w \<leftarrow> mark_subscription sub w;
     w \<leftarrow> mark_publisher pub w;
     let (impl, w) = allocate_object E (ServiceImpl \<lparr>service_context = ci, service_node = node,
           request_subscription = sub, response_publisher = pub, service_typesupport = ts\<rparr>) w;
     ((result, copy), w) \<leftarrow> (if impl = nullptr then Some ((nullptr, nullptr), w)
       else allocate_handle E ServiceHandle service_name impl w);
     if result = nullptr
     then do {
       w \<leftarrow> deallocate_object impl w;
       w \<leftarrow> cleanup_publisher E node pub w;
       w \<leftarrow> cleanup_subscription E node sub w;
       Some (nullptr, w) }
     else let (room, w) = call_ok E GrowContainer w
     in if \<not> room
     then do {
       w \<leftarrow> cleanup_publisher E node pub w;
       w \<leftarrow> cleanup_subscription E node sub w;
       w \<leftarrow> deallocate copy w;
       w \<leftarrow> deallocate_object impl w;
       w \<leftarrow> deallocate_object result w;
       Some (nullptr, w) }
     else do {
       w \<leftarrow> update_context (insert_service result) ci w;
       w \<leftarrow> notify_graph_change E ci w;
       Some (result, w) } }"

definition build_service ::
  "env \<Rightarrow> ptr \<Rightarrow> ptr \<Rightarrow> service_type_support \<Rightarrow> string \<Rightarrow> string \<Rightarrow> string \<Rightarrow> rmw_qos_profile \<Rightarrow> world \<Rightarrow>
   ptr result" where
  "build_service E node ci ts request_topic response_topic service_name qos w = do {
     (sub, w) \<leftarrow> rmw_create_subscription E node (Some (message_handle (ts_request ts))) (Some request_topic)
       (Some qos) (Some default_subscription_options) w;
     if sub = nullptr then Some (nullptr, w)
     else do {
       (pub, w) \<leftarrow> rmw_create_publisher E node (Some (message_handle (ts_response ts))) (Some response_topic)
         (Some qos) (Some default_publisher_options) w;
       if pub = nullptr
       then do {
         w \<leftarrow> cleanup_subscription E node sub w;
         Some (nullptr, w) }
       else finish_service E node ci ts service_name sub pub w } }"

definition rmw_create_service ::
  "env \<Rightarrow> ptr \<Rightarrow> service_ts option \<Rightarrow> string option \<Rightarrow> rmw_qos_profile option \<Rightarrow> world \<Rightarrow> ptr result" where
  "rmw_create_service E node type_support service_name qos w = do {
     valid \<leftarrow> valid_node node w;
     if \<not> valid \<or> qos = None then Some (nullptr, w)
     else case resolve_service_type_support type_support of
       None \<Rightarrow> Some (nullptr, w)
     | Some ts \<Rightarrow>
         let (topics, w) = make_service_topics E service_name w
         in case (topics, service_name, qos) of
           (Some (request_topic, response_topic), Some name, Some q) \<Rightarrow> do {
             nh \<leftarrow> node_handle_at node w;
             ctx \<leftarrow> context_at (node_context nh) w;
             (result, w) \<leftarrow> build_service E node (context_impl_ptr ctx) ts request_topic response_topic name q
               (set_override (Some (ts_type_hash ts)) w);
             Some (result, set_override None w) }
         | _ \<Rightarrow> Some (nullptr, w) }"

section \<open>Destroying a client or a service\<close>

definition rmw_destroy_client :: "env \<Rightarrow> ptr \<Rightarrow> ptr \<Rightarrow> world \<Rightarrow> rmw_ret result" where
  "rmw_destroy_client E node client w =
     (if node = nullptr \<or> client = nullptr then Some (RMW_RET_INVALID_ARGUMENT, w)
      else do {
        h \<leftarrow> client_at client w;
        if handle_data h = nullptr then Some (RMW_RET_INVALID_ARGUMENT, w)
        else do {
          nh \<leftarrow> node_handle_at node w;
          if node_identifier nh \<noteq> ZzddsIdentifier \<or> handle_identifier h \<noteq> ZzddsIdentifier
          then Some (RMW_RET_INCORRECT_RMW_IMPLEMENTATION, w)
          else do {
            impl \<leftarrow> client_impl_at (handle_data h) w;
            w \<leftarrow> update_context (erase_client client) (client_context impl) w;
            w \<leftarrow> notify_graph_change E (client_context impl) w;
            (result, w) \<leftarrow> rmw_destroy_subscription E node (response_subscription impl) w;
            (ret, w) \<leftarrow> rmw_destroy_publisher E node (request_publisher impl) w;
            w \<leftarrow> deallocate (handle_name h) w;
            w \<leftarrow> deallocate_object (handle_data h) w;
            w \<leftarrow> deallocate_object client w;
            Some (if ret \<noteq> RMW_RET_OK then RMW_RET_ERROR else result, w) } } })"

definition rmw_destroy_service :: "env \<Rightarrow> ptr \<Rightarrow> ptr \<Rightarrow> world \<Rightarrow> rmw_ret result" where
  "rmw_destroy_service E node service w =
     (if node = nullptr \<or> service = nullptr then Some (RMW_RET_INVALID_ARGUMENT, w)
      else do {
        h \<leftarrow> service_at service w;
        if handle_data h = nullptr then Some (RMW_RET_INVALID_ARGUMENT, w)
        else do {
          nh \<leftarrow> node_handle_at node w;
          if node_identifier nh \<noteq> ZzddsIdentifier \<or> handle_identifier h \<noteq> ZzddsIdentifier
          then Some (RMW_RET_INCORRECT_RMW_IMPLEMENTATION, w)
          else do {
            impl \<leftarrow> service_impl_at (handle_data h) w;
            w \<leftarrow> update_context (erase_service service) (service_context impl) w;
            w \<leftarrow> notify_graph_change E (service_context impl) w;
            (result, w) \<leftarrow> rmw_destroy_publisher E node (response_publisher impl) w;
            (ret, w) \<leftarrow> rmw_destroy_subscription E node (request_subscription impl) w;
            w \<leftarrow> deallocate (handle_name h) w;
            w \<leftarrow> deallocate_object (handle_data h) w;
            w \<leftarrow> deallocate_object service w;
            Some (if ret \<noteq> RMW_RET_OK then RMW_RET_ERROR else result, w) } } })"

section \<open>Queries\<close>

definition rmw_service_server_is_available ::
  "env \<Rightarrow> ptr \<Rightarrow> ptr \<Rightarrow> bool \<Rightarrow> world \<Rightarrow> (rmw_ret \<times> bool option) result" where
  "rmw_service_server_is_available E node client is_available w =
     (if node = nullptr \<or> client = nullptr \<or> \<not> is_available then Some ((RMW_RET_INVALID_ARGUMENT, None), w)
      else do {
        nh \<leftarrow> node_handle_at node w;
        h \<leftarrow> client_at client w;
        if node_identifier nh \<noteq> ZzddsIdentifier \<or> handle_identifier h \<noteq> ZzddsIdentifier
        then Some ((RMW_RET_INCORRECT_RMW_IMPLEMENTATION, None), w)
        else if node_data nh = nullptr \<or> handle_data h = nullptr then Some ((RMW_RET_INVALID_ARGUMENT, None), w)
        else do {
          impl \<leftarrow> client_impl_at (handle_data h) w;
          ((result, request_readers), w) \<leftarrow> rmw_publisher_count_matched_subscriptions E (request_publisher impl) True w;
          case request_readers of
            None \<Rightarrow> Some ((result, None), w)
          | Some n \<Rightarrow> do {
              s \<leftarrow> subscription_at (response_subscription impl) w;
              response \<leftarrow> subscription_impl_at (handle_data s) w;
              Some ((RMW_RET_OK, Some (n > 0 \<and> 0 <s reliable_writer_ready_count response)), w) } } })"

text \<open>The QoS of the four endpoints: an invalid handle is an invalid argument, whatever its identifier.\<close>

definition rmw_client_request_publisher_get_actual_qos ::
  "ptr \<Rightarrow> bool \<Rightarrow> world \<Rightarrow> (rmw_ret \<times> rmw_qos_profile option) result" where
  "rmw_client_request_publisher_get_actual_qos client qos w = do {
     validation \<leftarrow> check_handle client client_at w;
     if validation \<noteq> RMW_RET_OK then Some ((RMW_RET_INVALID_ARGUMENT, None), w)
     else do {
       h \<leftarrow> client_at client w;
       impl \<leftarrow> client_impl_at (handle_data h) w;
       rmw_publisher_get_actual_qos (request_publisher impl) qos w } }"

definition rmw_client_response_subscription_get_actual_qos ::
  "ptr \<Rightarrow> bool \<Rightarrow> world \<Rightarrow> (rmw_ret \<times> rmw_qos_profile option) result" where
  "rmw_client_response_subscription_get_actual_qos client qos w = do {
     validation \<leftarrow> check_handle client client_at w;
     if validation \<noteq> RMW_RET_OK then Some ((RMW_RET_INVALID_ARGUMENT, None), w)
     else do {
       h \<leftarrow> client_at client w;
       impl \<leftarrow> client_impl_at (handle_data h) w;
       rmw_subscription_get_actual_qos (response_subscription impl) qos w } }"

definition rmw_service_response_publisher_get_actual_qos ::
  "ptr \<Rightarrow> bool \<Rightarrow> world \<Rightarrow> (rmw_ret \<times> rmw_qos_profile option) result" where
  "rmw_service_response_publisher_get_actual_qos service qos w = do {
     validation \<leftarrow> check_handle service service_at w;
     if validation \<noteq> RMW_RET_OK then Some ((RMW_RET_INVALID_ARGUMENT, None), w)
     else do {
       h \<leftarrow> service_at service w;
       impl \<leftarrow> service_impl_at (handle_data h) w;
       rmw_publisher_get_actual_qos (response_publisher impl) qos w } }"

definition rmw_service_request_subscription_get_actual_qos ::
  "ptr \<Rightarrow> bool \<Rightarrow> world \<Rightarrow> (rmw_ret \<times> rmw_qos_profile option) result" where
  "rmw_service_request_subscription_get_actual_qos service qos w = do {
     validation \<leftarrow> check_handle service service_at w;
     if validation \<noteq> RMW_RET_OK then Some ((RMW_RET_INVALID_ARGUMENT, None), w)
     else do {
       h \<leftarrow> service_at service w;
       impl \<leftarrow> service_impl_at (handle_data h) w;
       rmw_subscription_get_actual_qos (request_subscription impl) qos w } }"

definition rmw_get_gid_for_client :: "env \<Rightarrow> ptr \<Rightarrow> bool \<Rightarrow> world \<Rightarrow> (rmw_ret \<times> rmw_gid option) result" where
  "rmw_get_gid_for_client E client gid w =
     (if client = nullptr then Some ((RMW_RET_INVALID_ARGUMENT, None), w)
      else do {
        h \<leftarrow> client_at client w;
        if handle_data h = nullptr then Some ((RMW_RET_INVALID_ARGUMENT, None), w)
        else if handle_identifier h \<noteq> ZzddsIdentifier then Some ((RMW_RET_INCORRECT_RMW_IMPLEMENTATION, None), w)
        else do {
          impl \<leftarrow> client_impl_at (handle_data h) w;
          rmw_get_gid_for_publisher E (request_publisher impl) gid w } })"

end
