(* ===== verification/Service_Props.thy ===== *)
theory Service_Props
  imports Service Taking_Loans
begin

text \<open>
  Service messages: the wire format can be read back, the local buffers are always released, and a
  client only ever accepts replies to its own requests.
\<close>

section \<open>The wire format\<close>

lemma length_encode_sequence [simp]: "length (encode_sequence s) = 8"
  by (simp add: encode_sequence_def)

lemma upt_8: "[0 ..< 8] = [0, 1, 2, 3, 4, 5, 6, 7 :: nat]"
  by (simp add: upt_rec)

lemma decode_encode_sequence: "decode_sequence (encode_sequence s @ rest) = s"
proof (rule bit_word_eqI)
  fix n
  assume n: "n < LENGTH(64)"
  define j where "j = n mod 8"
  have j: "j < 8" by (simp add: j_def)
  have "n = j \<or> n = 8 + j \<or> n = 16 + j \<or> n = 24 + j \<or> n = 32 + j \<or> n = 40 + j \<or> n = 48 + j \<or> n = 56 + j"
    using n unfolding j_def by simp presburger
  then show "bit (decode_sequence (encode_sequence s @ rest)) n = bit s n"
    using j by (elim disjE) (simp_all add: decode_sequence_def encode_sequence_def upt_8 bit_simps)
qed


text \<open>
  C34. The wire format loses nothing: from the bytes a client or service publishes, a taker reads the
  same GUID, sequence number (all 64 bits, negative ones included) and payload, and messages of two
  requests differ.
\<close>

theorem service_wire_roundtrip:
  assumes "length (writer_guid r) = 16"
  shows "take dds_guid_size (wire_bytes r payload) = writer_guid r \<and>
    decode_sequence (drop dds_guid_size (wire_bytes r payload)) = sequence_number r \<and>
    drop request_header_size (wire_bytes r payload) = payload"
  using assms
  by (simp add: wire_bytes_def dds_guid_size_def request_header_size_def decode_encode_sequence)

theorem service_wire_roundtrip_witness:
  "decode_sequence (drop dds_guid_size (wire_bytes \<lparr>writer_guid = replicate 16 7, sequence_number = - 2\<rparr> [1, 2])) = - 2"
  using service_wire_roundtrip [of "\<lparr>writer_guid = replicate 16 7, sequence_number = - 2\<rparr>" "[1, 2]"]
  by simp

section \<open>Taking a service message\<close>

text \<open>The subscriptions of clients and services see every sample.\<close>

lemma take_visible_all: "\<not> ignore_local_publications i \<Longrightarrow> take_visible_sample E i w = take_one E (sub_reader i) w"
  by (subst take_visible_sample.simps) (cases "take_one E (sub_reader i) w", auto)

text \<open>
  \<open>growth_refused E n t t'\<close>: among the calls between the traces \<open>t\<close> and \<open>t'\<close> there is one that was
  refused more memory for \<open>n\<close> bytes.
\<close>

definition growth_refused :: "env \<Rightarrow> nat \<Rightarrow> call list \<Rightarrow> call list \<Rightarrow> bool" where
  "growth_refused E n t t' \<longleftrightarrow> (\<exists>new old. t' = new @ ResizeArray n # old @ t \<and>
     rmw_code E (old @ t) (ResizeArray n) \<noteq> RMW_RET_OK)"

lemma growth_refused_now: "rmw_code E t (ResizeArray n) \<noteq> RMW_RET_OK \<Longrightarrow> growth_refused E n t (ResizeArray n # t)"
  unfolding growth_refused_def by (intro exI [of _ "[]"]) simp

lemma growth_refused_Cons: "growth_refused E n t t' \<Longrightarrow> growth_refused E n t (c # t')"
  unfolding growth_refused_def by (metis append_Cons)

lemma growth_refused_before: "since t t1 \<Longrightarrow> growth_refused E n t1 t' \<Longrightarrow> growth_refused E n t t'"
  unfolding growth_refused_def since_def by (metis append.assoc)

definition holds_bytes :: "uint8 list \<Rightarrow> serialized_message \<Rightarrow> bool" where
  "holds_bytes bytes m \<longleftrightarrow> buffer_length m = length bytes \<and> message_bytes m = Some bytes"

text \<open>A sample's bytes reach the buffer unless it has to grow and cannot.\<close>

lemma make_room_fill:
  assumes "serialized_at m w = Some m0" "valid_data (info x)"
  shows "(\<exists>ret. ret \<noteq> RMW_RET_OK \<and> rmw_code E (trace w) (ResizeArray (length (loan_data x))) = ret \<and>
      make_room E m x w = Some (ret, record_call (ResizeArray (length (loan_data x))) w)) \<or>
    (\<exists>w1 m'. make_room E m x w = Some (RMW_RET_OK, w1) \<and>
    fill_buffer m (loan_data x) w1 = Some (store m (SerializedMessage m') w1) \<and> holds_bytes (loan_data x) m' \<and>
    heap (store m (SerializedMessage m') w1) = (heap w)(m \<mapsto> SerializedMessage m') \<and>
    next_ptr w1 = next_ptr w \<and> entities w1 = entities w \<and>
    (trace w1 = trace w \<or> trace w1 = ResizeArray (length (loan_data x)) # trace w))"
proof (cases "buffer_capacity m0 < length (loan_data x)")
  case True
  show ?thesis
  proof (cases "rmw_code E (trace w) (ResizeArray (length (loan_data x))) = RMW_RET_OK")
    case fits: True
    with True assms show ?thesis
      by (auto simp: make_room_def resize_array_def call_rmw_def fill_buffer_def serialized_at_def
        buffer_capacity_def holds_bytes_def message_bytes_def overwrite_def)
  next
    case False
    with True assms show ?thesis
      by (simp add: make_room_def resize_array_def call_rmw_def)
  qed
next
  case False
  then show ?thesis
    using assms
    by (auto simp: make_room_def fill_buffer_def serialized_at_def buffer_capacity_def holds_bytes_def
      message_bytes_def overwrite_def)
qed

lemma take_serialized_pending:
  assumes "live_subscription s p i (heap w)" "deletes_succeed E" "\<not> ignore_local_publications i"
    and "pending E (sub_reader i) zs (trace w)" "publications E (sub_reader i) g"
    and "heap w m = Some (SerializedMessage m0)" "m \<noteq> nullptr"
  shows "\<exists>w' r m'. next_ptr w \<le> next_ptr w' \<and> entities w' = entities w \<and> pending E (sub_reader i) (tl zs) (trace w') \<and>
    since (trace w) (trace w') \<and> heap w' = (heap w)(m \<mapsto> SerializedMessage m') \<and>
    rmw_take_serialized_message_with_info E s m True True w = Some (r, w') \<and>
    (case zs of
       [] \<Rightarrow> r = (RMW_RET_OK, Some False, None)
     | z # _ \<Rightarrow>
         if \<not> valid_data (snd z) then r = (RMW_RET_OK, Some False, None)
         else r = (RMW_RET_BAD_ALLOC, Some False, None) \<and>
             growth_refused E (length (fst z)) (trace w) (trace w') \<or>
           (if g (publication_handle (snd z)) = None then \<exists>filled. r = (RMW_RET_ERROR, Some False, Some filled)
            else \<exists>filled. r = (RMW_RET_OK, Some True, Some filled) \<and> tells E g (snd z) filled \<and>
              holds_bytes (fst z) m'))"
proof -
  have valid: "validate_subscription s w = Some RMW_RET_OK" and
    at: "\<exists>h. subscription_at s w = Some h \<and> handle_data h = p" "subscription_impl_at p w = Some i"
    using live_subscriptionD [OF assms(1)]
    by (auto simp: validate_subscription_def subscription_at_def subscription_impl_at_def)
  obtain w1 where w1: "heap w1 = heap w" "next_ptr w \<le> next_ptr w1" "pending E (sub_reader i) (tl zs) (trace w1)"
      "since (trace w) (trace w1)"
    and r: "case zs of
       [] \<Rightarrow> take_visible_sample E i w = Some ((DDS_RETCODE_NO_DATA, no_sample), w1) \<and> entities w1 = entities w
     | z # _ \<Rightarrow> \<exists>s. take_visible_sample E i w = Some ((DDS_RETCODE_OK, s), w1) \<and> (loan_data s, info s) = z \<and>
         entities w1 = add_mset (RawSampleLoan, loan s) (entities w)"
    using take_one_pending [OF assms(4,2)] unfolding take_visible_all [OF assms(3), symmetric] by blast
  have same: "(heap w)(m \<mapsto> SerializedMessage m0) = heap w" using assms(6) by (simp add: fun_upd_idem)
  show ?thesis
  proof (cases zs)
    case Nil
    with r w1 valid at assms(7) same show ?thesis
      by (intro exI [of _ w1] exI [of _ "(RMW_RET_OK, Some False, None)"] exI [of _ m0])
        (auto simp: rmw_take_serialized_message_with_info_def)
  next
    case (Cons z rest)
    with r obtain x where x: "take_visible_sample E i w = Some ((DDS_RETCODE_OK, x), w1)" "(loan_data x, info x) = z"
      and e1: "entities w1 = add_mset (RawSampleLoan, loan x) (entities w)"
      by auto
    have z: "loan_data x = fst z" "info x = snd z" using x(2) by auto
    have m1: "serialized_at m w1 = Some m0" using w1(1) assms(6) by (simp add: serialized_at_def)
    have give: "return_raw_loan E x u = Some (DDS_RETCODE_OK, record_call (Delete RawSampleLoan (loan x)) u
        \<lparr>entities := entities w\<rparr>)" if "entities u = entities w1" for u
      using that e1 assms(2) by (simp add: return_raw_loan_def delete_def call_dds_def deletes_succeed_def)
    have p1: "pending E (sub_reader i) rest (trace w1)" using w1(3) Cons by simp
    show ?thesis
    proof (cases "valid_data (snd z)")
      case False
      let ?w' = "record_call (Delete RawSampleLoan (loan x)) w1\<lparr>entities := entities w\<rparr>"
      have "make_room E m x w1 = Some (RMW_RET_OK, w1)" using False m1 z by (simp add: make_room_def)
      then have "rmw_take_serialized_message_with_info E s m True True w = Some ((RMW_RET_OK, Some False, None), ?w')"
        using False x(1) z valid at assms(7) give [of w1] e1
        by (auto simp: rmw_take_serialized_message_with_info_def)
      then show ?thesis
        using False Cons w1(1,2,4) p1 same
        by (intro exI [of _ ?w'] exI [of _ "(RMW_RET_OK, Some False, None)"] exI [of _ m0])
          (simp add: pending_other since_Cons)
    next
      case True
      consider (refused) ret where "ret \<noteq> RMW_RET_OK"
          "rmw_code E (trace w1) (ResizeArray (length (fst z))) = ret"
          "make_room E m x w1 = Some (ret, record_call (ResizeArray (length (fst z))) w1)"
        | (filled) w2 m' where "make_room E m x w1 = Some (RMW_RET_OK, w2)"
          "fill_buffer m (fst z) w2 = Some (store m (SerializedMessage m') w2)" "holds_bytes (fst z) m'"
          "heap (store m (SerializedMessage m') w2) = (heap w1)(m \<mapsto> SerializedMessage m')"
          "next_ptr w2 = next_ptr w1" "entities w2 = entities w1"
          "trace w2 = trace w1 \<or> trace w2 = ResizeArray (length (fst z)) # trace w1"
        using make_room_fill [OF m1, of x E] True z by auto
      then show ?thesis
      proof cases
        case refused
        define w2 where "w2 = record_call (Delete RawSampleLoan (loan x))
          (record_call (ResizeArray (length (fst z))) w1)\<lparr>entities := entities w\<rparr>"
        have "return_raw_loan E x (record_call (ResizeArray (length (fst z))) w1) = Some (DDS_RETCODE_OK, w2)"
          using give [of "record_call (ResizeArray (length (fst z))) w1"] by (simp add: w2_def)
        then have "rmw_take_serialized_message_with_info E s m True True w =
            Some ((RMW_RET_BAD_ALLOC, Some False, None), w2)"
          using x(1) valid at assms(7) refused by (auto simp: rmw_take_serialized_message_with_info_def)
        moreover have "growth_refused E (length (fst z)) (trace w1) (trace w2)"
          using refused(1,2) by (simp add: w2_def growth_refused_Cons growth_refused_now)
        then have "growth_refused E (length (fst z)) (trace w) (trace w2)"
          by (rule growth_refused_before [OF w1(4)])
        ultimately show ?thesis
          using True Cons w1 p1 same
          by (intro exI [of _ w2] exI [of _ "(RMW_RET_BAD_ALLOC, Some False, None)"] exI [of _ m0])
            (simp add: w2_def pending_other since_Cons)
      next
        case filled
        define w3 where "w3 = store m (SerializedMessage m') w2"
        define w4 where "w4 = record_call (PublicationGuid (sub_reader i) (publication_handle (snd z)))
          (record_call SystemTimeNow w3)"
        define w5 where "w5 = record_call (Delete RawSampleLoan (loan x)) w4\<lparr>entities := entities w\<rparr>"
        obtain mi where f: "fill_message_info E (sub_reader i) (snd z) w3 =
              ((g (publication_handle (snd z)) \<noteq> None, mi), w4)"
            "g (publication_handle (snd z)) \<noteq> None \<longrightarrow> tells E g (snd z) mi"
          using fill_message_info_known [OF assms(5)] unfolding w4_def by blast
        have "pending E (sub_reader i) rest (trace w2)" "since (trace w) (trace w2)"
          using filled(7) p1 w1(4) by (auto simp: pending_other since_Cons)
        then have t5: "pending E (sub_reader i) rest (trace w5)" "since (trace w) (trace w5)"
          by (simp_all add: w5_def w4_def w3_def pending_other since_Cons)
        have "return_raw_loan E x w4 = Some (DDS_RETCODE_OK, w5)"
          using give [of w4] filled(6) by (simp add: w5_def w4_def w3_def)
        then have run: "rmw_take_serialized_message_with_info E s m True True w =
            Some (if g (publication_handle (snd z)) = None then (RMW_RET_ERROR, Some False, Some mi)
              else (RMW_RET_OK, Some True, Some mi), w5)"
          using True x z valid at assms(7) filled(1,2) f(1)
          by (auto simp: rmw_take_serialized_message_with_info_def w3_def)
        have "heap w5 = (heap w)(m \<mapsto> SerializedMessage m')" "entities w5 = entities w" "next_ptr w \<le> next_ptr w5"
          using filled(4,5) w1(1,2) by (simp_all add: w5_def w4_def w3_def)
        with run t5 f(2) filled(3) True Cons show ?thesis
          by (intro exI [of _ w5] exI [of _ "if g (publication_handle (snd z)) = None
              then (RMW_RET_ERROR, Some False, Some mi) else (RMW_RET_OK, Some True, Some mi)"] exI [of _ m']) auto
      qed
    qed
  qed
qed

lemma wf_world_keeps:
  assumes "wf_world w" "next_ptr w \<le> next_ptr w'" "\<forall>q. heap w q = None \<longrightarrow> heap w' q = None"
  shows "wf_world w'"
  using assms by (auto simp: wf_world_def)

text \<open>
  A message that is accepted is decoded, unless its payload is too short or not one of its type. In the
  latter case the decoder may have changed the caller's message.
\<close>

lemma accept_message_eq:
  assumes "wf_world w" "heap w ros = Some (RosMessage v)" "ros \<noteq> nullptr" "complete_callbacks cb" "decodes E cb D"
    and "request_header_size < length bytes"
  shows "\<exists>filled w'. service_request_id filled = \<lparr>writer_guid = take dds_guid_size bytes,
      sequence_number = decode_sequence (drop dds_guid_size bytes)\<rparr> \<and>
    service_source_timestamp filled = source_timestamp mi \<and>
    next_ptr w \<le> next_ptr w' \<and> entities w' = entities w \<and> trace w' = trace w \<and>
    (if length bytes < request_header_size + 4
     then accept_message E cb mi bytes ros w = Some ((RMW_RET_INVALID_ARGUMENT, Some False, Some filled), w') \<and>
       heap w' = heap w
     else \<exists>v'. heap w' = (heap w)(ros \<mapsto> RosMessage v') \<and>
       (case D (drop request_header_size bytes) of
          None \<Rightarrow> accept_message E cb mi bytes ros w = Some ((RMW_RET_ERROR, Some False, Some filled), w')
        | Some x \<Rightarrow> accept_message E cb mi bytes ros w = Some ((RMW_RET_OK, Some True, Some filled), w') \<and> v' = x))"
proof -
  let ?filled = "\<lparr>service_source_timestamp = source_timestamp mi, service_received_timestamp = received_timestamp mi,
      service_request_id = \<lparr>writer_guid = take dds_guid_size bytes,
        sequence_number = decode_sequence (drop dds_guid_size bytes)\<rparr>\<rparr>"
  let ?p = "next_ptr w" and ?d = "drop request_header_size bytes"
  let ?m = "\<lparr>buffer = ?d, buffer_length = length bytes - request_header_size, buffer_null = False, allocator_valid = True\<rparr>"
  define w1 where "w1 = w\<lparr>next_ptr := ?p + 1, heap := (heap w)(?p \<mapsto> SerializedMessage ?m)\<rparr>"
  have p: "?p \<noteq> nullptr" "heap w ?p = None" "?p \<noteq> ros" using wf_worldD(2,4) [OF assms(1)] assms(2) by auto
  have forget: "(heap w)(?p := None) = heap w" using p(2) by (simp add: fun_upd_idem)
  have w1: "serialized_at ?p w1 = Some ?m" "heap w1 ros = Some (RosMessage v)" "valid_serialized_message ?m"
    using p assms(2) by (auto simp: w1_def serialized_at_def valid_serialized_message_def buffer_capacity_def)
  show ?thesis
  proof (cases "length bytes < request_header_size + 4")
    case True
    then have "rmw_deserialize E ?p (Some (message_handle cb)) ros w1 = Some (RMW_RET_INVALID_ARGUMENT, w1)"
      using w1 p(1) assms(3) by (simp add: rmw_deserialize_def) linarith
    with True p show ?thesis
      by (intro exI [of _ ?filled] exI [of _ "w1\<lparr>heap := heap w\<rparr>"])
        (simp add: accept_message_def Let_def w1_def [symmetric] deallocate_def, simp add: w1_def fun_upd_idem)
  next
    case False
    obtain v' where v': "read_message E cb ?d ros w1 = Some (D ?d \<noteq> None, store ros (RosMessage v') w1)"
        "\<forall>x. D ?d = Some x \<longrightarrow> v' = x"
      using decodes_read [OF assms(5) w1(2)] by blast
    let ?w2 = "store ros (RosMessage v') w1"
    have "take (buffer_length ?m) (buffer ?m) = ?d" "\<not> length bytes - request_header_size < 4"
      using False by (simp, linarith)
    then have "rmw_deserialize E ?p (Some (message_handle cb)) ros w1 =
        Some (if D ?d = None then RMW_RET_ERROR else RMW_RET_OK, ?w2)"
      using w1 p(1) assms(3) False v'(1)
      by (simp add: rmw_deserialize_def resolve_message_handle [OF assms(4)])
    moreover define w3 where "w3 = ?w2\<lparr>heap := (heap w)(ros \<mapsto> RosMessage v')\<rparr>"
    have "heap ?w2 ?p = Some (SerializedMessage ?m)" using p(3) by (simp add: w1_def)
    moreover have "?w2\<lparr>heap := (heap ?w2)(?p := None)\<rparr> = w3"
      using p(2,3) by (intro world.equality) (auto simp: w3_def w1_def fun_eq_iff)
    ultimately have run: "accept_message E cb mi bytes ros w =
        Some (if D ?d = None then (RMW_RET_ERROR, Some False, Some ?filled) else (RMW_RET_OK, Some True, Some ?filled), w3)"
      unfolding accept_message_def Let_def w1_def [symmetric] by (simp add: deallocate_def)
    have w3: "next_ptr w \<le> next_ptr w3" "entities w3 = entities w" "trace w3 = trace w"
        "heap w3 = (heap w)(ros \<mapsto> RosMessage v')"
      by (simp_all add: w3_def w1_def)
    show ?thesis
      using run w3 False v'(2)
      by (intro exI [of _ ?filled] exI [of _ w3]) (cases "D ?d", auto)
  qed
qed

text \<open>A reply that is well formed, by a known publisher, but carries another client's GUID.\<close>

definition for_others ::
  "(instance_handle \<Rightarrow> guid option) \<Rightarrow> uint8 list option \<Rightarrow> uint8 list \<times> sample_info \<Rightarrow> bool" where
  "for_others g expected z \<longleftrightarrow> valid_data (snd z) \<and> g (publication_handle (snd z)) \<noteq> None \<and>
     request_header_size < length (fst z) \<and> (\<exists>x. expected = Some x \<and> x \<noteq> take dds_guid_size (fst z))"

text \<open>
  What taking one service message makes of a sample that fits the buffer, and how it leaves the memory.
\<close>

definition accepted ::
  "(instance_handle \<Rightarrow> guid option) \<Rightarrow> (uint8 list \<Rightarrow> ros_value option) \<Rightarrow> ptr \<Rightarrow> uint8 list \<times> sample_info \<Rightarrow>
   (ptr \<Rightarrow> object option) \<Rightarrow> rmw_ret \<times> bool option \<times> service_info option \<Rightarrow> (ptr \<Rightarrow> object option) \<Rightarrow> bool" where
  "accepted g D ros z h r h' \<longleftrightarrow>
     (if \<not> valid_data (snd z) then r = (RMW_RET_OK, Some False, None) \<and> h' = h
      else if g (publication_handle (snd z)) = None \<or> length (fst z) \<le> request_header_size
      then r = (RMW_RET_ERROR, Some False, None) \<and> h' = h
      else \<exists>filled. service_request_id filled = \<lparr>writer_guid = take dds_guid_size (fst z),
          sequence_number = decode_sequence (drop dds_guid_size (fst z))\<rparr> \<and>
        service_source_timestamp filled = sample_time (snd z) \<and>
        (if length (fst z) < request_header_size + 4
         then r = (RMW_RET_INVALID_ARGUMENT, Some False, Some filled) \<and> h' = h
         else \<exists>v. h' = h(ros \<mapsto> RosMessage v) \<and>
           (case D (drop request_header_size (fst z)) of
              None \<Rightarrow> r = (RMW_RET_ERROR, Some False, Some filled)
            | Some x \<Rightarrow> r = (RMW_RET_OK, Some True, Some filled) \<and> v = x)))"

text \<open>
  The outcome of the loop over the samples of the reader, between the traces \<open>t\<close> and \<open>t'\<close>: the first one
  that is not for another client decides it, unless the buffer could not grow for one before.
\<close>

fun service_outcome ::
  "env \<Rightarrow> ptr \<Rightarrow> (instance_handle \<Rightarrow> guid option) \<Rightarrow> uint8 list option \<Rightarrow> (uint8 list \<Rightarrow> ros_value option) \<Rightarrow>
   ptr \<Rightarrow> (uint8 list \<times> sample_info) list \<Rightarrow> (ptr \<Rightarrow> object option) \<Rightarrow> call list \<Rightarrow>
   rmw_ret \<times> bool option \<times> service_info option \<Rightarrow> (ptr \<Rightarrow> object option) \<Rightarrow> call list \<Rightarrow> bool" where
  "service_outcome E reader g expected D ros [] h t r h' t' \<longleftrightarrow> r = (RMW_RET_OK, Some False, None) \<and> h' = h"
| "service_outcome E reader g expected D ros (z # rest) h t r h' t' \<longleftrightarrow>
     valid_data (snd z) \<and> growth_refused E (length (fst z)) t t' \<and>
       r = (RMW_RET_BAD_ALLOC, Some False, None) \<and> h' = h \<and> pending E reader rest t' \<or>
     (if for_others g expected z then service_outcome E reader g expected D ros rest h t r h' t'
      else accepted g D ros z h r h' \<and> pending E reader rest t')"

text \<open>What the round of the loop makes of a sample, up to the comparison of the GUID.\<close>

definition wire_says ::
  "env \<Rightarrow> (instance_handle \<Rightarrow> guid option) \<Rightarrow> call list \<Rightarrow> call list \<Rightarrow> uint8 list \<times> sample_info \<Rightarrow>
   (rmw_ret \<times> bool option \<times> service_info option) + (message_info \<times> uint8 list) \<Rightarrow> bool" where
  "wire_says E g t t' z r \<longleftrightarrow>
     valid_data (snd z) \<and> r = Inl (RMW_RET_BAD_ALLOC, Some False, None) \<and> growth_refused E (length (fst z)) t t' \<or>
     (if \<not> valid_data (snd z) then r = Inl (RMW_RET_OK, Some False, None)
      else if g (publication_handle (snd z)) = None \<or> length (fst z) \<le> request_header_size
      then r = Inl (RMW_RET_ERROR, Some False, None)
      else \<exists>mi. r = Inr (mi, fst z) \<and> source_timestamp mi = sample_time (snd z))"

lemma take_wire_pending:
  assumes "live_subscription s p i (heap w)" "deletes_succeed E" "\<not> ignore_local_publications i"
    and "pending E (sub_reader i) zs (trace w)" "publications E (sub_reader i) g"
    and "heap w m = Some (SerializedMessage m0)" "m \<noteq> nullptr"
  shows "\<exists>w' m' r. next_ptr w \<le> next_ptr w' \<and> entities w' = entities w \<and> pending E (sub_reader i) (tl zs) (trace w') \<and>
    since (trace w) (trace w') \<and>
    heap w' = (heap w)(m \<mapsto> SerializedMessage m') \<and> take_wire E s m w = Some (r, w') \<and>
    (case zs of
       [] \<Rightarrow> r = Inl (RMW_RET_OK, Some False, None)
     | z # _ \<Rightarrow> wire_says E g (trace w) (trace w') z r)"
proof -
  let ?m1 = "m0\<lparr>buffer_length := 0\<rparr>"
  define w1 where "w1 = store m (SerializedMessage ?m1) w"
  have live: "live_subscription s p i (heap w1)"
    using live_subscription_update [OF assms(1,6)] by (simp add: w1_def)
  have w1: "heap w1 m = Some (SerializedMessage ?m1)" "trace w1 = trace w" "next_ptr w1 = next_ptr w"
    "entities w1 = entities w" "heap w1 = (heap w)(m \<mapsto> SerializedMessage ?m1)"
    by (simp_all add: w1_def)
  have start: "take_wire E s m w = (do {
     ((result, taken, message_info), w) \<leftarrow> rmw_take_serialized_message_with_info E s m True True w1;
     case message_info of
       None \<Rightarrow> Some (Inl (result, taken, None), w)
     | Some i \<Rightarrow>
         if result \<noteq> RMW_RET_OK \<or> taken \<noteq> Some True then Some (Inl (result, taken, None), w)
         else do {
           m \<leftarrow> serialized_at m w;
           if buffer_length m \<le> request_header_size then Some (Inl (RMW_RET_ERROR, Some False, None), w)
           else do {
             bytes \<leftarrow> message_bytes m;
             Some (Inr (i, bytes), w) } } })"
    using assms(6) by (simp add: take_wire_def serialized_at_def w1_def)
  obtain w' m' q where w': "next_ptr w1 \<le> next_ptr w'" "entities w' = entities w1" "pending E (sub_reader i) (tl zs) (trace w')"
      "since (trace w1) (trace w')" "heap w' = (heap w1)(m \<mapsto> SerializedMessage m')"
      "rmw_take_serialized_message_with_info E s m True True w1 = Some (q, w')"
    and q: "case zs of
       [] \<Rightarrow> q = (RMW_RET_OK, Some False, None)
     | z # _ \<Rightarrow>
         if \<not> valid_data (snd z) then q = (RMW_RET_OK, Some False, None)
         else q = (RMW_RET_BAD_ALLOC, Some False, None) \<and>
             growth_refused E (length (fst z)) (trace w1) (trace w') \<or>
           (if g (publication_handle (snd z)) = None then \<exists>filled. q = (RMW_RET_ERROR, Some False, Some filled)
            else \<exists>filled. q = (RMW_RET_OK, Some True, Some filled) \<and> tells E g (snd z) filled \<and>
              holds_bytes (fst z) m')"
    using take_serialized_pending [OF live assms(2,3) _ assms(5) w1(1) assms(7), of zs] assms(4) w1(2) by auto
  have at: "serialized_at m w' = Some m'" using w'(5) by (simp add: serialized_at_def)
  have "\<exists>r. take_wire E s m w = Some (r, w') \<and>
    (case zs of [] \<Rightarrow> r = Inl (RMW_RET_OK, Some False, None) | z # _ \<Rightarrow> wire_says E g (trace w) (trace w') z r)"
  proof (cases zs)
    case Nil
    with q w'(6) start show ?thesis by simp
  next
    case (Cons z rest)
    consider "\<not> valid_data (snd z)" "q = (RMW_RET_OK, Some False, None)"
      | "valid_data (snd z)" "q = (RMW_RET_BAD_ALLOC, Some False, None)"
        "growth_refused E (length (fst z)) (trace w) (trace w')"
      | filled where "valid_data (snd z)" "g (publication_handle (snd z)) = None"
        "q = (RMW_RET_ERROR, Some False, Some filled)"
      | filled where "valid_data (snd z)" "g (publication_handle (snd z)) \<noteq> None"
        "q = (RMW_RET_OK, Some True, Some filled)" "tells E g (snd z) filled" "holds_bytes (fst z) m'"
      using q Cons w1(2) by (auto split: if_splits)
    then show ?thesis
      using start w'(6) at Cons
      by cases (auto simp: wire_says_def holds_bytes_def tells_def)
  qed
  then obtain r where "take_wire E s m w = Some (r, w')"
    "case zs of [] \<Rightarrow> r = Inl (RMW_RET_OK, Some False, None) | z # _ \<Rightarrow> wire_says E g (trace w) (trace w') z r" by blast
  moreover have "heap w' = (heap w)(m \<mapsto> SerializedMessage m')" using w'(5) w1(5) by simp
  ultimately show ?thesis
    using w' w1(2-4) by (intro exI [of _ w'] exI [of _ m'] exI [of _ r]) simp
qed

end
