(* ===== verification/Service_Taking.thy ===== *)
theory Service_Taking
  imports Service_Props
begin

text \<open>
  The loop in which a client or service takes a message, over every sample of its reader: replies to
  other clients are dropped, and the first other message decides the result.
\<close>

section \<open>The loop\<close>

lemma take_service_loop_step:
  "take_service_loop E s cb wire ros expected w = do {
     (r, w) \<leftarrow> take_wire E s wire w;
     case r of
       Inl left \<Rightarrow> Some (left, w)
     | Inr message \<Rightarrow>
         if expected \<noteq> None \<and> expected \<noteq> Some (take dds_guid_size (snd message))
         then take_service_loop E s cb wire ros expected w
         else accept_message E cb (fst message) (snd message) ros w }"
  by (subst take_service_loop.simps) (rule refl)

lemma take_service_loop_outcome:
  assumes "deletes_succeed E" "\<not> ignore_local_publications i"
    and "publications E (sub_reader i) g" "complete_callbacks cb" "decodes E cb D"
    and "wire \<noteq> nullptr" "ros \<noteq> nullptr" "ros \<noteq> wire" "h ros = Some (RosMessage v)"
  shows "wf_world w \<Longrightarrow> heap w = h(wire \<mapsto> SerializedMessage m0) \<Longrightarrow> live_subscription s p i (heap w) \<Longrightarrow>
    pending E (sub_reader i) zs (trace w) \<Longrightarrow> since t (trace w) \<Longrightarrow>
    \<exists>r w' m' h'. take_service_loop E s cb wire ros expected w = Some (r, w') \<and> entities w' = entities w \<and>
      heap w' = h'(wire \<mapsto> SerializedMessage m') \<and> next_ptr w \<le> next_ptr w' \<and> h' wire = h wire \<and>
      service_outcome E (sub_reader i) g expected D ros zs h t r h' (trace w')"
proof (induction zs arbitrary: w m0)
  case Nil
  obtain w' m' r where w': "next_ptr w \<le> next_ptr w'" "entities w' = entities w"
      "heap w' = (heap w)(wire \<mapsto> SerializedMessage m')" "take_wire E s wire w = Some (r, w')"
      "r = Inl (RMW_RET_OK, Some False, None)"
    using take_wire_pending [OF Nil(3) assms(1,2) Nil(4) assms(3) _ assms(6)] Nil(2) by auto
  moreover have "heap w' = h(wire \<mapsto> SerializedMessage m')" using w'(3) Nil(2) by (simp only: fun_upd_upd)
  ultimately show ?case
    by (intro exI [of _ "(RMW_RET_OK, Some False, None)"] exI [of _ w'] exI [of _ m'] exI [of _ h])
      (subst take_service_loop_step, simp)
next
  case (Cons z zs)
  obtain w1 m' r where w1: "next_ptr w \<le> next_ptr w1" "entities w1 = entities w"
      "heap w1 = (heap w)(wire \<mapsto> SerializedMessage m')" "take_wire E s wire w = Some (r, w1)"
      "pending E (sub_reader i) zs (trace w1)" "since (trace w) (trace w1)"
    and r: "wire_says E g (trace w) (trace w1) z r"
    using take_wire_pending [OF Cons.prems(3) assms(1,2) Cons.prems(4) assms(3) _ assms(6)] Cons.prems(2)
    by fastforce
  have h1: "heap w1 = h(wire \<mapsto> SerializedMessage m')" using w1(3) Cons.prems(2) by (simp only: fun_upd_upd)
  have wf: "wf_world w1" by (rule wf_world_keeps [OF Cons.prems(1) w1(1)]) (simp add: w1(3) Cons.prems(2))
  have t1: "since t (trace w1)" by (rule since_trans [OF Cons.prems(5) w1(6)])
  have leave: ?case
    if "r = Inl left" "service_outcome E (sub_reader i) g expected D ros (z # zs) h t left h (trace w1)" for left
  proof -
    have "take_service_loop E s cb wire ros expected w = Some (left, w1)"
      using that(1) by (subst take_service_loop_step) (simp add: w1(4))
    with that(2) w1(1,2) h1 show ?thesis by blast
  qed
  consider (refused) "valid_data (snd z)" "r = Inl (RMW_RET_BAD_ALLOC, Some False, None)"
      "growth_refused E (length (fst z)) (trace w) (trace w1)"
    | (empty) "\<not> valid_data (snd z)" "r = Inl (RMW_RET_OK, Some False, None)"
    | (malformed) "valid_data (snd z)" "g (publication_handle (snd z)) = None \<or> length (fst z) \<le> request_header_size"
      "r = Inl (RMW_RET_ERROR, Some False, None)"
    | (message) mi where "valid_data (snd z)" "g (publication_handle (snd z)) \<noteq> None"
      "request_header_size < length (fst z)" "r = Inr (mi, fst z)" "source_timestamp mi = sample_time (snd z)"
    using r by (auto simp: wire_says_def not_le split: if_splits)
  then show ?case
  proof cases
    case refused
    with growth_refused_before [OF Cons.prems(5) refused(3)] w1(5) show ?thesis
      by (intro leave [OF refused(2)]) simp
  next
    case empty
    with w1(5) show ?thesis
      by (intro leave [OF empty(2)]) (simp add: accepted_def for_others_def)
  next
    case malformed
    then have "\<not> for_others g expected z" by (auto simp: for_others_def)
    with malformed w1(5) show ?thesis
      by (intro leave [OF malformed(3)]) (simp add: accepted_def)
  next
    case message
    show ?thesis
    proof (cases "for_others g expected z")
      case others: True
      have live: "live_subscription s p i (heap w1)"
        using live_subscription_update [OF Cons.prems(3), of wire] Cons.prems(2) by (simp add: w1(3))
      have "take_service_loop E s cb wire ros expected w = take_service_loop E s cb wire ros expected w1"
        using others by (subst take_service_loop_step) (auto simp: w1(4) message(4) for_others_def)
      moreover have "service_outcome E (sub_reader i) g expected D ros zs h t r' h' t' \<Longrightarrow>
          service_outcome E (sub_reader i) g expected D ros (z # zs) h t r' h' t'" for r' h' t'
        using others by simp
      moreover obtain r' w' m'' h' where IH: "take_service_loop E s cb wire ros expected w1 = Some (r', w')"
          "entities w' = entities w1" "heap w' = h'(wire \<mapsto> SerializedMessage m'')" "next_ptr w1 \<le> next_ptr w'"
          "h' wire = h wire" "service_outcome E (sub_reader i) g expected D ros zs h t r' h' (trace w')"
        using Cons.IH [OF wf h1 live w1(5) t1] by blast
      ultimately show ?thesis
        using w1(1,2) by (intro exI [of _ r'] exI [of _ w'] exI [of _ m''] exI [of _ h']) simp
    next
      case False
      have start: "take_service_loop E s cb wire ros expected w = accept_message E cb mi (fst z) ros w1"
        using False message by (subst take_service_loop_step) (auto simp: w1(4) for_others_def)
      have ros: "heap w1 ros = Some (RosMessage v)" using assms(8,9) h1 by simp
      let ?d = "drop request_header_size (fst z)"
      obtain filled w2 where f: "service_request_id filled = \<lparr>writer_guid = take dds_guid_size (fst z),
          sequence_number = decode_sequence (drop dds_guid_size (fst z))\<rparr>"
          "service_source_timestamp filled = sample_time (snd z)"
          "next_ptr w1 \<le> next_ptr w2" "entities w2 = entities w1" "trace w2 = trace w1"
        and a: "if length (fst z) < request_header_size + 4
          then accept_message E cb mi (fst z) ros w1 = Some ((RMW_RET_INVALID_ARGUMENT, Some False, Some filled), w2) \<and>
            heap w2 = heap w1
          else \<exists>v'. heap w2 = (heap w1)(ros \<mapsto> RosMessage v') \<and>
            (case D ?d of
               None \<Rightarrow> accept_message E cb mi (fst z) ros w1 = Some ((RMW_RET_ERROR, Some False, Some filled), w2)
             | Some x \<Rightarrow> accept_message E cb mi (fst z) ros w1 = Some ((RMW_RET_OK, Some True, Some filled), w2) \<and> v' = x)"
        using accept_message_eq [OF wf ros assms(7,4,5) message(3), of mi] message(5) by metis
      have "\<exists>out h'. accept_message E cb mi (fst z) ros w1 = Some (out, w2) \<and>
          heap w2 = h'(wire \<mapsto> SerializedMessage m') \<and> h' wire = h wire \<and> accepted g D ros z h out h'"
      proof (cases "length (fst z) < request_header_size + 4")
        case True
        with a f(1,2) h1 message(1-3) show ?thesis
          by (intro exI [of _ "(RMW_RET_INVALID_ARGUMENT, Some False, Some filled)"] exI [of _ h])
            (auto simp: accepted_def)
      next
        case long: False
        then obtain v' where v': "heap w2 = (heap w1)(ros \<mapsto> RosMessage v')"
          "case D ?d of
             None \<Rightarrow> accept_message E cb mi (fst z) ros w1 = Some ((RMW_RET_ERROR, Some False, Some filled), w2)
           | Some x \<Rightarrow> accept_message E cb mi (fst z) ros w1 = Some ((RMW_RET_OK, Some True, Some filled), w2) \<and> v' = x"
          using a by auto
        have "heap w2 = (h(ros \<mapsto> RosMessage v'))(wire \<mapsto> SerializedMessage m')"
          using v'(1) h1 assms(8) by (simp add: fun_upd_twist)
        moreover have "accepted g D ros z h
            (if D ?d = None then (RMW_RET_ERROR, Some False, Some filled) else (RMW_RET_OK, Some True, Some filled))
            (h(ros \<mapsto> RosMessage v'))"
          using f(1,2) message(1-3) long v'(2) by (cases "D ?d") (auto simp: accepted_def)
        ultimately show ?thesis
          using v'(2) assms(8)
          by (intro exI [of _ "if D ?d = None then (RMW_RET_ERROR, Some False, Some filled)
              else (RMW_RET_OK, Some True, Some filled)"] exI [of _ "h(ros \<mapsto> RosMessage v')"])
            (cases "D ?d", auto)
      qed
      then obtain out h' where acc: "accept_message E cb mi (fst z) ros w1 = Some (out, w2)"
          "heap w2 = h'(wire \<mapsto> SerializedMessage m')" "h' wire = h wire" "accepted g D ros z h out h'" by blast
      then have "service_outcome E (sub_reader i) g expected D ros (z # zs) h t out h' (trace w2)"
        using False w1(5) f(5) by simp
      with acc start w1(1,2) f(3,4) show ?thesis
        by (intro exI [of _ out] exI [of _ w2] exI [of _ m'] exI [of _ h']) simp
    qed
  qed
qed

section \<open>Taking a message\<close>

text \<open>
  C35. Taking a service message is decided by the first sample that is not a well-formed reply to
  another client: replies to other clients are dropped, however many there are, a message that is too
  short, without data or from an unknown publisher is reported as such, and any other one is decoded
  into the caller's message with the GUID and sequence number it carries, or reported as an error if its
  payload cannot be decoded. Only a refused growth of the wire buffer can end the loop before that
  sample, and then the call runs out of memory. The wire buffer and every loaned sample are given back,
  nothing else in memory changes, and the samples after the deciding one stay in the reader. The loop
  ends because the reader holds finitely many samples.
\<close>

theorem service_takes_own_message:
  assumes "live_subscription s p i (heap w)" "wf_world w" "\<not> ignore_local_publications i"
    and "deletes_succeed E" "publications E (sub_reader i) g" "pending E (sub_reader i) zs (trace w)"
    and "complete_callbacks cb" "decodes E cb D" "heap w ros = Some (RosMessage v)"
  shows "post (take_service_message E s cb ros expected w) (\<lambda>(r, w'). entities w' = entities w \<and>
    (if rmw_code E (trace w) (InitArray 0) \<noteq> RMW_RET_OK
     then r = (rmw_code E (trace w) (InitArray 0), None, None) \<and> heap w' = heap w
     else service_outcome E (sub_reader i) g expected D ros zs (heap w) (trace w) r (heap w') (trace w')))"
proof (cases "rmw_code E (trace w) (InitArray 0) = RMW_RET_OK")
  case False
  then show ?thesis
    by (simp add: take_service_message_def init_message_def call_rmw_def Let_def)
next
  case True
  let ?wire = "next_ptr w" and ?m = "\<lparr>buffer = [], buffer_length = 0, buffer_null = True, allocator_valid = True\<rparr>"
  define w1 where "w1 = record_call (InitArray 0) w\<lparr>next_ptr := ?wire + 1, heap := (heap w)(?wire \<mapsto> SerializedMessage ?m)\<rparr>"
  have init: "init_message E 0 w = ((RMW_RET_OK, ?wire), w1)"
    using True by (simp add: init_message_def call_rmw_def w1_def Let_def)
  have fresh: "?wire \<noteq> nullptr" "ros \<noteq> nullptr" "ros \<noteq> ?wire" "heap w ?wire = None"
    using wf_worldD [OF assms(2)] assms(9) by auto
  have w1: "heap w1 = (heap w)(?wire \<mapsto> SerializedMessage ?m)" "entities w1 = entities w" "trace w1 = InitArray 0 # trace w"
    by (simp_all add: w1_def)
  have "wf_world w1" using assms(2) by (auto simp: wf_world_def w1_def)
  moreover have "live_subscription s p i (heap w1)"
    using assms(1) fresh(4) unfolding w1(1) live_subscription_def by auto
  moreover have "pending E (sub_reader i) zs (trace w1)" using assms(6) by (simp add: w1(3) pending_other)
  moreover have "since (trace w) (trace w1)" by (simp add: w1(3) since_Cons)
  ultimately obtain r w' m' h' where loop: "take_service_loop E s cb ?wire ros expected w1 = Some (r, w')"
      "entities w' = entities w1" "heap w' = h'(?wire \<mapsto> SerializedMessage m')" "h' ?wire = heap w ?wire"
      "service_outcome E (sub_reader i) g expected D ros zs (heap w) (trace w) r h' (trace w')"
    using take_service_loop_outcome [OF assms(4,3,5,7,8) fresh(1-3) assms(9) _ w1(1)] by blast
  have "take_service_message E s cb ros expected w = Some (r, w'\<lparr>heap := h'\<rparr>)"
    using loop(1,3,4) fresh(4) by (simp add: take_service_message_def init deallocate_def fun_upd_idem)
  then show ?thesis using loop(2,5) w1(2) True by simp
qed

text \<open>A reader with a reply to another client, an own reply and one that is cut short.\<close>

definition reply :: "uint8 \<Rightarrow> int64 \<Rightarrow> uint8 list \<Rightarrow> uint8 list \<times> sample_info" where
  "reply x n payload = (wire_bytes \<lparr>writer_guid = replicate 16 x, sequence_number = n\<rparr> payload, byte_info 2)"

definition replies :: "(uint8 list \<times> sample_info) list" where
  "replies = [reply 1 8 [0, 1, 0, 0, 5], reply 2 4 [0, 1, 0, 0, 6], reply 2 5 [0, 1, 0, 0]]"

definition reply_subscription :: subscription_impl where
  "reply_subscription = example_subscription\<lparr>ignore_local_publications := False\<rparr>"

definition reply_world :: world where
  "reply_world = local_world\<lparr>heap := (heap local_world)(11 \<mapsto> SubscriptionImpl reply_subscription)\<rparr>"

lemma reply_world_facts:
  "live_subscription 10 11 reply_subscription (heap reply_world)" "wf_world reply_world"
  "heap reply_world 13 = Some (RosMessage 0)" "trace reply_world = []" "sub_reader reply_subscription = 60"
  "\<not> ignore_local_publications reply_subscription"
  using subscription_world_live subscription_world_wf
  by (auto simp: live_subscription_def reply_world_def reply_subscription_def local_world_def wf_world_def
    subscription_world_def example_subscription_simps)

lemma queue_env_codes: "rmw_code (queue_env zs) t x = RMW_RET_OK"
  by (simp add: queue_env_def all_succeed_def)

lemma queue_env_grows: "\<not> growth_refused (queue_env zs) n t t'"
  by (simp add: growth_refused_def queue_env_codes)

lemma reply_for_others:
  "for_others (\<lambda>p. Some (replicate 16 (ucast p))) (Some (replicate 16 2)) (reply 1 8 [0, 1, 0, 0, 5])"
  "\<not> for_others (\<lambda>p. Some (replicate 16 (ucast p))) (Some (replicate 16 2)) (reply 2 4 [0, 1, 0, 0, 6])"
  by (simp_all add: for_others_def reply_def byte_info_def wire_bytes_def dds_guid_size_def request_header_size_def
    replicate_eq_replicate)

theorem service_takes_own_message_witness:
  "post (take_service_message (queue_env replies) 10 byte_callbacks 13 (Some (replicate 16 2)) reply_world)
     (\<lambda>((ret, taken, filled), w'). ret = RMW_RET_OK \<and> taken = Some True \<and>
        map_option (sequence_number \<circ> service_request_id) filled = Some 4 \<and> heap w' 13 = Some (RosMessage 6))"
proof -
  note r = service_takes_own_message [OF reply_world_facts(1,2,6) queue_env_deletes, unfolded reply_world_facts(4,5),
    OF queue_env_publications queue_env_pending complete_byte_callbacks byte_decodes [OF queue_env_readable]
      reply_world_facts(3), of replies "Some (replicate 16 2)"]
  show ?thesis
    by (rule post_mono [OF r])
      (auto simp: queue_env_codes queue_env_grows replies_def reply_for_others accepted_def,
       auto simp: reply_def byte_info_def byte_value_def wire_bytes_def dds_guid_size_def
        request_header_size_def decode_encode_sequence)
qed

end
