(* ===== verification/Node.thy ===== *)
theory Node
  imports Guard_Condition
begin

text \<open>
  \<^verbatim>\<open>rmw_node.cpp\<close>: creating a node (its four allocations, its registration with the context and in
  the graph) and destroying it, which is refused while the node owns an endpoint.
\<close>

section \<open>Creating a node\<close>

definition valid_name :: "env \<Rightarrow> string \<Rightarrow> world \<Rightarrow> bool \<times> world" where
  "valid_name E name w = call_ok E (ValidateNodeName name) w"

definition valid_namespace :: "env \<Rightarrow> string \<Rightarrow> world \<Rightarrow> bool \<times> world" where
  "valid_namespace E ns w = call_ok E (ValidateNamespace ns) w"

definition zero_node_handle :: node_handle where
  "zero_node_handle = \<lparr>node_identifier = NullIdentifier, node_data = nullptr, node_name = nullptr,
     node_namespace = nullptr, node_context = nullptr\<rparr>"

definition insert_node :: "ptr \<Rightarrow> context_impl \<Rightarrow> context_impl" where
  "insert_node p c = c\<lparr>nodes := insert p (nodes c)\<rparr>"

definition erase_node :: "ptr \<Rightarrow> context_impl \<Rightarrow> context_impl" where
  "erase_node p c = c\<lparr>nodes := nodes c - {p}\<rparr>"

text \<open>The releases both failing registrations end with.\<close>

definition release_node :: "ptr \<Rightarrow> ptr \<Rightarrow> ptr \<Rightarrow> ptr \<Rightarrow> world \<Rightarrow> world option" where
  "release_node namespace_copy name_copy node impl w = do {
     w \<leftarrow> deallocate namespace_copy w;
     w \<leftarrow> deallocate name_copy w;
     w \<leftarrow> deallocate_object node w;
     deallocate_object impl w }"

text \<open>
  The \<^verbatim>\<open>try\<close> block: the node is inserted into the context (which may throw), and unless graph
  updates are suppressed it is announced, which may fail or throw. A failure erases the node again,
  the handler of the exception does not.
\<close>

definition register_node ::
  "env \<Rightarrow> ptr \<Rightarrow> string \<Rightarrow> string \<Rightarrow> ptr \<Rightarrow> ptr \<Rightarrow> ptr \<Rightarrow> ptr \<Rightarrow> world \<Rightarrow> ptr result" where
  "register_node E ci name namespace impl node name_copy namespace_copy w =
     (let (inserted, w) = call_ok E GrowContainer w
      in if \<not> inserted
      then do { w \<leftarrow> release_node namespace_copy name_copy node impl w; Some (nullptr, w) }
      else do {
        w \<leftarrow> update_context (insert_node node) ci w;
        c \<leftarrow> context_impl_at ci w;
        if suppress_graph_updates c
        then do { w \<leftarrow> add_active 1 ci w; Some (node, w) }
        else let (announced, w) = call_throwing E (AddNodeGraph name namespace) w
        in case announced of
             None \<Rightarrow> do { w \<leftarrow> release_node namespace_copy name_copy node impl w; Some (nullptr, w) }
           | Some ret \<Rightarrow>
               if ret \<noteq> RMW_RET_OK
               then do {
                 w \<leftarrow> update_context (erase_node node) ci w;
                 w \<leftarrow> release_node namespace_copy name_copy node impl w;
                 Some (nullptr, w) }
               else do {
                 w \<leftarrow> notify_graph_change E ci w;
                 w \<leftarrow> add_active 1 ci w;
                 Some (node, w) } })"

definition rmw_create_node :: "env \<Rightarrow> ptr \<Rightarrow> string option \<Rightarrow> string option \<Rightarrow> world \<Rightarrow> ptr result" where
  "rmw_create_node E context name namespace w =
     (case (name, namespace) of
        (Some name, Some namespace) \<Rightarrow>
          if context = nullptr then Some (nullptr, w)
          else do {
            ctx \<leftarrow> context_at context w;
            if context_identifier ctx \<noteq> ZzddsIdentifier \<or> context_impl_ptr ctx = nullptr
            then Some (nullptr, w)
            else let (good, w) = valid_name E name w
            in if \<not> good then Some (nullptr, w)
            else let (good, w) = valid_namespace E namespace w
            in if \<not> good then Some (nullptr, w)
            else do {
              c \<leftarrow> context_impl_at (context_impl_ptr ctx) w;
              if shutdown c then Some (nullptr, w)
              else let (impl, w) = allocate_object E (NodeImpl context) w;
                       (node, w) = allocate_object E (NodeHandle zero_node_handle) w;
                       (name_copy, w) = duplicate_string E name w;
                       (namespace_copy, w) = duplicate_string E namespace w
              in if impl = nullptr \<or> node = nullptr \<or> name_copy = nullptr \<or> namespace_copy = nullptr
              then do {
                w \<leftarrow> free_if_not_null namespace_copy w;
                w \<leftarrow> free_if_not_null name_copy w;
                w \<leftarrow> deallocate_object node w;
                w \<leftarrow> deallocate_object impl w;
                Some (nullptr, w) }
              else let w = store node (NodeHandle \<lparr>node_identifier = ZzddsIdentifier, node_data = impl,
                         node_name = name_copy, node_namespace = namespace_copy, node_context = context\<rparr>) w
              in register_node E (context_impl_ptr ctx) name namespace impl node name_copy namespace_copy w } }
      | _ \<Rightarrow> Some (nullptr, w))"

section \<open>Destroying a node\<close>

text \<open>The node each registered endpoint, client or service belongs to.\<close>

definition publisher_node :: "world \<Rightarrow> ptr \<Rightarrow> ptr option" where
  "publisher_node w p = do { h \<leftarrow> publisher_at p w; i \<leftarrow> publisher_impl_at (handle_data h) w; Some (pub_node i) }"

definition subscription_node :: "world \<Rightarrow> ptr \<Rightarrow> ptr option" where
  "subscription_node w p = do { h \<leftarrow> subscription_at p w; i \<leftarrow> subscription_impl_at (handle_data h) w; Some (sub_node i) }"

definition client_node_of :: "world \<Rightarrow> ptr \<Rightarrow> ptr option" where
  "client_node_of w p = do { h \<leftarrow> client_at p w; i \<leftarrow> client_impl_at (handle_data h) w; Some (client_node i) }"

definition service_node_of :: "world \<Rightarrow> ptr \<Rightarrow> ptr option" where
  "service_node_of w p = do { h \<leftarrow> service_at p w; i \<leftarrow> service_impl_at (handle_data h) w; Some (service_node i) }"

definition owners :: "context_impl \<Rightarrow> world \<Rightarrow> ptr option set" where
  "owners c w = publisher_node w ` publishers c \<union> subscription_node w ` subscriptions c \<union>
     client_node_of w ` clients c \<union> service_node_of w ` services c"

text \<open>
  The four loops look at the registered handles in an unspecified order; with a dangling handle
  among them the result is undefined.
\<close>

definition node_owns_entities :: "context_impl \<Rightarrow> ptr \<Rightarrow> world \<Rightarrow> bool option" where
  "node_owns_entities c node w = (if None \<in> owners c w then None else Some (Some node \<in> owners c w))"

definition rmw_destroy_node :: "env \<Rightarrow> ptr \<Rightarrow> world \<Rightarrow> rmw_ret result" where
  "rmw_destroy_node E node w =
     (if node = nullptr then Some (RMW_RET_INVALID_ARGUMENT, w)
      else do {
        h \<leftarrow> node_handle_at node w;
        if node_data h = nullptr \<or> node_context h = nullptr then Some (RMW_RET_INVALID_ARGUMENT, w)
        else if node_identifier h \<noteq> ZzddsIdentifier then Some (RMW_RET_INCORRECT_RMW_IMPLEMENTATION, w)
        else do {
          ctx \<leftarrow> context_at (node_context h) w;
          let ci = context_impl_ptr ctx;
          if ci = nullptr then Some (RMW_RET_INVALID_ARGUMENT, w)
          else do {
            c \<leftarrow> context_impl_at ci w;
            owns \<leftarrow> node_owns_entities c node w;
            if owns then Some (RMW_RET_ERROR, w)
            else do {
              w \<leftarrow> update_context (erase_node node) ci w;
              w \<leftarrow> (if suppress_graph_updates c then Some w
                   else do {
                     name \<leftarrow> c_string_at (node_name h) w;
                     namespace \<leftarrow> c_string_at (node_namespace h) w;
                     notify_graph_change E ci (snd (call_rmw E (RemoveNodeGraph name namespace) w)) });
              w \<leftarrow> deallocate (node_namespace h) w;
              w \<leftarrow> deallocate (node_name h) w;
              w \<leftarrow> deallocate_object (node_data h) w;
              w \<leftarrow> deallocate_object node w;
              w \<leftarrow> add_active (- 1) ci w;
              Some (RMW_RET_OK, w) } } } })"

section \<open>What the operations do\<close>

lemma given_release_node [step]:
  assumes "namespace_copy \<noteq> nullptr" "name_copy \<noteq> nullptr" "\<And>w'. given h e rs w' (f w') Q"
  shows "given h e (Memory namespace_copy a # Memory name_copy b # Memory node c # Memory impl d # rs) w
    (Option.bind (release_node namespace_copy name_copy node impl w) f) Q"
  unfolding release_node_def bind_assoc
  by (intro step assms)

text \<open>
  A node as it is created: four objects that refer to each other, its registration with the context
  and the count of active entities.
\<close>

definition node_created ::
  "(ptr \<Rightarrow> object option) \<Rightarrow> (entity_kind \<times> ptr) multiset \<Rightarrow> ptr \<Rightarrow> ptr \<Rightarrow> context_impl \<Rightarrow> string \<Rightarrow> string \<Rightarrow>
   ptr \<Rightarrow> world \<Rightarrow> bool" where
  "node_created h e context ci c name namespace node w \<longleftrightarrow>
     (\<exists>impl name_copy namespace_copy.
        node \<noteq> nullptr \<and> impl \<noteq> nullptr \<and> name_copy \<noteq> nullptr \<and> namespace_copy \<noteq> nullptr \<and>
        ledger (h(ci \<mapsto> ContextImpl (c\<lparr>nodes := insert node (nodes c),
                                         active_entities := active_entities c + 1\<rparr>))) e
          [Memory namespace_copy (CString namespace), Memory name_copy (CString name),
           Memory node (NodeHandle \<lparr>node_identifier = ZzddsIdentifier, node_data = impl,
             node_name = name_copy, node_namespace = namespace_copy, node_context = context\<rparr>),
           Memory impl (NodeImpl context)] w)"

lemma create_node_outcome:
  assumes "live_context context ci c w" "\<And>p. heap w p = None \<Longrightarrow> p \<notin> nodes c"
    and "\<And>t. suppress_graph_updates c \<or> ok E t (AddNodeGraph name namespace)"
  shows "post (rmw_create_node E context (Some name) (Some namespace) w) (\<lambda>(p, w').
    if p = nullptr then ledger (heap w) (entities w) [] w'
    else node_created (heap w) (entities w) context ci c name namespace p w')"
  unfolding rmw_create_node_def valid_name_def valid_namespace_def option.case prod.case
    register_node_def
  apply (rule given_start [OF live_contextD(1) [OF assms(1)]])
  apply (insert live_contextD [OF assms(1)] assms(2,3), elim exE)
  apply (intro step)
  apply (simp_all add: insert_node_def erase_node_def)
  apply (elim conjE, hypsubst, simp add: node_created_def, intro exI conjI; assumption)
  apply (elim conjE, hypsubst, simp add: fun_upd_idem)
  apply (elim conjE, hypsubst, simp add: node_created_def, intro exI conjI; assumption)
  done
text \<open>
  A context whose registered handles are good: none dangles, and the endpoints belong to nodes that
  exist.
\<close>

definition consistent :: "context_impl \<Rightarrow> world \<Rightarrow> bool" where
  "consistent c w \<longleftrightarrow> None \<notin> owners c w \<and> (\<forall>n. Some n \<in> owners c w \<longrightarrow> heap w n \<noteq> None) \<and>
     (\<forall>p \<in> nodes c. heap w p \<noteq> None)"

text \<open>Looking up the nodes of endpoints needs only the endpoints' own objects.\<close>

definition keeps_objects :: "world \<Rightarrow> world \<Rightarrow> bool" where
  "keeps_objects w w' \<longleftrightarrow>
     (\<forall>p x. heap w p = Some x \<longrightarrow> (\<exists>c. x = ContextImpl c) \<or> heap w' p = Some x)"

lemma owner_kept:
  assumes "keeps_objects w w'"
  shows "publisher_node w p = Some n \<Longrightarrow> publisher_node w' p = Some n"
    "subscription_node w p = Some n \<Longrightarrow> subscription_node w' p = Some n"
    "client_node_of w p = Some n \<Longrightarrow> client_node_of w' p = Some n"
    "service_node_of w p = Some n \<Longrightarrow> service_node_of w' p = Some n"
  using assms
  by (fastforce simp: publisher_node_def subscription_node_def client_node_of_def service_node_of_def
    bind_eq_Some_conv at_iff keeps_objects_def)+

lemma owners_kept:
  assumes "keeps_objects w w'" "None \<notin> owners c w"
  shows "owners c w' = owners c w"
proof -
  have kept: "f' ` A = f ` A" if "\<And>p n. f p = Some n \<Longrightarrow> f' p = Some n" "None \<notin> f ` A"
    for f f' :: "ptr \<Rightarrow> ptr option" and A
  proof (rule image_cong [OF refl])
    fix p assume "p \<in> A"
    with that show "f' p = f p" by (cases "f p") (auto simp: image_iff)
  qed
  show ?thesis
    using assms owner_kept [OF assms(1)] unfolding owners_def
    by (intro arg_cong2 [where f = "(\<union>)"] kept) auto
qed

lemma owners_cong:
  "publishers c = publishers c' \<Longrightarrow> subscriptions c = subscriptions c' \<Longrightarrow> clients c = clients c' \<Longrightarrow>
   services c = services c' \<Longrightarrow> owners c w = owners c' w"
  by (simp add: owners_def)

lemma destroy_node_outcome:
  assumes "node_created h e context ci c name namespace node w" "node \<notin> nodes c"
    and "h context = Some (Context \<lparr>context_identifier = ZzddsIdentifier, context_impl_ptr = ci, settings = x\<rparr>)"
    and "h ci = Some (ContextImpl c)" "context \<noteq> nullptr" "ci \<noteq> nullptr"
    and "None \<notin> owners c w" "Some node \<notin> owners c w"
  shows "post (rmw_destroy_node E node w) (\<lambda>(ret, w'). ret = RMW_RET_OK \<and> ledger h e [] w')"
proof -
  let ?c = "c\<lparr>nodes := insert node (nodes c), active_entities := active_entities c + 1\<rparr>"
  obtain impl name_copy namespace_copy where nz: "node \<noteq> nullptr" "impl \<noteq> nullptr"
      "name_copy \<noteq> nullptr" "namespace_copy \<noteq> nullptr"
    and l: "ledger (h(ci \<mapsto> ContextImpl ?c)) e
      [Memory namespace_copy (CString namespace), Memory name_copy (CString name),
       Memory node (NodeHandle \<lparr>node_identifier = ZzddsIdentifier, node_data = impl,
         node_name = name_copy, node_namespace = namespace_copy, node_context = context\<rparr>),
       Memory impl (NodeImpl context)] w"
    using assms(1) unfolding node_created_def by blast
  have owns: "node_owns_entities ?c node w = Some False"
    using assms(7,8) owners_cong [of ?c c w] by (simp add: node_owns_entities_def)
  have d: "distinct [namespace_copy, name_copy, node, impl, ci, context]"
    and hp: "heap w node = Some (NodeHandle \<lparr>node_identifier = ZzddsIdentifier, node_data = impl,
         node_name = name_copy, node_namespace = namespace_copy, node_context = context\<rparr>)"
      "heap w ci = Some (ContextImpl ?c)" "heap w namespace_copy = Some (CString namespace)"
      "heap w name_copy = Some (CString name)" "heap w impl = Some (NodeImpl context)"
      "heap w context = Some (Context \<lparr>context_identifier = ZzddsIdentifier, context_impl_ptr = ci, settings = x\<rparr>)"
    and old: "h namespace_copy = None" "h name_copy = None" "h node = None" "h impl = None"
    and hw: "\<And>p. p \<notin> {namespace_copy, name_copy, node, impl, ci} \<Longrightarrow> heap w p = h p" "entities w = e"
    using l nz assms(3-6) by (auto simp: ledger_def split: if_splits)
  have "post (rmw_destroy_node E node w) (\<lambda>(ret, w').
      ret = RMW_RET_OK \<and> heap w' = h \<and> entities w' = e \<and> next_ptr w' = next_ptr w)"
    using d d [THEN distinct_rev [THEN iffD2]] hp old hw nz assms(2,4,5,6) owns
    by (simp add: rmw_destroy_node_def context_frame_defs node_handle_at_def c_string_at_def
      update_context_def erase_node_def notify_graph_change_def)
  then show ?thesis by (rule post_mono) (simp add: split_beta ledger_back [OF l])
qed

section \<open>The life of a node\<close>

definition node_ready :: "env \<Rightarrow> ptr \<Rightarrow> ptr \<Rightarrow> context_impl \<Rightarrow> string \<Rightarrow> string \<Rightarrow> world \<Rightarrow> bool" where
  "node_ready E context ci c name namespace w \<longleftrightarrow> live_context context ci c w \<and> consistent c w \<and>
     (\<forall>t. suppress_graph_updates c \<or> ok E t (AddNodeGraph name namespace))"

lemma created_keeps_objects:
  assumes "node_created (heap w0) e context ci c name namespace node w" "heap w0 ci = Some (ContextImpl c)"
  shows "keeps_objects w0 w" "heap w0 node = None"
  using assms unfolding node_created_def keeps_objects_def
  by (auto simp: ledger_def split: if_splits)

lemma node_life_facts:
  assumes "node_ready E context ci c name namespace w0"
    "node_created (heap w0) (entities w0) context ci c name namespace node w"
  shows "post (rmw_destroy_node E node w) (\<lambda>(ret, w').
    ret = RMW_RET_OK \<and> ledger (heap w0) (entities w0) [] w')"
proof -
  have live: "live_context context ci c w0" and c: "consistent c w0"
    using assms(1) by (simp_all add: node_ready_def)
  note L = live_contextD [OF live]
  obtain x where ch: "heap w0 context =
      Some (Context \<lparr>context_identifier = ZzddsIdentifier, context_impl_ptr = ci, settings = x\<rparr>)"
    using L(4) by blast
  note K = created_keeps_objects [OF assms(2) L(5)]
  have "owners c w = owners c w0"
    using c owners_kept [OF K(1)] by (simp add: consistent_def)
  then show ?thesis
    using c K(2) L(2,3,5) ch by (intro destroy_node_outcome [OF assms(2)]) (auto simp: consistent_def)
qed

interpretation node_life: lifecycle "node_ready E ctx ci c name namespace"
    "rmw_create_node E ctx (Some name) (Some namespace)" "rmw_destroy_node E"
    "\<lambda>h e. node_created h e ctx ci c name namespace"
  for E ctx ci c name namespace
proof unfold_locales
  show "post (rmw_create_node E ctx (Some name) (Some namespace) w) (\<lambda>(p, w').
      if p = nullptr then ledger (heap w) (entities w) [] w'
      else node_created (heap w) (entities w) ctx ci c name namespace p w')"
    if "node_ready E ctx ci c name namespace w" for w
    using that by (intro create_node_outcome) (auto simp: node_ready_def consistent_def)
qed (rule node_life_facts)

text \<open>
  C19. A node's life leaves nothing behind, as long as announcing it in the graph does not throw:
  when the creation fails at any of its steps the heap is unchanged (the context's registry
  included), and a node that was created and owns no endpoint is destroyed with success, its four
  objects released once each and its registration undone.
\<close>

theorem node_lifecycle:
  assumes "live_context context ci c w" "consistent c w"
    and "\<And>t. ok E t (AddNodeGraph name namespace)"
  shows "post (rmw_create_node E context (Some name) (Some namespace) w) (\<lambda>(p, w1).
    if p = nullptr then heap w1 = heap w \<and> entities w1 = entities w
    else post (rmw_destroy_node E p w1) (\<lambda>(ret, w2).
      ret = RMW_RET_OK \<and> heap w2 = heap w \<and> entities w2 = entities w))"
  using assms by (intro node_life.restores) (simp add: node_ready_def)

theorem node_lifecycle_witness:
  "post (rmw_create_node all_succeed 1 (Some ''talker'') (Some ''/demo'') small_world) (\<lambda>(p, w1).
    if p = nullptr then heap w1 = heap small_world \<and> entities w1 = entities small_world
    else post (rmw_destroy_node all_succeed p w1) (\<lambda>(ret, w2).
      ret = RMW_RET_OK \<and> heap w2 = heap small_world \<and> entities w2 = entities small_world))"
  by (rule node_lifecycle [OF small_world_live])
     (simp_all add: consistent_def owners_def empty_context_def all_succeed_def)

text \<open>
  C20. When announcing the node throws, the handler frees the node and returns null but does not
  take it out of the context's set of nodes, which keeps the freed address.
\<close>

theorem throwing_node_stays_registered:
  assumes "live_context context ci c w" "\<not> shutdown c" "\<not> suppress_graph_updates c"
    and "\<And>t x. ok E t x \<longleftrightarrow> x \<noteq> AddNodeGraph name namespace"
  shows "post (rmw_create_node E context (Some name) (Some namespace) w) (\<lambda>(p, w').
    p = nullptr \<and> (\<exists>node. node \<noteq> nullptr \<and> heap w' node = None \<and>
      heap w' ci = Some (ContextImpl (c\<lparr>nodes := insert node (nodes c)\<rparr>))))"
  unfolding rmw_create_node_def valid_name_def valid_namespace_def option.case prod.case
    register_node_def
  apply (rule given_start [OF live_contextD(1) [OF assms(1)]])
  apply (insert live_contextD [OF assms(1)] assms(2-4), elim exE)
  apply (intro step)
  apply (simp_all add: insert_node_def)
  apply (auto dest!: ledger_empty)
  subgoal for x impl node by (auto intro!: exI [of _ node])
  done

definition announcing_throws :: env where
  "announcing_throws = all_succeed\<lparr>ok := \<lambda>_ x. x \<noteq> AddNodeGraph ''talker'' ''/demo''\<rparr>"

theorem throwing_node_stays_registered_witness:
  "post (rmw_create_node announcing_throws 1 (Some ''talker'') (Some ''/demo'') small_world) (\<lambda>(p, w').
    p = nullptr \<and> (\<exists>node. node \<noteq> nullptr \<and> heap w' node = None \<and>
      heap w' 2 = Some (ContextImpl (empty_context\<lparr>nodes := insert node (nodes empty_context)\<rparr>))))"
  by (rule throwing_node_stays_registered [OF small_world_live])
     (simp_all add: empty_context_def announcing_throws_def)

end
