(* ===== verification/Ledger_Frames.thy ===== *)
theory Ledger_Frames
  imports Ledger
begin

text \<open>
  Ledgers of several operations: one taken relative to the state another left can be put on top of it,
  the order of the resources does not matter, and any part of them can be looked at from a state that
  has the others. So entities that were created one after the other can be released in any order.
\<close>

section \<open>The order of resources\<close>

fun is_memory :: "resource \<Rightarrow> bool" where
  "is_memory (Memory p x) \<longleftrightarrow> p \<noteq> nullptr"
| "is_memory (Entity k p) \<longleftrightarrow> False"

fun is_entity :: "resource \<Rightarrow> bool" where
  "is_entity (Memory p x) \<longleftrightarrow> False"
| "is_entity (Entity k p) \<longleftrightarrow> p \<noteq> nullptr"

fun address :: "resource \<Rightarrow> ptr" where
  "address (Memory p x) = p"
| "address (Entity k p) = p"

fun kind_of :: "resource \<Rightarrow> entity_kind" where
  "kind_of (Memory p x) = RosMessageEntity"
| "kind_of (Entity k p) = k"

definition addresses :: "resource list \<Rightarrow> ptr list" where
  "addresses rs = map address (filter is_memory rs)"

lemma addresses_simps [simp]:
  "addresses [] = []"
  "addresses (Memory p x # rs) = (if p = nullptr then addresses rs else p # addresses rs)"
  "addresses (Entity k p # rs) = addresses rs"
  by (simp_all add: addresses_def)

lemma claim_None_iff: "claim rs h p = None \<longleftrightarrow> h p = None \<and> p \<notin> set (addresses rs)"
  by (induction rs h rule: claim.induct) auto

lemma fits_iff: "fits h rs \<longleftrightarrow> distinct (addresses rs) \<and> (\<forall>p \<in> set (addresses rs). h p = None)"
  by (induction h rs rule: fits.induct) (auto simp: claim_None_iff)

lemma claim_Some_iff:
  "fits h rs \<Longrightarrow> claim rs h p = Some x \<longleftrightarrow> (p \<noteq> nullptr \<and> Memory p x \<in> set rs) \<or> h p = Some x"
proof (induction h rs rule: fits.induct)
  case (2 h q y rs)
  then show ?case using claim_None_iff [of rs h q] by (cases "q = nullptr") auto
qed auto

lemma claimed_eq: "claimed rs = mset (map (\<lambda>r. (kind_of r, address r)) (filter is_entity rs))"
  by (induction rs rule: claimed.induct) auto

lemma addresses_perm: "mset rs = mset rs' \<Longrightarrow> mset (addresses rs) = mset (addresses rs')"
  by (simp add: addresses_def mset_map mset_filter)

lemma fits_perm:
  assumes "mset rs = mset rs'"
  shows "fits h rs = fits h rs'"
  using mset_eq_imp_distinct_iff [OF addresses_perm [OF assms]] mset_eq_setD [OF addresses_perm [OF assms]]
  by (simp add: fits_iff)

lemma claim_perm:
  assumes "mset rs = mset rs'" "fits h rs"
  shows "claim rs h = claim rs' h"
proof
  fix p
  have "claim rs h p = Some x \<longleftrightarrow> claim rs' h p = Some x" for x
    using assms fits_perm [OF assms(1), of h] mset_eq_setD [OF assms(1)] by (simp add: claim_Some_iff)
  then show "claim rs h p = claim rs' h p" by (metis option.exhaust)
qed

lemma ledger_perm:
  assumes "ledger h e rs w" "mset rs = mset rs'"
  shows "ledger h e rs' w"
  using assms claim_perm [OF assms(2), of h] fits_perm [OF assms(2), of h]
  by (simp add: ledger_def claimed_eq mset_map mset_filter)

section \<open>Ledgers on top of ledgers\<close>

lemma fits_append: "fits h (as @ bs) \<longleftrightarrow> fits (claim bs h) as \<and> fits h bs"
proof (induction as)
  case (Cons a as)
  then show ?case by (cases a) (auto simp: claim_append)
qed simp

lemma ledger_split:
  "ledger h e (as @ bs) w \<longleftrightarrow> fits h bs \<and> ledger (claim bs h) (e + claimed bs) as w"
  by (auto simp: ledger_def fits_append claim_append claimed_append)

lemma ledger_above:
  assumes "ledger h e rs w" "ledger (heap w) (entities w) ss w'"
  shows "ledger h e (ss @ rs) w'"
  using assms by (simp add: ledger_def fits_append claim_append claimed_append)

text \<open>The same after the object at an older address has changed.\<close>

lemma ledger_above_update:
  assumes "ledger h e rs w" "h p = Some x" "ledger ((heap w)(p \<mapsto> y)) (entities w) ss w'"
  shows "ledger (h(p \<mapsto> y)) e (ss @ rs) w'"
  using assms claim_update [of h p x rs y] by (simp add: ledger_def fits_append claim_append claimed_append)

lemma ledger_above_fill:
  assumes "ledger h e (as @ Memory p x # bs) w" "p \<noteq> nullptr" "ledger ((heap w)(p \<mapsto> y)) (entities w) ss w'"
  shows "ledger h e (ss @ as @ Memory p y # bs) w'"
  using ledger_above [OF ledger_fill [OF assms(1,2)], of y ss w'] assms(3) by simp

text \<open>
  The state in which the resources \<open>as\<close> were not there, and the object at \<open>p\<close> was \<open>x\<close>: what an
  operation releasing them is relative to.
\<close>

definition without :: "ptr \<Rightarrow> object \<Rightarrow> resource list \<Rightarrow> (ptr \<Rightarrow> object option) \<Rightarrow>
    (entity_kind \<times> ptr) multiset \<Rightarrow> world \<Rightarrow> world" where
  "without p x bs h e w = w\<lparr>heap := claim bs (h(p \<mapsto> x)), entities := e + claimed bs\<rparr>"

lemma without_simps [simp]:
  "heap (without p x bs h e w) = claim bs (h(p \<mapsto> x))" "entities (without p x bs h e w) = e + claimed bs"
  "next_ptr (without p x bs h e w) = next_ptr w"
  by (simp_all add: without_def)

lemma ledger_without:
  assumes "ledger (h(p \<mapsto> y)) e (as @ bs) w"
  shows "ledger ((claim bs (h(p \<mapsto> x)))(p \<mapsto> y)) (e + claimed bs) as w" "fits (h(p \<mapsto> x)) bs"
    "wf_world (without p x bs h e w)" "ledger (h(p \<mapsto> x)) e bs (without p x bs h e w)"
proof -
  have f: "fits (h(p \<mapsto> y)) bs" and l: "ledger (claim bs (h(p \<mapsto> y))) (e + claimed bs) as w"
    using assms by (simp_all add: ledger_split)
  show f': "fits (h(p \<mapsto> x)) bs" using f by (auto simp: fits_iff split: if_splits)
  have "claim bs (h(p \<mapsto> y)) = (claim bs (h(p \<mapsto> x)))(p \<mapsto> y)"
    using claim_update [of "h(p \<mapsto> x)" p x bs y] f' by simp
  with l show l': "ledger ((claim bs (h(p \<mapsto> x)))(p \<mapsto> y)) (e + claimed bs) as w" by simp
  show wf: "wf_world (without p x bs h e w)"
    using ledger_back [OF l', of "without p x bs h e w"] by (simp add: ledger_def)
  show "ledger (h(p \<mapsto> x)) e bs (without p x bs h e w)"
    using wf f' by (simp add: ledger_def)
qed

end
