(* ===== verification/Dds_Context.thy ===== *)
theory Dds_Context
  imports Guard_Condition Ledger_Frames
begin

text \<open>
  The first half of \<^verbatim>\<open>rmw_init.cpp\<close>: the class \<^verbatim>\<open>DdsContext\<close>, which owns the DDS factory, participant,
  publisher and subscriber of a context, and the init options.
\<close>

section \<open>The DDS entities of a context\<close>

text \<open>
  The four parts of \<^verbatim>\<open>DdsContext::reset\<close>, each guarded by the member it releases. Deleting what the
  subscriber, publisher and participant contain is a call of its own; the layer has deleted those
  entities itself by then, unless it leaked them.
\<close>

definition close_subscriber :: "env \<Rightarrow> ptr \<Rightarrow> world \<Rightarrow> bool result" where
  "close_subscriber E ci w = do {
     c \<leftarrow> context_impl_at ci w;
     if participant c = nullptr \<or> dds_subscriber c = nullptr then Some (True, w)
     else do {
       let (contained, w) = call_dds E (DeleteContained (dds_subscriber c)) w;
       (deleted, w) \<leftarrow> delete E DdsSubscriberEntity (dds_subscriber c) w;
       w \<leftarrow> update_context (\<lambda>c. c\<lparr>dds_subscriber := nullptr\<rparr>) ci w;
       Some (contained = DDS_RETCODE_OK \<and> deleted = DDS_RETCODE_OK, w) } }"

definition close_publisher :: "env \<Rightarrow> ptr \<Rightarrow> world \<Rightarrow> bool result" where
  "close_publisher E ci w = do {
     c \<leftarrow> context_impl_at ci w;
     if participant c = nullptr \<or> dds_publisher c = nullptr then Some (True, w)
     else do {
       let (contained, w) = call_dds E (DeleteContained (dds_publisher c)) w;
       (deleted, w) \<leftarrow> delete E DdsPublisherEntity (dds_publisher c) w;
       w \<leftarrow> update_context (\<lambda>c. c\<lparr>dds_publisher := nullptr\<rparr>) ci w;
       Some (contained = DDS_RETCODE_OK \<and> deleted = DDS_RETCODE_OK, w) } }"

definition close_participant :: "env \<Rightarrow> ptr \<Rightarrow> world \<Rightarrow> bool result" where
  "close_participant E ci w = do {
     c \<leftarrow> context_impl_at ci w;
     if participant c = nullptr then Some (True, w)
     else do {
       let (contained, w) = call_dds E (DeleteContained (participant c)) w;
       (deleted, w) \<leftarrow> (if dds_factory c \<noteq> nullptr then delete E ParticipantEntity (participant c) w
                       else Some (DDS_RETCODE_OK, w));
       w \<leftarrow> update_context (\<lambda>c. c\<lparr>participant := nullptr\<rparr>) ci w;
       Some (contained = DDS_RETCODE_OK \<and> deleted = DDS_RETCODE_OK, w) } }"

definition close_factory :: "ptr \<Rightarrow> world \<Rightarrow> world option" where
  "close_factory ci w = do {
     c \<leftarrow> context_impl_at ci w;
     w \<leftarrow> (if factory c \<noteq> nullptr
          then do {
            w \<leftarrow> destroy FactoryEntity (factory c) w;
            update_context (\<lambda>c. c\<lparr>factory := nullptr\<rparr>) ci w }
          else Some w);
     update_context (\<lambda>c. c\<lparr>dds_factory := nullptr\<rparr>) ci w }"

definition dds_reset :: "env \<Rightarrow> ptr \<Rightarrow> world \<Rightarrow> bool result" where
  "dds_reset E ci w = do {
     (s, w) \<leftarrow> close_subscriber E ci w;
     (p, w) \<leftarrow> close_publisher E ci w;
     (q, w) \<leftarrow> close_participant E ci w;
     w \<leftarrow> close_factory ci w;
     Some (s \<and> p \<and> q, w) }"

text \<open>\<^verbatim>\<open>initialize\<close>: a failing step resets what the earlier ones stored.\<close>

definition dds_initialize :: "env \<Rightarrow> ptr \<Rightarrow> world \<Rightarrow> bool result" where
  "dds_initialize E ci w = do {
     (_, w) \<leftarrow> dds_reset E ci w;
     let (f, w) = create E FactoryEntity plain w;
     w \<leftarrow> update_context (\<lambda>c. c\<lparr>factory := f\<rparr>) ci w;
     if f = nullptr then Some (False, w)
     else do {
       w \<leftarrow> update_context (\<lambda>c. c\<lparr>dds_factory := f\<rparr>) ci w;
       let (p, w) = create E ParticipantEntity ([f], [], []) w;
       w \<leftarrow> update_context (\<lambda>c. c\<lparr>participant := p\<rparr>) ci w;
       if p = nullptr
       then do { (_, w) \<leftarrow> dds_reset E ci w; Some (False, w) }
       else do {
         let (pub, w) = create E DdsPublisherEntity ([p], [], []) w;
         w \<leftarrow> update_context (\<lambda>c. c\<lparr>dds_publisher := pub\<rparr>) ci w;
         if pub = nullptr
         then do { (_, w) \<leftarrow> dds_reset E ci w; Some (False, w) }
         else do {
           let (sub, w) = create E DdsSubscriberEntity ([p], [], []) w;
           w \<leftarrow> update_context (\<lambda>c. c\<lparr>dds_subscriber := sub\<rparr>) ci w;
           if sub = nullptr
           then do { (_, w) \<leftarrow> dds_reset E ci w; Some (False, w) }
           else Some (True, w) } } } }"

text \<open>The destructor of \<^verbatim>\<open>ContextImpl\<close> runs that of \<^verbatim>\<open>DdsContext\<close>, then the memory is freed.\<close>

definition destroy_context_impl :: "env \<Rightarrow> ptr \<Rightarrow> world \<Rightarrow> world option" where
  "destroy_context_impl E ci w = do {
     (_, w) \<leftarrow> dds_reset E ci w;
     deallocate_object ci w }"

section \<open>Init options\<close>

text \<open>
  A library function that fills in options: a return code, and the resources they hold on success.
  A structure that holds none is finalised without effect.
\<close>

definition fill_options :: "env \<Rightarrow> call \<Rightarrow> entity_kind \<Rightarrow> world \<Rightarrow> (rmw_ret \<times> ptr) result" where
  "fill_options E c kind w =
     (let (ret, w) = call_rmw E c w
      in if ret \<noteq> RMW_RET_OK then Some ((ret, nullptr), w)
         else let (p, w) = hold kind w in Some ((RMW_RET_OK, p), w))"

definition fini_options :: "entity_kind \<Rightarrow> ptr \<Rightarrow> world \<Rightarrow> world option" where
  "fini_options kind p w = (if p = nullptr then Some w else destroy kind p w)"

text \<open>\<^verbatim>\<open>rmw_enclave_options_copy\<close> gives a copy of the string.\<close>

definition copy_enclave :: "env \<Rightarrow> string \<Rightarrow> world \<Rightarrow> (rmw_ret \<times> ptr) result" where
  "copy_enclave E s w =
     (let (ret, w) = call_rmw E (CopyEnclave s) w
      in if ret \<noteq> RMW_RET_OK then Some ((ret, nullptr), w)
         else Some ((RMW_RET_OK, next_ptr w),
               w\<lparr>next_ptr := next_ptr w + 1, heap := (heap w)(next_ptr w \<mapsto> CString s)\<rparr>))"

text \<open>The caller assigns the zero-initialised options that \<^verbatim>\<open>cleanup_options\<close> leaves.\<close>

definition cleanup_options :: "init_options \<Rightarrow> world \<Rightarrow> world option" where
  "cleanup_options options w = do {
     w \<leftarrow> deallocate_object (enclave options) w;
     w \<leftarrow> fini_options DiscoveryOptionsEntity (discovery_options options) w;
     fini_options SecurityOptionsEntity (security_options options) w }"

definition copy_options :: "env \<Rightarrow> init_options \<Rightarrow> world \<Rightarrow> (rmw_ret \<times> init_options) result" where
  "copy_options E src w = do {
     let r = zero_init_options\<lparr>options_instance_id := options_instance_id src, options_identifier := ZzddsIdentifier,
            options_domain_id := options_domain_id src, options_allocator_valid := options_allocator_valid src\<rparr>;
     ((ret, s), w) \<leftarrow> fill_options E (CopySecurityOptions (security_options src)) SecurityOptionsEntity w;
     if ret \<noteq> RMW_RET_OK
     then do { w \<leftarrow> cleanup_options r w; Some ((ret, zero_init_options), w) }
     else do {
       let r = r\<lparr>security_options := s, enforce_security := enforce_security src\<rparr>;
       ((ret, d), w) \<leftarrow> fill_options E (CopyDiscoveryOptions (discovery_options src)) DiscoveryOptionsEntity w;
       if ret \<noteq> RMW_RET_OK
       then do { w \<leftarrow> cleanup_options r w; Some ((ret, zero_init_options), w) }
       else do {
         let r = r\<lparr>discovery_options := d\<rparr>;
         if enclave src = nullptr then Some ((RMW_RET_OK, r), w)
         else do {
           name \<leftarrow> c_string_at (enclave src) w;
           ((ret, e), w) \<leftarrow> copy_enclave E name w;
           if ret \<noteq> RMW_RET_OK
           then do { w \<leftarrow> cleanup_options r w; Some ((ret, zero_init_options), w) }
           else Some ((RMW_RET_OK, r\<lparr>enclave := e\<rparr>), w) } } } }"

definition rmw_init_options_init :: "env \<Rightarrow> ptr \<Rightarrow> bool \<Rightarrow> world \<Rightarrow> rmw_ret result" where
  "rmw_init_options_init E init_options usable_allocator w =
     (if init_options = nullptr \<or> \<not> usable_allocator then Some (RMW_RET_INVALID_ARGUMENT, w)
      else do {
        opt \<leftarrow> init_options_at init_options w;
        if options_identifier opt \<noteq> NullIdentifier then Some (RMW_RET_INVALID_ARGUMENT, w)
        else do {
          ((ret, d), w) \<leftarrow> fill_options E InitDiscoveryOptions DiscoveryOptionsEntity w;
          if ret \<noteq> RMW_RET_OK then Some (ret, w)
          else Some (RMW_RET_OK, store init_options (InitOptions (zero_init_options
                 \<lparr>options_identifier := ZzddsIdentifier, options_domain_id := - 1,
                  discovery_options := d, options_allocator_valid := usable_allocator\<rparr>)) w) } })"

definition rmw_init_options_copy :: "env \<Rightarrow> ptr \<Rightarrow> ptr \<Rightarrow> world \<Rightarrow> rmw_ret result" where
  "rmw_init_options_copy E src dst w =
     (if src = nullptr \<or> dst = nullptr \<or> src = dst then Some (RMW_RET_INVALID_ARGUMENT, w)
      else do {
        s \<leftarrow> init_options_at src w;
        if options_identifier s = NullIdentifier then Some (RMW_RET_INVALID_ARGUMENT, w)
        else if options_identifier s \<noteq> ZzddsIdentifier then Some (RMW_RET_INCORRECT_RMW_IMPLEMENTATION, w)
        else do {
          d \<leftarrow> init_options_at dst w;
          if options_identifier d \<noteq> NullIdentifier then Some (RMW_RET_INVALID_ARGUMENT, w)
          else if \<not> options_allocator_valid s then Some (RMW_RET_INVALID_ARGUMENT, w)
          else do {
            ((ret, r), w) \<leftarrow> copy_options E s w;
            Some (ret, if ret = RMW_RET_OK then store dst (InitOptions r) w else w) } } })"

text \<open>On the options by value: a context holds its own.\<close>

definition fini_init_options :: "init_options \<Rightarrow> world \<Rightarrow> (rmw_ret \<times> init_options) result" where
  "fini_init_options opt w =
     (if options_identifier opt = NullIdentifier then Some ((RMW_RET_INVALID_ARGUMENT, opt), w)
      else if options_identifier opt \<noteq> ZzddsIdentifier then Some ((RMW_RET_INCORRECT_RMW_IMPLEMENTATION, opt), w)
      else do {
        w \<leftarrow> cleanup_options opt w;
        Some ((RMW_RET_OK, zero_init_options), w) })"

definition rmw_init_options_fini :: "ptr \<Rightarrow> world \<Rightarrow> rmw_ret result" where
  "rmw_init_options_fini init_options w =
     (if init_options = nullptr then Some (RMW_RET_INVALID_ARGUMENT, w)
      else do {
        opt \<leftarrow> init_options_at init_options w;
        ((ret, opt), w) \<leftarrow> fini_init_options opt w;
        Some (ret, store init_options (InitOptions opt) w) })"

section \<open>What opening and closing the DDS entities do\<close>

definition opened :: "ptr \<Rightarrow> ptr \<Rightarrow> ptr \<Rightarrow> ptr \<Rightarrow> context_impl \<Rightarrow> context_impl" where
  "opened f p pub sub c =
     c\<lparr>factory := f, dds_factory := f, participant := p, dds_publisher := pub, dds_subscriber := sub\<rparr>"

definition closed :: "context_impl \<Rightarrow> bool" where
  "closed c \<longleftrightarrow> factory c = nullptr \<and> dds_factory c = nullptr \<and> participant c = nullptr \<and>
     dds_publisher c = nullptr \<and> dds_subscriber c = nullptr"

lemma closed_opened: "closed c \<Longrightarrow> opened nullptr nullptr nullptr nullptr c = c"
  by (simp add: closed_def opened_def)

lemma opened_simps [simp]:
  "factory (opened f p pub sub c) = f" "dds_factory (opened f p pub sub c) = f"
  "participant (opened f p pub sub c) = p" "dds_publisher (opened f p pub sub c) = pub"
  "dds_subscriber (opened f p pub sub c) = sub"
  by (simp_all add: opened_def)

text \<open>The entities of an opened context, the last one taken first.\<close>

definition dds_resources :: "ptr \<Rightarrow> ptr \<Rightarrow> ptr \<Rightarrow> ptr \<Rightarrow> resource list" where
  "dds_resources f p pub sub = [Entity DdsSubscriberEntity sub, Entity DdsPublisherEntity pub,
     Entity ParticipantEntity p, Entity FactoryEntity f]"

text \<open>\<^verbatim>\<open>reset\<close> releases what was created up to any step of \<^verbatim>\<open>initialize\<close>.\<close>

definition built_up_to :: "ptr \<Rightarrow> ptr \<Rightarrow> ptr \<Rightarrow> ptr \<Rightarrow> bool" where
  "built_up_to f p pub sub \<longleftrightarrow> (sub \<noteq> nullptr \<longrightarrow> pub \<noteq> nullptr) \<and> (pub \<noteq> nullptr \<longrightarrow> p \<noteq> nullptr) \<and>
     (p \<noteq> nullptr \<longrightarrow> f \<noteq> nullptr)"

text \<open>A null handle is no resource.\<close>

lemma given_null_entity: "given h e (Entity k nullptr # rs) w m Q = given h e rs w m Q"
  by (simp add: given_def)

text \<open>zzdds does not refuse to delete the entities of a context either.\<close>

definition closes_succeed :: "env \<Rightarrow> bool" where
  "closes_succeed E \<longleftrightarrow> deletes_succeed E \<and> (\<forall>t p. dds_code E t (DeleteContained p) = DDS_RETCODE_OK)"

lemma closed_update:
  assumes "closed c"
  shows "c\<lparr>factory := nullptr\<rparr> = c" "c\<lparr>dds_factory := nullptr\<rparr> = c" "c\<lparr>participant := nullptr\<rparr> = c"
    "c\<lparr>dds_publisher := nullptr\<rparr> = c" "c\<lparr>dds_subscriber := nullptr\<rparr> = c"
  using assms by (simp_all add: closed_def)

lemma given_dds_reset:
  assumes "closes_succeed E" "h ci = Some (ContextImpl (opened f p pub sub c))" "closed c" "built_up_to f p pub sub"
    and "\<And>w'. given (h(ci \<mapsto> ContextImpl c)) e rs w' (k (True, w')) Q"
  shows "given h e (dds_resources f p pub sub @ rs) w (Option.bind (dds_reset E ci w) k) Q"
proof -
  note defs = dds_reset_def close_subscriber_def close_publisher_def close_participant_def close_factory_def
      dds_resources_def append.simps given_null_entity
  consider (none) "f = nullptr" "p = nullptr" "pub = nullptr" "sub = nullptr"
    | (factory) "f \<noteq> nullptr" "p = nullptr" "pub = nullptr" "sub = nullptr"
    | (participant) "f \<noteq> nullptr" "p \<noteq> nullptr" "pub = nullptr" "sub = nullptr"
    | (publisher) "f \<noteq> nullptr" "p \<noteq> nullptr" "pub \<noteq> nullptr" "sub = nullptr"
    | (subscriber) "f \<noteq> nullptr" "p \<noteq> nullptr" "pub \<noteq> nullptr" "sub \<noteq> nullptr"
    using assms(4) by (auto simp: built_up_to_def)
  then show ?thesis
  proof cases
    case none
    show ?thesis
      unfolding defs none
      using assms(1) [unfolded closes_succeed_def] assms(2) none assms(3) [unfolded closed_def]
      by (intro step, simp_all add: opened_def closed_update [OF assms(3)] assms(5))+
  next
    case factory
    show ?thesis
      unfolding defs factory
      using assms(1) [unfolded closes_succeed_def] assms(2) factory assms(3) [unfolded closed_def]
      by (intro step, simp_all add: opened_def closed_update [OF assms(3)] assms(5))+
  next
    case participant
    show ?thesis
      unfolding defs participant
      using assms(1) [unfolded closes_succeed_def] assms(2) participant assms(3) [unfolded closed_def]
      by (intro step, simp_all add: opened_def closed_update [OF assms(3)] assms(5))+
  next
    case publisher
    show ?thesis
      unfolding defs publisher
      using assms(1) [unfolded closes_succeed_def] assms(2) publisher assms(3) [unfolded closed_def]
      by (intro step, simp_all add: opened_def closed_update [OF assms(3)] assms(5))+
  next
    case subscriber
    show ?thesis
      unfolding defs subscriber
      using assms(1) [unfolded closes_succeed_def] assms(2) subscriber assms(3) [unfolded closed_def]
      by (intro step, simp_all add: opened_def closed_update [OF assms(3)] assms(5))+
  qed
qed

lemma dds_initialize_outcome:
  assumes "closes_succeed E" "h ci = Some (ContextImpl c)" "closed c"
    and "\<And>w'. given h e rs w' (k (False, w')) Q"
    and "\<And>f p pub sub w'. f \<noteq> nullptr \<Longrightarrow> p \<noteq> nullptr \<Longrightarrow> pub \<noteq> nullptr \<Longrightarrow> sub \<noteq> nullptr \<Longrightarrow>
      given (h(ci \<mapsto> ContextImpl (opened f p pub sub c))) e (dds_resources f p pub sub @ rs) w' (k (True, w')) Q"
  shows "given h e rs w (Option.bind (dds_initialize E ci w) k) Q"
proof -
  note reset = given_dds_reset [OF assms(1) _ assms(3)]
  note resets = reset [where pub = nullptr and sub = nullptr] reset [where sub = nullptr] reset
  note resets = resets [unfolded dds_resources_def append.simps given_null_entity]
    and start = reset [where f = nullptr and p = nullptr and pub = nullptr and sub = nullptr,
      unfolded dds_resources_def append.simps given_null_entity closed_opened [OF assms(3)]]
  show ?thesis
    unfolding dds_initialize_def
    apply (rule given_bind_bind)
    apply (rule start)
    apply (simp add: assms(2))
    apply (simp add: built_up_to_def)
    apply (subst fun_upd_idem, rule assms(2))
    using assms(2) assms(3) [unfolded closed_def]
    apply (intro step resets)
    apply (simp_all add: fun_upd_idem opened_def closed_update [OF assms(3)] built_up_to_def assms(4) given_null_entity)
    apply (rule assms(5) [unfolded dds_resources_def append.simps opened_def], simp_all)
    done
qed

section \<open>What copying and finalising options do\<close>

lemma given_let_options [step]:
  "given h e rs w (f v) Q \<Longrightarrow> given h e rs w (let r = v :: init_options in f r) Q"
  by simp

lemma given_fill_options [step]:
  assumes "\<And>ret w'. ret \<noteq> RMW_RET_OK \<Longrightarrow> given h e rs w' (f ((ret, nullptr), w')) Q"
    and "\<And>p w'. p \<noteq> nullptr \<Longrightarrow> given h e (Entity kind p # rs) w' (f ((RMW_RET_OK, p), w')) Q"
  shows "given h e rs w (Option.bind (fill_options E c kind w) f) Q"
  unfolding fill_options_def by (intro step assms)

lemma ledger_extend:
  assumes "ledger h e rs w"
  shows "ledger h e (Memory (next_ptr w) x # rs) (w\<lparr>next_ptr := next_ptr w + 1, heap := (heap w)(next_ptr w \<mapsto> x)\<rparr>)"
    "next_ptr w \<noteq> nullptr" "h (next_ptr w) = None"
proof -
  have wf: "wf_world w" and "heap w = claim rs h" using assms by (simp_all add: ledger_def)
  then have "claim rs h (next_ptr w) = None" "next_ptr w \<noteq> nullptr" using wf_worldD(2,4) [OF wf] by fastforce+
  then show "next_ptr w \<noteq> nullptr" "h (next_ptr w) = None"
    "ledger h e (Memory (next_ptr w) x # rs) (w\<lparr>next_ptr := next_ptr w + 1, heap := (heap w)(next_ptr w \<mapsto> x)\<rparr>)"
    using assms claim_fresh [of rs h "next_ptr w"] by (auto simp: ledger_def wf_world_def)
qed

lemma given_copy_enclave [step]:
  assumes "\<And>ret w'. ret \<noteq> RMW_RET_OK \<Longrightarrow> given h e rs w' (f ((ret, nullptr), w')) Q"
    and "\<And>p w'. p \<noteq> nullptr \<Longrightarrow> h p = None \<Longrightarrow> given h e (Memory p (CString s) # rs) w' (f ((RMW_RET_OK, p), w')) Q"
  shows "given h e rs w (Option.bind (copy_enclave E s w) f) Q"
proof (cases "rmw_code E (trace w) (CopyEnclave s) = RMW_RET_OK")
  case False
  then show ?thesis using assms(1) [OF False, of "record_call (CopyEnclave s) w"]
    by (simp add: given_def copy_enclave_def call_rmw_def)
next
  case True
  let ?w = "record_call (CopyEnclave s) w"
  let ?w' = "?w\<lparr>next_ptr := next_ptr ?w + 1, heap := (heap ?w)(next_ptr ?w \<mapsto> CString s)\<rparr>"
  have "copy_enclave E s w = Some ((RMW_RET_OK, next_ptr ?w), ?w')"
    using True by (simp add: copy_enclave_def call_rmw_def)
  moreover have "post (f ((RMW_RET_OK, next_ptr ?w), ?w')) Q" if "ledger h e rs w"
  proof -
    have l: "ledger h e rs ?w" using that by simp
    show ?thesis
      using assms(2) [OF ledger_extend(2,3) [OF l], of ?w', unfolded given_def] ledger_extend(1) [OF l] by blast
  qed
  ultimately show ?thesis unfolding given_def by simp
qed

lemma given_fini_options:
  assumes "\<And>w'. given h e rs w' (f w') Q"
  shows "given h e (Entity kind p # rs) w (Option.bind (fini_options kind p w) f) Q"
proof (cases "p = nullptr")
  case True
  then show ?thesis using assms by (simp add: fini_options_def given_null_entity)
next
  case False
  then show ?thesis
    unfolding fini_options_def by (simp only: if_False) (intro step assms, assumption)
qed

lemma zero_init_options_simps [simp]:
  "enclave zero_init_options = nullptr" "discovery_options zero_init_options = nullptr"
  "security_options zero_init_options = nullptr" "options_identifier zero_init_options = NullIdentifier"
  by (simp_all add: zero_init_options_def)

text \<open>The resources of options, whose enclave is the string \<open>s\<close>.\<close>

definition options_resources :: "init_options \<Rightarrow> string \<Rightarrow> resource list" where
  "options_resources r s = [Memory (enclave r) (CString s), Entity DiscoveryOptionsEntity (discovery_options r),
     Entity SecurityOptionsEntity (security_options r)]"

lemma given_cleanup_options:
  assumes "\<And>w'. given h e rs w' (f w') Q"
  shows "given h e (options_resources r s @ rs) w (Option.bind (cleanup_options r w) f) Q"
  unfolding cleanup_options_def options_resources_def append.simps
  by (intro step given_fini_options assms)

text \<open>Where a copy fails, the members not copied yet hold nothing.\<close>

lemma given_null_memory: "given h e (Memory nullptr x # rs) w m Q = given h e rs w m Q"
  by (simp add: given_def)

lemma given_cleanup_partial:
  assumes "\<And>w'. given h e rs w' (f w') Q"
  shows "enclave r = nullptr \<Longrightarrow> discovery_options r = nullptr \<Longrightarrow> security_options r = nullptr \<Longrightarrow>
      given h e rs w (Option.bind (cleanup_options r w) f) Q"
    "enclave r = nullptr \<Longrightarrow> discovery_options r = nullptr \<Longrightarrow> security_options r = p \<Longrightarrow>
      given h e (Entity SecurityOptionsEntity p # rs) w (Option.bind (cleanup_options r w) f) Q"
    "enclave r = nullptr \<Longrightarrow> discovery_options r = q \<Longrightarrow> security_options r = p \<Longrightarrow>
      given h e (Entity DiscoveryOptionsEntity q # Entity SecurityOptionsEntity p # rs) w
        (Option.bind (cleanup_options r w) f) Q"
  using given_cleanup_options [where r = r and s = "''''", OF assms, of w]
  by (simp_all add: options_resources_def given_null_memory given_null_entity)

definition copied :: "init_options \<Rightarrow> init_options \<Rightarrow> bool" where
  "copied src r \<longleftrightarrow> options_identifier r = ZzddsIdentifier \<and> options_instance_id r = options_instance_id src \<and>
     options_domain_id r = options_domain_id src \<and> options_allocator_valid r = options_allocator_valid src \<and>
     enforce_security r = enforce_security src \<and> (enclave r = nullptr \<longleftrightarrow> enclave src = nullptr)"

lemma given_copy_options:
  assumes "enclave src \<noteq> nullptr \<Longrightarrow> h (enclave src) = Some (CString s)"
    and "\<And>ret w'. ret \<noteq> RMW_RET_OK \<Longrightarrow> given h e rs w' (f ((ret, zero_init_options), w')) Q"
    and "\<And>r w'. copied src r \<Longrightarrow> (enclave r \<noteq> nullptr \<Longrightarrow> h (enclave r) = None) \<Longrightarrow>
      given h e (options_resources r s @ rs) w' (f ((RMW_RET_OK, r), w')) Q"
  shows "given h e rs w (Option.bind (copy_options E src w) f) Q"
proof -
  have full: "given h e (Memory p (CString s) # Entity DiscoveryOptionsEntity d # Entity SecurityOptionsEntity q # rs) w'
      (f ((RMW_RET_OK, r), w')) Q"
    if "enclave r = p" "discovery_options r = d" "security_options r = q" "copied src r" "p \<noteq> nullptr \<Longrightarrow> h p = None"
    for p d q r w'
    using assms(3) [of r w'] that by (simp add: options_resources_def)
  have bare: "given h e (Entity DiscoveryOptionsEntity d # Entity SecurityOptionsEntity q # rs) w'
      (f ((RMW_RET_OK, r), w')) Q"
    if "enclave r = nullptr" "discovery_options r = d" "security_options r = q" "copied src r" for d q r w'
    using full [of r nullptr d q w'] that by (simp add: given_null_memory)
  show ?thesis
    unfolding copy_options_def
    apply (intro step given_cleanup_partial(2,3))
    apply (simp_all add: assms(1,2))
    apply (rule given_cleanup_partial(1), simp_all add: assms(2))
    apply (intro step given_cleanup_partial(2,3), simp_all add: assms(1,2))+
    apply (rule bare, simp_all add: copied_def)
    apply (rule given_cleanup_partial(3), simp_all add: assms(2))
    apply (rule full, simp_all add: copied_def)
    done
qed

section \<open>The life of init options\<close>

lemma fini_init_options_outcome:
  assumes "ledger (h(p \<mapsto> InitOptions r)) e (options_resources r s) w" "options_identifier r = ZzddsIdentifier" "p \<noteq> nullptr"
    and "h p = Some x"
  shows "post (rmw_init_options_fini p w) (\<lambda>(ret, w').
    ret = RMW_RET_OK \<and> ledger (h(p \<mapsto> InitOptions zero_init_options)) e [] w')"
proof -
  have "given (h(p \<mapsto> InitOptions r)) e (options_resources r s) w (Option.bind (cleanup_options r w)
      (\<lambda>w. Some (RMW_RET_OK, store p (InitOptions zero_init_options) w)))
      (\<lambda>(ret, w'). ret = RMW_RET_OK \<and> ledger (h(p \<mapsto> InitOptions zero_init_options)) e [] w')"
    using given_cleanup_options [of "h(p \<mapsto> InitOptions r)" e "[]" "\<lambda>w. Some (RMW_RET_OK, store p (InitOptions zero_init_options) w)"
        "\<lambda>(ret, w'). ret = RMW_RET_OK \<and> ledger (h(p \<mapsto> InitOptions zero_init_options)) e [] w'" r s w]
      ledger_update [of "h(p \<mapsto> InitOptions r)" e "[]" _ p _ "InitOptions zero_init_options"]
    by (simp add: given_def)
  moreover have "init_options_at p w = Some r"
    using ledger_old [OF assms(1), of p] by (simp add: init_options_at_def)
  ultimately show ?thesis
    using assms(1,2,3) by (simp add: rmw_init_options_fini_def fini_init_options_def given_def bind_assoc)
qed

lemma copy_options_outcome:
  assumes "wf_world w" "enclave s \<noteq> nullptr \<Longrightarrow> heap w (enclave s) = Some (CString name)"
  shows "post (copy_options E s w) (\<lambda>((ret, r), w').
    if ret \<noteq> RMW_RET_OK then r = zero_init_options \<and> ledger (heap w) (entities w) [] w'
    else copied s r \<and> (enclave r \<noteq> nullptr \<longrightarrow> heap w (enclave r) = None) \<and>
      ledger (heap w) (entities w) (options_resources r name) w')"
    (is "post _ ?Q")
proof -
  have "given (heap w) (entities w) [] w (Option.bind (copy_options E s w) Some) ?Q"
    by (rule given_copy_options [where s = name]) (use assms(2) in \<open>simp_all add: given_def\<close>)
  from given_start [OF assms(1) this] show ?thesis by simp
qed

text \<open>
  C40. Init options are values: a copy has the identifier, domain, instance, security enforcement and
  enclave name of its source but shares no memory with it. Whichever of the library's three copying
  functions fails, nothing is left behind and the destination is untouched; and finalising a copy
  gives all it holds back and leaves zero-initialised options.
\<close>

theorem init_options_copy_lifecycle:
  assumes "wf_world w" "heap w src = Some (InitOptions s)" "heap w dst = Some (InitOptions d)" "src \<noteq> dst"
    and "options_identifier s = ZzddsIdentifier" "options_identifier d = NullIdentifier" "options_allocator_valid s"
    and "enclave s \<noteq> nullptr \<Longrightarrow> heap w (enclave s) = Some (CString name)"
  shows "post (rmw_init_options_copy E src dst w) (\<lambda>(ret, w1).
    if ret \<noteq> RMW_RET_OK then heap w1 = heap w \<and> entities w1 = entities w
    else (\<exists>r. heap w1 dst = Some (InitOptions r) \<and> copied s r \<and>
        (enclave r \<noteq> nullptr \<longrightarrow> heap w (enclave r) = None \<and> heap w1 (enclave r) = Some (CString name))) \<and>
      post (rmw_init_options_fini dst w1) (\<lambda>(ret, w2). ret = RMW_RET_OK \<and>
        heap w2 = (heap w)(dst \<mapsto> InitOptions zero_init_options) \<and> entities w2 = entities w))"
proof -
  have nz: "src \<noteq> nullptr" "dst \<noteq> nullptr" using wf_worldD(3) [OF assms(1)] assms(2,3) by auto
  obtain ret r w1 where c: "copy_options E s w = Some ((ret, r), w1)"
    and o: "if ret \<noteq> RMW_RET_OK then r = zero_init_options \<and> ledger (heap w) (entities w) [] w1
      else copied s r \<and> (enclave r \<noteq> nullptr \<longrightarrow> heap w (enclave r) = None) \<and>
        ledger (heap w) (entities w) (options_resources r name) w1"
    using copy_options_outcome [OF assms(1,8)] by (fastforce simp: post_ex)
  have copy: "rmw_init_options_copy E src dst w =
      Some (ret, if ret = RMW_RET_OK then store dst (InitOptions r) w1 else w1)"
    using nz assms(2-7) c by (simp add: rmw_init_options_copy_def init_options_at_def)
  show ?thesis
  proof (cases "ret = RMW_RET_OK")
    case False
    with o copy show ?thesis by (auto dest: ledger_empty)
  next
    case True
    let ?w1 = "store dst (InitOptions r) w1"
    have l: "ledger ((heap w)(dst \<mapsto> InitOptions r)) (entities w) (options_resources r name) ?w1"
      using o True assms(3) by (auto intro: ledger_update)
    have "heap ?w1 (enclave r) = Some (CString name)" if "enclave r \<noteq> nullptr"
      using l that by (simp add: ledger_def options_resources_def)
    moreover have "post (rmw_init_options_fini dst ?w1) (\<lambda>(ret, w2). ret = RMW_RET_OK \<and>
        heap w2 = (heap w)(dst \<mapsto> InitOptions zero_init_options) \<and> entities w2 = entities w)"
      by (rule post_mono [OF fini_init_options_outcome [OF l _ nz(2) assms(3)]])
        (use o True in \<open>auto simp: copied_def dest: ledger_empty\<close>)
    ultimately show ?thesis using copy o True by auto
  qed
qed

definition example_options :: init_options where
  "example_options = zero_init_options\<lparr>options_instance_id := 3, options_identifier := ZzddsIdentifier,
     options_domain_id := 7, enclave := 12, options_allocator_valid := True\<rparr>"

definition options_world :: world where
  "options_world = \<lparr>heap = [10 \<mapsto> InitOptions example_options, 11 \<mapsto> InitOptions zero_init_options, 12 \<mapsto> CString ''/'',
       13 \<mapsto> Context \<lparr>context_identifier = NullIdentifier, context_impl_ptr = nullptr, settings = zero_settings\<rparr>],
     next_ptr = 20, entities = {#}, attached = (\<lambda>_. {}), trace = [], service_hash_override = None\<rparr>"

lemma options_world_simps:
  "wf_world options_world" "heap options_world 10 = Some (InitOptions example_options)"
  "heap options_world 11 = Some (InitOptions zero_init_options)" "heap options_world 12 = Some (CString ''/'')"
  "enclave example_options = 12" "options_identifier example_options = ZzddsIdentifier"
  "options_allocator_valid example_options"
  by (simp_all add: options_world_def wf_world_def example_options_def)

theorem init_options_copy_lifecycle_witness:
  "post (rmw_init_options_copy all_succeed 10 11 options_world) (\<lambda>(ret, w1).
    if ret \<noteq> RMW_RET_OK then heap w1 = heap options_world \<and> entities w1 = entities options_world
    else (\<exists>r. heap w1 11 = Some (InitOptions r) \<and> copied example_options r \<and>
        (enclave r \<noteq> nullptr \<longrightarrow> heap options_world (enclave r) = None \<and> heap w1 (enclave r) = Some (CString ''/''))) \<and>
      post (rmw_init_options_fini 11 w1) (\<lambda>(ret, w2). ret = RMW_RET_OK \<and>
        heap w2 = (heap options_world)(11 \<mapsto> InitOptions zero_init_options) \<and> entities w2 = entities options_world))"
  by (rule init_options_copy_lifecycle [OF options_world_simps(1-3)]) (simp_all add: options_world_simps)

end
