(* ===== verification/Discovery.thy ===== *)
theory Discovery
  imports Dds_Context
begin

text \<open>
  How a context learns of the endpoints of others (first half of \<^verbatim>\<open>graph_discovery.cpp\<close>): it takes the
  samples of the two built-in readers of its participant, one for writers and one for readers, keeps in
  a map which instance is which endpoint, and tells the graph cache what appeared and what is gone.

  No function here catches an exception: what the map's nodes, the strings or the graph cache throw when
  memory is short leaves the layer through \<^verbatim>\<open>refresh_discovered_endpoints\<close>. Such runs are not modelled;
  the map is updated and the cache answers.
\<close>

section \<open>Reading a sample\<close>

type_synonym instances = "instance_handle \<rightharpoonup> guid"

text \<open>
  The key hashes of all samples are one sequence of bytes, 16 for each; a hash that is not there
  leaves the zeros of \<^verbatim>\<open>gid{}\<close>. A participant's GUID is its endpoints' prefix with a fixed entity id.
\<close>

definition zero_guid :: guid where
  "zero_guid = replicate 16 0"

definition hash_bytes :: "uint8 list option \<Rightarrow> nat \<Rightarrow> nat \<Rightarrow> uint8 list option" where
  "hash_bytes hashes index n =
     (case hashes of
        None \<Rightarrow> None
      | Some bytes \<Rightarrow> if index * 16 + 16 \<le> length bytes then Some (take n (drop (index * 16) bytes)) else None)"

definition endpoint_gid :: "uint8 list option \<Rightarrow> nat \<Rightarrow> guid" where
  "endpoint_gid hashes index = (case hash_bytes hashes index 16 of None \<Rightarrow> zero_guid | Some g \<Rightarrow> g)"

definition endpoint_participant :: "uint8 list option \<Rightarrow> nat \<Rightarrow> guid" where
  "endpoint_participant hashes index =
     (case hash_bytes hashes index 12 of None \<Rightarrow> zero_guid | Some g \<Rightarrow> g @ [0x00, 0x00, 0x01, 0xc1])"

text \<open>
  \<open>readers\<close> tells which of the two types of data the bytes hold; a null buffer is not deserialized.
\<close>

definition deserialize_builtin :: "env \<Rightarrow> bool \<Rightarrow> uint8 list option \<Rightarrow> builtin_data option" where
  "deserialize_builtin E readers payload =
     (case payload of None \<Rightarrow> None | Some bytes \<Rightarrow> if cdr_readable E bytes then read_builtin E readers bytes else None)"

text \<open>The type hashes in the user data: \<open>None\<close> if they cannot be read, the second one is optional.\<close>

definition read_type_hashes :: "env \<Rightarrow> uint8 list \<Rightarrow> (type_hash \<times> type_hash option) option" where
  "read_type_hashes E user_data =
     (if user_data = [] then Some (0, None)
      else case parse_type_hash E user_data of
        None \<Rightarrow> None
      | Some type_hash \<Rightarrow>
          let (ret, service_hash) = parse_service_hash E user_data
          in if ret = RMW_RET_OK then Some (type_hash, Some service_hash)
             else if ret \<noteq> RMW_RET_UNSUPPORTED then None
             else Some (type_hash, None))"

text \<open>\<^verbatim>\<open>rmw_qos_profile_default\<close> of the library \<^verbatim>\<open>rmw\<close>, and what is known of an endpoint's QoS.\<close>

definition rmw_qos_profile_default :: rmw_qos_profile where
  "rmw_qos_profile_default = \<lparr>history = HISTORY_KEEP_LAST, depth = 10, reliability = RELIABILITY_RELIABLE,
     durability = DURABILITY_VOLATILE, deadline = \<lparr>time_sec = 0, time_nsec = 0\<rparr>,
     lifespan = \<lparr>time_sec = 0, time_nsec = 0\<rparr>, liveliness = LIVELINESS_SYSTEM_DEFAULT,
     liveliness_lease_duration = \<lparr>time_sec = 0, time_nsec = 0\<rparr>, avoid_ros_namespace_conventions = False\<rparr>"

definition discovered_qos :: "builtin_data \<Rightarrow> rmw_qos_profile" where
  "discovered_qos data = rmw_qos_profile_default
     \<lparr>reliability := (if data_reliable data then RELIABILITY_RELIABLE else RELIABILITY_BEST_EFFORT),
      durability := (if data_volatile data then DURABILITY_VOLATILE else DURABILITY_TRANSIENT_LOCAL),
      liveliness := (if data_automatic data then LIVELINESS_AUTOMATIC else LIVELINESS_MANUAL_BY_TOPIC)\<rparr>"

section \<open>One sample\<close>

text \<open>
  The loop's state is the result, the map and whether the graph changed. A sample without data says
  that its instance is gone.
\<close>

type_synonym progress = "rmw_ret \<times> instances \<times> bool"

definition instance_gone :: "env \<Rightarrow> bool \<Rightarrow> instance_handle \<Rightarrow> instances \<Rightarrow> bool \<Rightarrow> world \<Rightarrow> progress \<times> world" where
  "instance_gone E readers handle instances changed w =
     (case instances handle of
        None \<Rightarrow> ((RMW_RET_OK, instances, changed), w)
      | Some g \<Rightarrow>
          let (removed, w) = call_ok E (RemoveEntity g readers) w
          in ((RMW_RET_OK, instances(handle := None), removed \<or> changed), w))"

text \<open>The deserialized data is \<open>d\<close> until \<^verbatim>\<open>free_data\<close>. The graph channel's own endpoints do not count.\<close>

definition instance_seen ::
  "env \<Rightarrow> bool \<Rightarrow> guid \<Rightarrow> guid \<Rightarrow> builtin_data \<Rightarrow> ptr \<Rightarrow> instance_handle \<Rightarrow> instances \<Rightarrow> bool \<Rightarrow> world \<Rightarrow>
   progress result" where
  "instance_seen E readers endpoint owner data d handle instances changed w =
     (if data_topic_name data = Some ''rt/ros_discovery_info''
      then do { w \<leftarrow> destroy BuiltinData d w; Some ((RMW_RET_OK, instances, changed), w) }
      else case read_type_hashes E (data_user_data data) of
        None \<Rightarrow> do { w \<leftarrow> destroy BuiltinData d w; Some ((RMW_RET_ERROR, instances, changed), w) }
      | Some (type_hash, service_hash) \<Rightarrow> do {
          let w = snd (call_rmw E (AddParticipant owner '''') w);
          let (added, w) = call_ok E (AddDiscovered endpoint
            (case data_topic_name data of None \<Rightarrow> '''' | Some topic \<Rightarrow> topic)
            (case data_type_name data of None \<Rightarrow> '''' | Some type \<Rightarrow> type)
            type_hash owner (discovered_qos data) readers service_hash) w;
          w \<leftarrow> destroy BuiltinData d w;
          Some ((RMW_RET_OK, instances(handle \<mapsto> endpoint), added \<or> changed), w) })"

definition consume_sample ::
  "env \<Rightarrow> bool \<Rightarrow> builtin_take \<Rightarrow> nat \<Rightarrow> builtin_info \<Rightarrow> instances \<Rightarrow> bool \<Rightarrow> world \<Rightarrow> progress result" where
  "consume_sample E readers taken i info instances changed w =
     (if \<not> builtin_valid info then Some (instance_gone E readers (builtin_instance info) instances changed w)
      else if i \<ge> length (builtin_payloads taken) then Some ((RMW_RET_ERROR, instances, changed), w)
      else case deserialize_builtin E readers (builtin_payloads taken ! i) of
        None \<Rightarrow> Some ((RMW_RET_ERROR, instances, changed), w)
      | Some data \<Rightarrow> do {
          let (d, w) = hold BuiltinData w;
          instance_seen E readers (endpoint_gid (builtin_hashes taken) i) (endpoint_participant (builtin_hashes taken) i)
            data d (builtin_instance info) instances changed w })"

section \<open>A batch of samples\<close>

text \<open>The loop, left at the first sample that is in error.\<close>

fun consume_samples ::
  "env \<Rightarrow> bool \<Rightarrow> builtin_take \<Rightarrow> nat \<Rightarrow> builtin_info list \<Rightarrow> instances \<Rightarrow> bool \<Rightarrow> world \<Rightarrow> progress result" where
  "consume_samples E readers taken i [] instances changed w = Some ((RMW_RET_OK, instances, changed), w)"
| "consume_samples E readers taken i (info # infos) instances changed w = do {
     ((ret, instances, changed), w) \<leftarrow> consume_sample E readers taken i info instances changed w;
     if ret \<noteq> RMW_RET_OK then Some ((ret, instances, changed), w)
     else consume_samples E readers taken (Suc i) infos instances changed w }"

text \<open>
  \<^verbatim>\<open>consume_reader\<close>: the map and the flag that it takes by reference are passed in and out.
\<close>

definition consume_reader :: "env \<Rightarrow> bool \<Rightarrow> ptr \<Rightarrow> instances \<Rightarrow> bool \<Rightarrow> world \<Rightarrow> progress result" where
  "consume_reader E readers reader instances changed w = do {
     let taken = builtin_answer E (trace w) (TakeBuiltin reader);
     let (ret, w) = call_dds E (TakeBuiltin reader) w;
     if ret = DDS_RETCODE_NO_DATA then Some ((RMW_RET_OK, instances, changed), w)
     else if ret \<noteq> DDS_RETCODE_OK then Some ((RMW_RET_ERROR, instances, changed), w)
     else do {
       let (lent, w) = hold BuiltinLoan w;
       ((result, instances, changed), w) \<leftarrow>
         consume_samples E readers taken 0 (builtin_infos taken) instances changed w;
       (returned, w) \<leftarrow> delete E BuiltinLoan lent w;
       Some ((if result = RMW_RET_OK \<and> returned = DDS_RETCODE_OK then RMW_RET_OK else RMW_RET_ERROR,
              instances, changed), w) } }"

text \<open>
  From the lock of the context's mutex on. Readers are consumed only if the writers were.
\<close>

definition refresh_locked :: "env \<Rightarrow> ptr \<Rightarrow> ptr \<Rightarrow> ptr \<Rightarrow> world \<Rightarrow> rmw_ret result" where
  "refresh_locked E ci writer_topic reader_topic w = do {
     c \<leftarrow> context_impl_at ci w;
     ((result, instances, changed), w) \<leftarrow> consume_reader E False writer_topic (discovered_writers c) False w;
     w \<leftarrow> update_context (\<lambda>c. c\<lparr>discovered_writers := instances\<rparr>) ci w;
     ((result, changed), w) \<leftarrow> (if result = RMW_RET_OK
       then do {
         c \<leftarrow> context_impl_at ci w;
         ((result, instances, changed), w) \<leftarrow> consume_reader E True reader_topic (discovered_readers c) changed w;
         w \<leftarrow> update_context (\<lambda>c. c\<lparr>discovered_readers := instances\<rparr>) ci w;
         Some ((result, changed), w) }
       else Some ((result, changed), w));
     w \<leftarrow> (if result = RMW_RET_OK \<and> changed then notify_graph_change E ci w else Some w);
     Some (result, w) }"

definition refresh_discovered_endpoints :: "env \<Rightarrow> ptr \<Rightarrow> world \<Rightarrow> rmw_ret result" where
  "refresh_discovered_endpoints E ci w =
     (if ci = nullptr then Some (RMW_RET_INVALID_ARGUMENT, w)
      else do {
        c \<leftarrow> context_impl_at ci w;
        let (builtin, w) = call_handle E (BuiltinSubscriber (participant c)) w;
        if builtin = nullptr then Some (RMW_RET_ERROR, w)
        else do {
          let (writer_topic, w) = call_handle E (LookupReader builtin ''DCPSPublication'') w;
          let (reader_topic, w) = call_handle E (LookupReader builtin ''DCPSSubscription'') w;
          if writer_topic = nullptr \<or> reader_topic = nullptr then Some (RMW_RET_ERROR, w)
          else refresh_locked E ci writer_topic reader_topic w } })"

end
