(* ===== verification/Graph_Channel.thy ===== *)
theory Graph_Channel
  imports Node Wait_Set Publishing Taking Discovery
begin

text \<open>
  The channel on which contexts tell each other about their nodes (second half of
  \<^verbatim>\<open>graph_discovery.cpp\<close>): a node with a publisher and a subscription of its own, a guard condition, and
  a thread that waits for the messages of others.
\<close>

section \<open>The listener thread\<close>

text \<open>What the channel makes of the default QoS profile.\<close>

definition channel_qos :: rmw_qos_profile where
  "channel_qos = rmw_qos_profile_default\<lparr>history := HISTORY_KEEP_LAST, depth := 1,
     reliability := RELIABILITY_RELIABLE, durability := DURABILITY_TRANSIENT_LOCAL\<rparr>"

definition set_listener :: "listener \<Rightarrow> ptr \<Rightarrow> world \<Rightarrow> world option" where
  "set_listener l ci w = update_context (\<lambda>c. c\<lparr>listener_thread := l\<rparr>) ci w"

text \<open>The thread leaves its loop and destroys its wait set; from then on it only waits to be joined.\<close>

definition listener_exit :: "ptr \<Rightarrow> ptr \<Rightarrow> world \<Rightarrow> world option" where
  "listener_exit ci wait_set w = do {
     (_, w) \<leftarrow> rmw_destroy_wait_set wait_set w;
     set_listener (Listener nullptr) ci w }"

definition listener_arrays :: "ptr \<Rightarrow> ptr \<Rightarrow> wait_arrays" where
  "listener_arrays subscription_data guard =
     \<lparr>wait_subscriptions = Some \<lparr>entry_count = 1, entries = Some [subscription_data]\<rparr>,
      wait_guards = Some \<lparr>entry_count = 1, entries = Some [guard]\<rparr>,
      wait_services = None, wait_clients = None, wait_events = None\<rparr>"

text \<open>
  A message is taken into a local variable. Those of this context itself are ignored; others update the
  graph cache.
\<close>

definition listener_take :: "env \<Rightarrow> ptr \<Rightarrow> world \<Rightarrow> world option" where
  "listener_take E ci w = do {
     c \<leftarrow> context_impl_at ci w;
     s \<leftarrow> subscription_at (graph_subscription c) w;
     impl \<leftarrow> subscription_impl_at (handle_data s) w;
     let message = next_ptr w;
     let w = w\<lparr>next_ptr := next_ptr w + 1,
         heap := (heap w)(message \<mapsto> RosMessage (new_message (sub_callbacks impl)))\<rparr>;
     ((ret, taken), w) \<leftarrow> rmw_take E (graph_subscription c) message True w;
     v \<leftarrow> ros_message_at message w;
     w \<leftarrow> deallocate message w;
     if ret = RMW_RET_OK \<and> taken = Some True \<and> entities_gid E v \<noteq> common_gid c
     then notify_graph_change E ci (snd (call_rmw E (UpdateParticipantEntities v) w))
     else Some w }"

text \<open>
  One round of the thread's loop, interleaved with the other operations: it ends the loop when the
  thread is to stop or the wait fails.
\<close>

definition listener_round :: "env \<Rightarrow> ptr \<Rightarrow> world \<Rightarrow> world option" where
  "listener_round E ci w = do {
     c \<leftarrow> context_impl_at ci w;
     case listener_thread c of
       NoListener \<Rightarrow> Some w
     | Listener wait_set \<Rightarrow>
         if wait_set = nullptr then Some w
         else if \<not> listener_running c then listener_exit ci wait_set w
         else do {
           s \<leftarrow> subscription_at (graph_subscription c) w;
           g \<leftarrow> guard_handle_at (listener_guard c) w;
           ((ret, a), w) \<leftarrow> rmw_wait E (listener_arrays (handle_data s) (guard_data g)) wait_set None w;
           if ret \<noteq> RMW_RET_OK then listener_exit ci wait_set w
           else if array_entries (wait_subscriptions a) \<noteq> [nullptr] then listener_take E ci w
           else Some w } }"

text \<open>
  \<^verbatim>\<open>stop_graph_listener\<close>: the guard condition ends the wait, and joining the thread lets it leave its
  loop. Rounds it completes before that are steps of their own.
\<close>

definition join_listener :: "ptr \<Rightarrow> world \<Rightarrow> world option" where
  "join_listener ci w = do {
     c \<leftarrow> context_impl_at ci w;
     case listener_thread c of
       NoListener \<Rightarrow> Some w
     | Listener wait_set \<Rightarrow> do {
         w \<leftarrow> (if wait_set = nullptr then Some w else listener_exit ci wait_set w);
         set_listener NoListener ci w } }"

definition stop_graph_listener :: "env \<Rightarrow> ptr \<Rightarrow> world \<Rightarrow> world option" where
  "stop_graph_listener E ci w =
     (if ci = nullptr then Some w
      else do {
        w \<leftarrow> update_context (\<lambda>c. c\<lparr>listener_running := False\<rparr>) ci w;
        c \<leftarrow> context_impl_at ci w;
        w \<leftarrow> (if listener_guard c \<noteq> nullptr
             then do {
               (_, w) \<leftarrow> rmw_trigger_guard_condition E (listener_guard c) w;
               Some w }
             else Some w);
        join_listener ci w })"

section \<open>Closing and opening the channel\<close>

text \<open>The four parts of \<^verbatim>\<open>finalize_graph_channel\<close>: each destroys what there is and forgets it.\<close>

definition close_graph_subscription :: "env \<Rightarrow> ptr \<Rightarrow> rmw_ret \<Rightarrow> world \<Rightarrow> rmw_ret result" where
  "close_graph_subscription E ci result w = do {
     c \<leftarrow> context_impl_at ci w;
     if graph_subscription c = nullptr then Some (result, w)
     else do {
       (ret, w) \<leftarrow> rmw_destroy_subscription E (graph_node c) (graph_subscription c) w;
       w \<leftarrow> update_context (\<lambda>c. c\<lparr>graph_subscription := nullptr\<rparr>) ci w;
       Some (ret, w) } }"

definition close_graph_publisher :: "env \<Rightarrow> ptr \<Rightarrow> rmw_ret \<Rightarrow> world \<Rightarrow> rmw_ret result" where
  "close_graph_publisher E ci result w = do {
     c \<leftarrow> context_impl_at ci w;
     if graph_publisher c = nullptr then Some (result, w)
     else do {
       (ret, w) \<leftarrow> rmw_destroy_publisher E (graph_node c) (graph_publisher c) w;
       w \<leftarrow> update_context (\<lambda>c. c\<lparr>graph_publisher := nullptr\<rparr>) ci w;
       Some (if result = RMW_RET_OK then ret else result, w) } }"

definition close_listener_guard :: "ptr \<Rightarrow> rmw_ret \<Rightarrow> world \<Rightarrow> rmw_ret result" where
  "close_listener_guard ci result w = do {
     c \<leftarrow> context_impl_at ci w;
     if listener_guard c = nullptr then Some (result, w)
     else do {
       (ret, w) \<leftarrow> rmw_destroy_guard_condition (listener_guard c) w;
       w \<leftarrow> update_context (\<lambda>c. c\<lparr>listener_guard := nullptr\<rparr>) ci w;
       Some (if result = RMW_RET_OK then ret else result, w) } }"

definition close_graph_node :: "env \<Rightarrow> ptr \<Rightarrow> rmw_ret \<Rightarrow> world \<Rightarrow> rmw_ret result" where
  "close_graph_node E ci result w = do {
     c \<leftarrow> context_impl_at ci w;
     if graph_node c = nullptr then Some (result, w)
     else do {
       (ret, w) \<leftarrow> rmw_destroy_node E (graph_node c) w;
       w \<leftarrow> update_context (\<lambda>c. c\<lparr>graph_node := nullptr\<rparr>) ci w;
       Some (if result = RMW_RET_OK then ret else result, w) } }"

definition finalize_graph_channel :: "env \<Rightarrow> ptr \<Rightarrow> world \<Rightarrow> rmw_ret result" where
  "finalize_graph_channel E context w =
     (if context = nullptr then Some (RMW_RET_INVALID_ARGUMENT, w)
      else do {
        ctx \<leftarrow> context_at context w;
        let ci = context_impl_ptr ctx;
        if ci = nullptr then Some (RMW_RET_INVALID_ARGUMENT, w)
        else do {
          w \<leftarrow> stop_graph_listener E ci w;
          w \<leftarrow> update_context (\<lambda>c. c\<lparr>publish_callback := False, suppress_graph_updates := True\<rparr>) ci w;
          (result, w) \<leftarrow> close_graph_subscription E ci RMW_RET_OK w;
          (result, w) \<leftarrow> close_graph_publisher E ci result w;
          (result, w) \<leftarrow> close_listener_guard ci result w;
          (result, w) \<leftarrow> close_graph_node E ci result w;
          w \<leftarrow> update_context (\<lambda>c. c\<lparr>suppress_graph_updates := False\<rparr>) ci w;
          Some (result, w) } })"

text \<open>
  Starting the thread: allocating the promise and creating the thread may throw, and the thread's first
  action, which the starter waits for, is to create its wait set.
\<close>

definition start_listener :: "env \<Rightarrow> ptr \<Rightarrow> ptr \<Rightarrow> world \<Rightarrow> rmw_ret result" where
  "start_listener E context ci w = do {
     w \<leftarrow> update_context (\<lambda>c. c\<lparr>publish_callback := True, listener_running := True\<rparr>) ci w;
     let (room, w) = call_ok E GrowContainer w;
     let (started, w) = (if room then call_ok E StartThread w else (False, w));
     if \<not> started
     then do {
       w \<leftarrow> update_context (\<lambda>c. c\<lparr>listener_running := False\<rparr>) ci w;
       (_, w) \<leftarrow> finalize_graph_channel E context w;
       Some (RMW_RET_ERROR, w) }
     else do {
       c \<leftarrow> context_impl_at ci w;
       nh \<leftarrow> node_handle_at (graph_node c) w;
       (wait_set, w) \<leftarrow> rmw_create_wait_set E (node_context nh) 2 w;
       w \<leftarrow> set_listener (Listener wait_set) ci w;
       if wait_set = nullptr
       then do {
         w \<leftarrow> update_context (\<lambda>c. c\<lparr>listener_running := False\<rparr>) ci w;
         (_, w) \<leftarrow> finalize_graph_channel E context w;
         Some (RMW_RET_ERROR, w) }
       else Some (RMW_RET_OK, w) } }"

text \<open>
  \<open>ts\<close> is the generated type support of \<^verbatim>\<open>ParticipantEntitiesInfo\<close>. When an endpoint or the guard
  condition could not be created, the result is that of \<^verbatim>\<open>finalize_graph_channel\<close>.
\<close>

definition initialize_graph_channel :: "env \<Rightarrow> message_ts \<Rightarrow> ptr \<Rightarrow> world \<Rightarrow> rmw_ret result" where
  "initialize_graph_channel E ts context w =
     (if context = nullptr then Some (RMW_RET_INVALID_ARGUMENT, w)
      else do {
        ctx \<leftarrow> context_at context w;
        let ci = context_impl_ptr ctx;
        if ci = nullptr then Some (RMW_RET_INVALID_ARGUMENT, w)
        else do {
          w \<leftarrow> update_context (\<lambda>c. c\<lparr>suppress_graph_updates := True\<rparr>) ci w;
          (node, w) \<leftarrow> rmw_create_node E context (Some ''__rmw_zzdds_graph'') (Some ''/'') w;
          w \<leftarrow> update_context (\<lambda>c. c\<lparr>graph_node := node\<rparr>) ci w;
          if node = nullptr
          then do {
            w \<leftarrow> update_context (\<lambda>c. c\<lparr>suppress_graph_updates := False\<rparr>) ci w;
            Some (RMW_RET_ERROR, w) }
          else do {
            (pub, w) \<leftarrow> rmw_create_publisher E node (Some ts) (Some ''/ros_discovery_info'') (Some channel_qos)
              (Some default_publisher_options) w;
            w \<leftarrow> update_context (\<lambda>c. c\<lparr>graph_publisher := pub\<rparr>) ci w;
            (sub, w) \<leftarrow> rmw_create_subscription E node (Some ts) (Some ''/ros_discovery_info'') (Some channel_qos)
              (Some default_subscription_options) w;
            w \<leftarrow> update_context (\<lambda>c. c\<lparr>graph_subscription := sub, suppress_graph_updates := False\<rparr>) ci w;
            if pub = nullptr \<or> sub = nullptr then finalize_graph_channel E context w
            else do {
              (gc, w) \<leftarrow> rmw_create_guard_condition E context w;
              w \<leftarrow> update_context (\<lambda>c. c\<lparr>listener_guard := gc\<rparr>) ci w;
              if gc = nullptr then finalize_graph_channel E context w
              else start_listener E context ci w } } } })"

end
