(* ===== verification/Context_Init.thy ===== *)
theory Context_Init
  imports Graph_Channel
begin

text \<open>
  The second half of \<^verbatim>\<open>rmw_init.cpp\<close>: initialising a context, shutting it down and finalising it.
\<close>

section \<open>Initialising a context\<close>

text \<open>The constructor of \<^verbatim>\<open>ContextImpl\<close>.\<close>

definition new_context_impl :: "uint32 \<Rightarrow> context_impl" where
  "new_context_impl domain =
     \<lparr>factory = nullptr, dds_factory = nullptr, participant = nullptr, dds_publisher = nullptr, dds_subscriber = nullptr,
      local_publication_guids = {}, nodes = {}, publishers = {}, subscriptions = {}, clients = {}, services = {},
      discovered_writers = Map.empty, discovered_readers = Map.empty,
      graph_guard_native = nullptr, graph_guard_impl = nullptr, graph_guard_handle = nullptr, domain_id = domain,
      participant_gid = replicate 16 0, common_gid = replicate 16 0, graph_publisher = nullptr,
      graph_subscription = nullptr, listener_guard = nullptr, publish_callback = False, listener_running = False,
      listener_thread = NoListener, graph_node = nullptr, next_content_filter_id = 0, active_entities = 0,
      suppress_graph_updates = False, shutdown = False\<rparr>"

definition zero_context :: rmw_context where
  "zero_context = \<lparr>context_identifier = NullIdentifier, context_impl_ptr = nullptr, settings = zero_settings\<rparr>"

text \<open>\<^verbatim>\<open>RMW_DEFAULT_DOMAIN_ID\<close> is the largest \<^verbatim>\<open>size_t\<close>.\<close>

definition effective_domain :: "size_t \<Rightarrow> size_t" where
  "effective_domain d = (if d = - 1 then 0 else d)"

definition uint32_max :: size_t where
  "uint32_max = 4294967295"

text \<open>The argument checks: a code if one fails, in the order of the code.\<close>

definition check_init :: "init_options \<Rightarrow> rmw_context \<Rightarrow> rmw_ret option" where
  "check_init options ctx =
     (if options_identifier options = NullIdentifier \<or> enclave options = nullptr then Some RMW_RET_INVALID_ARGUMENT
      else if options_identifier options \<noteq> ZzddsIdentifier then Some RMW_RET_INCORRECT_RMW_IMPLEMENTATION
      else if context_identifier ctx \<noteq> NullIdentifier \<or> context_impl_ptr ctx \<noteq> nullptr then Some RMW_RET_INVALID_ARGUMENT
      else if enforce_security options then Some RMW_RET_UNSUPPORTED
      else if effective_domain (options_domain_id options) > uint32_max then Some RMW_RET_INVALID_ARGUMENT
      else None)"

text \<open>
  The releases of the failing branches. Before the context handle is filled in: the implementation and
  the copied options. After that: the graph guard, the DDS entities, the implementation, the options
  of the handle, which is zeroed.
\<close>

definition abandon_impl :: "env \<Rightarrow> ptr \<Rightarrow> init_options \<Rightarrow> world \<Rightarrow> world option" where
  "abandon_impl E ci options w = do {
     w \<leftarrow> destroy_context_impl E ci w;
     cleanup_options options w }"

definition abandon_context :: "env \<Rightarrow> ptr \<Rightarrow> ptr \<Rightarrow> init_options \<Rightarrow> world \<Rightarrow> world option" where
  "abandon_context E context ci options w = do {
     c \<leftarrow> context_impl_at ci w;
     w \<leftarrow> deallocate_object (graph_guard_handle c) w;
     w \<leftarrow> deallocate_object (graph_guard_impl c) w;
     w \<leftarrow> (if graph_guard_native c \<noteq> nullptr then destroy GuardConditionEntity (graph_guard_native c) w else Some w);
     (_, w) \<leftarrow> dds_reset E ci w;
     w \<leftarrow> destroy_context_impl E ci w;
     w \<leftarrow> cleanup_options options w;
     Some (store context (Context zero_context) w) }"

text \<open>From the graph guard on.\<close>

definition open_graph ::
  "env \<Rightarrow> message_ts \<Rightarrow> ptr \<Rightarrow> ptr \<Rightarrow> init_options \<Rightarrow> world \<Rightarrow> rmw_ret result" where
  "open_graph E ts context ci options w = do {
     let (native, w) = create E GuardConditionEntity plain w;
     w \<leftarrow> update_context (\<lambda>c. c\<lparr>graph_guard_native := native\<rparr>) ci w;
     let (impl, w) = allocate_object E (GuardImpl \<lparr>guard_context = context, guard_native = native\<rparr>) w;
     w \<leftarrow> update_context (\<lambda>c. c\<lparr>graph_guard_impl := impl\<rparr>) ci w;
     let (handle, w) = allocate_object E (GuardHandle zero_guard_handle) w;
     w \<leftarrow> update_context (\<lambda>c. c\<lparr>graph_guard_handle := handle\<rparr>) ci w;
     if native = nullptr \<or> impl = nullptr \<or> handle = nullptr
     then do {
       w \<leftarrow> abandon_context E context ci options w;
       Some (RMW_RET_BAD_ALLOC, w) }
     else do {
       let w = store handle (GuardHandle \<lparr>guard_identifier = ZzddsIdentifier, guard_data = impl,
                                          guard_handle_context = context\<rparr>) w;
       (ret, w) \<leftarrow> initialize_graph_channel E ts context w;
       if ret \<noteq> RMW_RET_OK
       then do {
         w \<leftarrow> abandon_context E context ci options w;
         Some (ret, w) }
       else Some (RMW_RET_OK, w) } }"

definition set_gid :: "guid \<Rightarrow> context_impl \<Rightarrow> context_impl" where
  "set_gid g c = c\<lparr>participant_gid := g, common_gid := g\<rparr>"

text \<open>\<open>copied\<close> are the copied options, \<open>name\<close> is the enclave.\<close>

definition open_context ::
  "env \<Rightarrow> message_ts \<Rightarrow> ptr \<Rightarrow> ptr \<Rightarrow> init_options \<Rightarrow> size_t \<Rightarrow> init_options \<Rightarrow> string \<Rightarrow> world \<Rightarrow> rmw_ret result" where
  "open_context E ts context ci options domain copy name w = do {
     (good, w) \<leftarrow> dds_initialize E ci w;
     if \<not> good
     then do { w \<leftarrow> abandon_impl E ci copy w; Some (RMW_RET_ERROR, w) }
     else do {
       c \<leftarrow> context_impl_at ci w;
       let (answer, w) = call_guid E (ParticipantGuid (participant c)) w;
       case answer of
         None \<Rightarrow> do {
           (_, w) \<leftarrow> dds_reset E ci w;
           w \<leftarrow> abandon_impl E ci copy w;
           Some (RMW_RET_ERROR, w) }
       | Some g \<Rightarrow> do {
           w \<leftarrow> update_context (set_gid g) ci w;
           let w = snd (call_rmw E (AddParticipant g name) w);
           _ \<leftarrow> context_at context w;
           let w = store context (Context \<lparr>context_identifier = ZzddsIdentifier, context_impl_ptr = ci,
             settings = \<lparr>instance_id = options_instance_id options, settings_options = copy,
                         actual_domain_id = domain\<rparr>\<rparr>) w;
           open_graph E ts context ci copy w } } }"

definition rmw_init :: "env \<Rightarrow> message_ts \<Rightarrow> ptr \<Rightarrow> ptr \<Rightarrow> world \<Rightarrow> rmw_ret result" where
  "rmw_init E ts options context w =
     (if options = nullptr \<or> context = nullptr then Some (RMW_RET_INVALID_ARGUMENT, w)
      else do {
        opt \<leftarrow> init_options_at options w;
        ctx \<leftarrow> context_at context w;
        case check_init opt ctx of
          Some ret \<Rightarrow> Some (ret, w)
        | None \<Rightarrow> do {
            let domain = effective_domain (options_domain_id opt);
            ((ret, copy), w) \<leftarrow> copy_options E opt w;
            if ret \<noteq> RMW_RET_OK then Some (ret, w)
            else do {
              let (ci, w) = allocate_object E (ContextImpl (new_context_impl (ucast domain))) w;
              if ci = nullptr
              then do { w \<leftarrow> cleanup_options copy w; Some (RMW_RET_BAD_ALLOC, w) }
              else do {
                name \<leftarrow> c_string_at (enclave opt) w;
                open_context E ts context ci opt domain copy name w } } } })"

section \<open>Shutting down and finalising\<close>

definition check_context :: "rmw_context \<Rightarrow> rmw_ret option" where
  "check_context ctx =
     (if context_identifier ctx = NullIdentifier \<or> context_impl_ptr ctx = nullptr then Some RMW_RET_INVALID_ARGUMENT
      else if context_identifier ctx \<noteq> ZzddsIdentifier then Some RMW_RET_INCORRECT_RMW_IMPLEMENTATION
      else None)"

definition rmw_shutdown :: "env \<Rightarrow> ptr \<Rightarrow> world \<Rightarrow> rmw_ret result" where
  "rmw_shutdown E context w =
     (if context = nullptr then Some (RMW_RET_INVALID_ARGUMENT, w)
      else do {
        ctx \<leftarrow> context_at context w;
        case check_context ctx of
          Some ret \<Rightarrow> Some (ret, w)
        | None \<Rightarrow> do {
            w \<leftarrow> update_context (\<lambda>c. c\<lparr>shutdown := True\<rparr>) (context_impl_ptr ctx) w;
            w \<leftarrow> stop_graph_listener E (context_impl_ptr ctx) w;
            Some (RMW_RET_OK, w) } })"

text \<open>Everything after the checks of \<^verbatim>\<open>rmw_context_fini\<close>.\<close>

definition close_context :: "env \<Rightarrow> ptr \<Rightarrow> rmw_context \<Rightarrow> world \<Rightarrow> rmw_ret result" where
  "close_context E context ctx w = do {
     let ci = context_impl_ptr ctx;
     c \<leftarrow> context_impl_at ci w;
     w \<leftarrow> deallocate_object (graph_guard_handle c) w;
     w \<leftarrow> deallocate_object (graph_guard_impl c) w;
     w \<leftarrow> destroy GuardConditionEntity (graph_guard_native c) w;
     (closed, w) \<leftarrow> dds_reset E ci w;
     w \<leftarrow> destroy_context_impl E ci w;
     ((ret, _), w) \<leftarrow> fini_init_options (settings_options (settings ctx)) w;
     let w = store context (Context zero_context) w;
     Some (if \<not> closed then RMW_RET_ERROR else ret, w) }"

definition rmw_context_fini :: "env \<Rightarrow> ptr \<Rightarrow> world \<Rightarrow> rmw_ret result" where
  "rmw_context_fini E context w =
     (if context = nullptr then Some (RMW_RET_INVALID_ARGUMENT, w)
      else do {
        ctx \<leftarrow> context_at context w;
        case check_context ctx of
          Some ret \<Rightarrow> Some (ret, w)
        | None \<Rightarrow> do {
            (graph_ret, w) \<leftarrow> finalize_graph_channel E context w;
            if graph_ret \<noteq> RMW_RET_OK then Some (graph_ret, w)
            else do {
              c \<leftarrow> context_impl_at (context_impl_ptr ctx) w;
              if \<not> shutdown c then Some (RMW_RET_INVALID_ARGUMENT, w)
              else if active_entities c \<noteq> 0 then Some (RMW_RET_INVALID_ARGUMENT, w)
              else close_context E context ctx w } } })"

end
