(* ===== verification/Graph.thy ===== *)
theory Graph
  imports Discovery Node
begin

text \<open>
  The queries of \<^verbatim>\<open>rmw_graph.cpp\<close>: each checks its arguments, refreshes what is known of other endpoints
  and reads the graph cache, which is external. Its answers go to arrays that the caller finalises, or
  to temporary ones that the query finalises itself.
\<close>

section \<open>Arguments and answers\<close>

text \<open>
  An output argument is \<open>None\<close> for a null pointer and otherwise tells whether the structure is
  zero-initialised; an allocator argument tells whether it is valid. What a query writes to an output
  is an array: the resources it holds (0: zero-initialised) with its elements.
\<close>

type_synonym out_arg = "bool option"
type_synonym allocator = "bool option"
type_synonym 'a filled = "ptr \<times> 'a list"
type_synonym names_filled = "(string \<times> string list) filled"

definition zero_array :: "'a filled" where
  "zero_array = (nullptr, [])"

text \<open>\<^verbatim>\<open>..._fini\<close>: finalising a zero-initialised array does nothing.\<close>

definition fini_array :: "entity_kind \<Rightarrow> 'a filled \<Rightarrow> world \<Rightarrow> world option" where
  "fini_array kind a w = (if fst a = nullptr then Some w else destroy kind (fst a) w)"

text \<open>A query of the graph cache: its elements are in an array if it succeeds.\<close>

definition cache_array :: "env \<Rightarrow> entity_kind \<Rightarrow> call \<Rightarrow> 'a list \<Rightarrow> world \<Rightarrow> (rmw_ret \<times> 'a filled) result" where
  "cache_array E kind c elements w =
     (let (ret, w) = call_rmw E c w
      in if ret \<noteq> RMW_RET_OK then Some ((ret, zero_array), w)
         else let (p, w) = hold kind w in Some ((RMW_RET_OK, (p, elements)), w))"

definition cache_names ::
  "env \<Rightarrow> call \<Rightarrow> (string \<Rightarrow> string) \<Rightarrow> (string \<Rightarrow> string) \<Rightarrow> world \<Rightarrow> (rmw_ret \<times> names_filled) result" where
  "cache_names E c demangle_topic demangle_type w =
     cache_array E NamesAndTypes c (names_answer E (trace w) c demangle_topic demangle_type) w"

definition cache_infos ::
  "env \<Rightarrow> entity_kind \<Rightarrow> call \<Rightarrow> (string \<Rightarrow> string) \<Rightarrow> world \<Rightarrow> (rmw_ret \<times> nat filled) result" where
  "cache_infos E kind c demangle_type w = cache_array E kind c (infos_answer E (trace w) c demangle_type) w"

definition cache_nodes :: "env \<Rightarrow> bool \<Rightarrow> world \<Rightarrow> (rmw_ret \<times> (string \<times> string \<times> string) filled) result" where
  "cache_nodes E enclaves w =
     cache_array E StringArrays (CacheNodes enclaves) (node_names_answer E (trace w) (CacheNodes enclaves)) w"

section \<open>Checks\<close>

text \<open>What all checks begin with; \<open>given\<close> is whether the other pointers are not null.\<close>

definition check_query :: "ptr \<Rightarrow> bool \<Rightarrow> world \<Rightarrow> rmw_ret option" where
  "check_query node others w =
     (if node = nullptr then Some RMW_RET_INVALID_ARGUMENT
      else do {
        nh \<leftarrow> node_handle_at node w;
        if node_data nh = nullptr \<or> node_context nh = nullptr then Some RMW_RET_INVALID_ARGUMENT
        else do {
          ctx \<leftarrow> context_at (node_context nh) w;
          Some (if context_impl_ptr ctx = nullptr \<or> \<not> others then RMW_RET_INVALID_ARGUMENT
                else if node_identifier nh \<noteq> ZzddsIdentifier then RMW_RET_INCORRECT_RMW_IMPLEMENTATION
                else RMW_RET_OK) } })"

definition context_of :: "ptr \<Rightarrow> world \<Rightarrow> ptr option" where
  "context_of node w = do {
     nh \<leftarrow> node_handle_at node w;
     ctx \<leftarrow> context_at (node_context nh) w;
     Some (context_impl_ptr ctx) }"

definition validate_count_arguments :: "env \<Rightarrow> ptr \<Rightarrow> string option \<Rightarrow> bool \<Rightarrow> world \<Rightarrow> rmw_ret result" where
  "validate_count_arguments E node name counter w = do {
     ret \<leftarrow> check_query node (name \<noteq> None \<and> counter) w;
     if ret \<noteq> RMW_RET_OK then Some (ret, w)
     else case name of
       None \<Rightarrow> Some (ret, w)
     | Some name \<Rightarrow>
         let (valid, w) = call_ok E (ValidateTopicName name) w
         in Some (if valid then RMW_RET_OK else RMW_RET_INVALID_ARGUMENT, w) }"

definition validate_names_and_types_arguments :: "ptr \<Rightarrow> allocator \<Rightarrow> out_arg \<Rightarrow> world \<Rightarrow> rmw_ret option" where
  "validate_names_and_types_arguments node allocator out w = do {
     ret \<leftarrow> check_query node (allocator \<noteq> None \<and> out \<noteq> None) w;
     Some (if ret \<noteq> RMW_RET_OK then ret
           else if allocator \<noteq> Some True then RMW_RET_INVALID_ARGUMENT
           else if out \<noteq> Some True then RMW_RET_INVALID_ARGUMENT
           else RMW_RET_OK) }"

definition validate_queried_node :: "env \<Rightarrow> string option \<Rightarrow> string option \<Rightarrow> world \<Rightarrow> rmw_ret result" where
  "validate_queried_node E name namespace w =
     (case (name, namespace) of
        (Some name, Some namespace) \<Rightarrow>
          let (valid, w) = call_ok E (ValidateNodeName name) w
          in if \<not> valid then Some (RMW_RET_INVALID_ARGUMENT, w)
             else let (valid, w) = call_ok E (ValidateNamespace namespace) w
               in Some (if valid then RMW_RET_OK else RMW_RET_INVALID_ARGUMENT, w)
      | _ \<Rightarrow> Some (RMW_RET_INVALID_ARGUMENT, w))"

definition validate_endpoint_arguments ::
  "ptr \<Rightarrow> allocator \<Rightarrow> string option \<Rightarrow> out_arg \<Rightarrow> world \<Rightarrow> rmw_ret option" where
  "validate_endpoint_arguments node allocator name out w = do {
     ret \<leftarrow> check_query node (allocator \<noteq> None \<and> name \<noteq> None \<and> out \<noteq> None) w;
     Some (if ret \<noteq> RMW_RET_OK then ret
           else if allocator \<noteq> Some True then RMW_RET_INVALID_ARGUMENT
           else RMW_RET_OK) }"

text \<open>The context of a checked node, after the refresh that every query begins with.\<close>

definition refresh_for :: "env \<Rightarrow> ptr \<Rightarrow> world \<Rightarrow> rmw_ret result" where
  "refresh_for E node w = do {
     ci \<leftarrow> context_of node w;
     refresh_discovered_endpoints E ci w }"

section \<open>Nodes\<close>

definition rmw_node_get_graph_guard_condition :: "ptr \<Rightarrow> world \<Rightarrow> ptr option" where
  "rmw_node_get_graph_guard_condition node w = do {
     ret \<leftarrow> check_query node True w;
     if ret \<noteq> RMW_RET_OK then Some nullptr
     else do {
       ci \<leftarrow> context_of node w;
       c \<leftarrow> context_impl_at ci w;
       Some (graph_guard_handle c) } }"

definition get_node_names_impl ::
  "env \<Rightarrow> ptr \<Rightarrow> out_arg \<Rightarrow> out_arg \<Rightarrow> out_arg \<Rightarrow> world \<Rightarrow> (rmw_ret \<times> (string \<times> string \<times> string) filled) result" where
  "get_node_names_impl E node names namespaces enclaves w = do {
     ret \<leftarrow> check_query node (names \<noteq> None \<and> namespaces \<noteq> None) w;
     if ret \<noteq> RMW_RET_OK then Some ((ret, zero_array), w)
     else if names \<noteq> Some True then Some ((RMW_RET_INVALID_ARGUMENT, zero_array), w)
     else if namespaces \<noteq> Some True then Some ((RMW_RET_INVALID_ARGUMENT, zero_array), w)
     else if enclaves = Some False then Some ((RMW_RET_INVALID_ARGUMENT, zero_array), w)
     else do {
       (refresh, w) \<leftarrow> refresh_for E node w;
       if refresh \<noteq> RMW_RET_OK then Some ((refresh, zero_array), w)
       else cache_nodes E (enclaves \<noteq> None) w } }"

definition rmw_get_node_names ::
  "env \<Rightarrow> ptr \<Rightarrow> out_arg \<Rightarrow> out_arg \<Rightarrow> world \<Rightarrow> (rmw_ret \<times> (string \<times> string \<times> string) filled) result" where
  "rmw_get_node_names E node names namespaces w = get_node_names_impl E node names namespaces None w"

definition rmw_get_node_names_with_enclaves ::
  "env \<Rightarrow> ptr \<Rightarrow> out_arg \<Rightarrow> out_arg \<Rightarrow> out_arg \<Rightarrow> world \<Rightarrow> (rmw_ret \<times> (string \<times> string \<times> string) filled) result" where
  "rmw_get_node_names_with_enclaves E node names namespaces enclaves w =
     (if enclaves = None then Some ((RMW_RET_INVALID_ARGUMENT, zero_array), w)
      else get_node_names_impl E node names namespaces enclaves w)"

section \<open>Topics\<close>

definition rmw_get_topic_names_and_types ::
  "env \<Rightarrow> ptr \<Rightarrow> allocator \<Rightarrow> bool \<Rightarrow> out_arg \<Rightarrow> world \<Rightarrow> (rmw_ret \<times> names_filled) result" where
  "rmw_get_topic_names_and_types E node allocator no_demangle out w = do {
     validation \<leftarrow> validate_names_and_types_arguments node allocator out w;
     if validation \<noteq> RMW_RET_OK then Some ((validation, zero_array), w)
     else do {
       (refresh, w) \<leftarrow> refresh_for E node w;
       if refresh \<noteq> RMW_RET_OK then Some ((refresh, zero_array), w)
       else cache_names E CacheNames (if no_demangle then identity_name else demangle_dds_topic)
         (if no_demangle then identity_name else demangle_dds_type) w } }"

text \<open>The checks and the refresh that all queries by node have in common; then \<open>query\<close>.\<close>

definition by_node ::
  "env \<Rightarrow> ptr \<Rightarrow> allocator \<Rightarrow> string option \<Rightarrow> string option \<Rightarrow> out_arg \<Rightarrow>
   (string \<Rightarrow> string \<Rightarrow> world \<Rightarrow> (rmw_ret \<times> names_filled) result) \<Rightarrow> world \<Rightarrow> (rmw_ret \<times> names_filled) result" where
  "by_node E node allocator queried_name queried_namespace out query w = do {
     validation \<leftarrow> validate_names_and_types_arguments node allocator out w;
     if validation \<noteq> RMW_RET_OK then Some ((validation, zero_array), w)
     else do {
       (node_validation, w) \<leftarrow> validate_queried_node E queried_name queried_namespace w;
       if node_validation \<noteq> RMW_RET_OK then Some ((node_validation, zero_array), w)
       else do {
         name \<leftarrow> queried_name;
         namespace \<leftarrow> queried_namespace;
         (refresh, w) \<leftarrow> refresh_for E node w;
         if refresh \<noteq> RMW_RET_OK then Some ((refresh, zero_array), w)
         else query name namespace w } } }"

definition rmw_get_publisher_names_and_types_by_node ::
  "env \<Rightarrow> ptr \<Rightarrow> allocator \<Rightarrow> string option \<Rightarrow> string option \<Rightarrow> bool \<Rightarrow> out_arg \<Rightarrow> world \<Rightarrow>
   (rmw_ret \<times> names_filled) result" where
  "rmw_get_publisher_names_and_types_by_node E node allocator queried_name queried_namespace no_demangle out w =
     by_node E node allocator queried_name queried_namespace out
       (\<lambda>name namespace. cache_names E (CacheWritersByNode name namespace)
          (if no_demangle then identity_name else demangle_dds_topic)
          (if no_demangle then identity_name else demangle_dds_type)) w"

definition rmw_get_subscriber_names_and_types_by_node ::
  "env \<Rightarrow> ptr \<Rightarrow> allocator \<Rightarrow> string option \<Rightarrow> string option \<Rightarrow> bool \<Rightarrow> out_arg \<Rightarrow> world \<Rightarrow>
   (rmw_ret \<times> names_filled) result" where
  "rmw_get_subscriber_names_and_types_by_node E node allocator queried_name queried_namespace no_demangle out w =
     by_node E node allocator queried_name queried_namespace out
       (\<lambda>name namespace. cache_names E (CacheReadersByNode name namespace)
          (if no_demangle then identity_name else demangle_dds_topic)
          (if no_demangle then identity_name else demangle_dds_type)) w"

section \<open>Services\<close>

text \<open>
  \<^verbatim>\<open>fill_names_and_types\<close>: every string is a copy of its own, and so is every array of types. A copy
  that fails finalises the whole output.
\<close>

fun fill_types :: "env \<Rightarrow> string list \<Rightarrow> world \<Rightarrow> bool \<times> world" where
  "fill_types E [] w = (True, w)"
| "fill_types E (type # types) w =
     (let (copied, w) = call_ok E AllocateMemory w
      in if \<not> copied then (False, w) else fill_types E types w)"

fun fill_entries :: "env \<Rightarrow> names_and_types \<Rightarrow> world \<Rightarrow> bool \<times> world" where
  "fill_entries E [] w = (True, w)"
| "fill_entries E ((name, types) # values) w =
     (let (copied, w) = call_ok E AllocateMemory w
      in if \<not> copied then (False, w)
         else let (room, w) = call_ok E (InitArray (length types)) w
           in if \<not> room then (False, w)
              else let (filled, w) = fill_types E types w
                in if \<not> filled then (False, w) else fill_entries E values w)"

definition fill_names_and_types :: "env \<Rightarrow> names_and_types \<Rightarrow> world \<Rightarrow> (rmw_ret \<times> names_filled) result" where
  "fill_names_and_types E values w =
     (let (p, w) = create E NamesAndTypes plain w
      in if p = nullptr then Some ((RMW_RET_BAD_ALLOC, zero_array), w)
         else let (filled, w) = fill_entries E values w
           in if \<not> filled
              then do { w \<leftarrow> destroy NamesAndTypes p w; Some ((RMW_RET_BAD_ALLOC, zero_array), w) }
              else Some ((RMW_RET_OK, (p, values)), w))"

text \<open>The \<^verbatim>\<open>try\<close> block: building the maps may throw \<^verbatim>\<open>std::bad_alloc\<close>.\<close>

definition list_services ::
  "env \<Rightarrow> (string \<times> string list) list \<Rightarrow> (string \<times> string list) list \<Rightarrow> world \<Rightarrow> (rmw_ret \<times> names_filled) result"
  where
  "list_services E requests replies w =
     (let (room, w) = call_ok E GrowContainer w
      in if \<not> room then Some ((RMW_RET_BAD_ALLOC, zero_array), w)
         else fill_names_and_types E (intersect_services (extract_service_topics requests ''rt/rq'' ''Request'')
                                        (extract_service_topics replies ''rt/rr'' ''Reply'')) w)"

text \<open>A client writes requests and reads replies, a service the other way round.\<close>

definition request_query :: "bool \<Rightarrow> string \<Rightarrow> string \<Rightarrow> call" where
  "request_query as_client name namespace =
     (if as_client then CacheWritersByNode name namespace else CacheReadersByNode name namespace)"

definition reply_query :: "bool \<Rightarrow> string \<Rightarrow> string \<Rightarrow> call" where
  "reply_query as_client name namespace =
     (if as_client then CacheReadersByNode name namespace else CacheWritersByNode name namespace)"

definition get_service_names_and_types_from_cache ::
  "env \<Rightarrow> bool \<Rightarrow> string \<Rightarrow> string \<Rightarrow> world \<Rightarrow> (rmw_ret \<times> names_filled) result" where
  "get_service_names_and_types_from_cache E as_client name namespace w = do {
     ((result, requests), w) \<leftarrow> cache_names E (request_query as_client name namespace) identity_name identity_name w;
     ((result, replies), w) \<leftarrow> (if result = RMW_RET_OK
       then cache_names E (reply_query as_client name namespace) identity_name identity_name w
       else Some ((result, zero_array), w));
     ((result, out), w) \<leftarrow> (if result = RMW_RET_OK
       then list_services E (snd requests) (snd replies) w
       else Some ((result, zero_array), w));
     w \<leftarrow> fini_array NamesAndTypes replies w;
     w \<leftarrow> fini_array NamesAndTypes requests w;
     Some ((result, out), w) }"

text \<open>The services of one node join those found; this may throw \<^verbatim>\<open>std::bad_alloc\<close> as well.\<close>

definition merge_found ::
  "env \<Rightarrow> names_and_types \<Rightarrow> names_and_types \<Rightarrow> world \<Rightarrow> (rmw_ret \<times> names_and_types) result" where
  "merge_found E node_services found w =
     (let (room, w) = call_ok E GrowContainer w
      in if room then Some ((RMW_RET_OK, merge_services node_services found), w)
         else Some ((RMW_RET_BAD_ALLOC, found), w))"

text \<open>The loop over all nodes, left at the first one whose found cannot be told.\<close>

fun collect_services ::
  "env \<Rightarrow> (string \<times> string \<times> string) list \<Rightarrow> names_and_types \<Rightarrow> world \<Rightarrow> (rmw_ret \<times> names_and_types) result" where
  "collect_services E [] found w = Some ((RMW_RET_OK, found), w)"
| "collect_services E ((name, namespace, e) # rest) found w = do {
     ((result, node_services), w) \<leftarrow> get_service_names_and_types_from_cache E False name namespace w;
     ((result, found), w) \<leftarrow> (if result = RMW_RET_OK
       then merge_found E (snd node_services) found w
       else Some ((result, found), w));
     w \<leftarrow> fini_array NamesAndTypes node_services w;
     if result \<noteq> RMW_RET_OK then Some ((result, found), w)
     else collect_services E rest found w }"

definition rmw_get_service_names_and_types ::
  "env \<Rightarrow> ptr \<Rightarrow> allocator \<Rightarrow> out_arg \<Rightarrow> world \<Rightarrow> (rmw_ret \<times> names_filled) result" where
  "rmw_get_service_names_and_types E node allocator out w = do {
     validation \<leftarrow> validate_names_and_types_arguments node allocator out w;
     if validation \<noteq> RMW_RET_OK then Some ((validation, zero_array), w)
     else do {
       (refresh, w) \<leftarrow> refresh_for E node w;
       if refresh \<noteq> RMW_RET_OK then Some ((refresh, zero_array), w)
       else do {
         ((result, names), w) \<leftarrow> cache_nodes E False w;
         ((result, found), w) \<leftarrow> (if result = RMW_RET_OK then collect_services E (snd names) [] w
           else Some ((result, []), w));
         ((result, filled), w) \<leftarrow> (if result = RMW_RET_OK then fill_names_and_types E found w
           else Some ((result, zero_array), w));
         w \<leftarrow> fini_array StringArrays names w;
         Some ((result, filled), w) } } }"

definition rmw_get_service_names_and_types_by_node ::
  "env \<Rightarrow> ptr \<Rightarrow> allocator \<Rightarrow> string option \<Rightarrow> string option \<Rightarrow> out_arg \<Rightarrow> world \<Rightarrow> (rmw_ret \<times> names_filled) result" where
  "rmw_get_service_names_and_types_by_node E node allocator queried_name queried_namespace out w =
     by_node E node allocator queried_name queried_namespace out (get_service_names_and_types_from_cache E False) w"

definition rmw_get_client_names_and_types_by_node ::
  "env \<Rightarrow> ptr \<Rightarrow> allocator \<Rightarrow> string option \<Rightarrow> string option \<Rightarrow> out_arg \<Rightarrow> world \<Rightarrow> (rmw_ret \<times> names_filled) result" where
  "rmw_get_client_names_and_types_by_node E node allocator queried_name queried_namespace out w =
     by_node E node allocator queried_name queried_namespace out (get_service_names_and_types_from_cache E True) w"

section \<open>Endpoints\<close>

definition dds_name :: "bool \<Rightarrow> string \<Rightarrow> string" where
  "dds_name no_mangle name = (if no_mangle then name else ''rt'' @ name)"

definition rmw_get_publishers_info_by_topic ::
  "env \<Rightarrow> ptr \<Rightarrow> allocator \<Rightarrow> string option \<Rightarrow> bool \<Rightarrow> out_arg \<Rightarrow> world \<Rightarrow> (rmw_ret \<times> nat filled) result" where
  "rmw_get_publishers_info_by_topic E node allocator requested_name no_mangle out w = do {
     validation \<leftarrow> validate_endpoint_arguments node allocator requested_name out w;
     if validation \<noteq> RMW_RET_OK then Some ((validation, zero_array), w)
     else if out \<noteq> Some True then Some ((RMW_RET_INVALID_ARGUMENT, zero_array), w)
     else do {
       (refresh, w) \<leftarrow> refresh_for E node w;
       if refresh \<noteq> RMW_RET_OK then Some ((refresh, zero_array), w)
       else do {
         name \<leftarrow> requested_name;
         cache_infos E EndpointInfos (CacheWriterInfos (dds_name no_mangle name))
           (if no_mangle then identity_name else demangle_dds_type) w } } }"

definition rmw_get_subscriptions_info_by_topic ::
  "env \<Rightarrow> ptr \<Rightarrow> allocator \<Rightarrow> string option \<Rightarrow> bool \<Rightarrow> out_arg \<Rightarrow> world \<Rightarrow> (rmw_ret \<times> nat filled) result" where
  "rmw_get_subscriptions_info_by_topic E node allocator requested_name no_mangle out w = do {
     validation \<leftarrow> validate_endpoint_arguments node allocator requested_name out w;
     if validation \<noteq> RMW_RET_OK then Some ((validation, zero_array), w)
     else if out \<noteq> Some True then Some ((RMW_RET_INVALID_ARGUMENT, zero_array), w)
     else do {
       (refresh, w) \<leftarrow> refresh_for E node w;
       if refresh \<noteq> RMW_RET_OK then Some ((refresh, zero_array), w)
       else do {
         name \<leftarrow> requested_name;
         cache_infos E EndpointInfos (CacheReaderInfos (dds_name no_mangle name))
           (if no_mangle then identity_name else demangle_dds_type) w } } }"

text \<open>
  The endpoints of a service: those that read one of its topics and those that write the other, from
  which the cache finds the pairs (\<open>pairing\<close>). The temporary arrays are finalised on every path.
\<close>

definition match_endpoints ::
  "env \<Rightarrow> string \<Rightarrow> string \<Rightarrow> (nat list \<Rightarrow> nat list \<Rightarrow> call) \<Rightarrow> world \<Rightarrow> (rmw_ret \<times> nat filled) result" where
  "match_endpoints E read_topic write_topic pairing w = do {
     ((result, readers), w) \<leftarrow> cache_infos E EndpointInfos (CacheReaderInfos read_topic) demangle_dds_service_type w;
     ((result, writers), w) \<leftarrow> (if result = RMW_RET_OK
       then cache_infos E EndpointInfos (CacheWriterInfos write_topic) demangle_dds_service_type w
       else Some ((result, zero_array), w));
     ((result, out), w) \<leftarrow> (if result = RMW_RET_OK
       then cache_infos E ServiceInfos (pairing (snd readers) (snd writers)) identity_name w
       else Some ((result, zero_array), w));
     w \<leftarrow> fini_array EndpointInfos writers w;
     w \<leftarrow> fini_array EndpointInfos readers w;
     Some ((result, out), w) }"

definition rmw_get_clients_info_by_service ::
  "env \<Rightarrow> ptr \<Rightarrow> allocator \<Rightarrow> string option \<Rightarrow> bool \<Rightarrow> out_arg \<Rightarrow> world \<Rightarrow> (rmw_ret \<times> nat filled) result" where
  "rmw_get_clients_info_by_service E node allocator requested_name no_mangle out w = do {
     validation \<leftarrow> validate_endpoint_arguments node allocator requested_name out w;
     if validation \<noteq> RMW_RET_OK then Some ((validation, zero_array), w)
     else if out \<noteq> Some True then Some ((RMW_RET_INVALID_ARGUMENT, zero_array), w)
     else if no_mangle then Some ((RMW_RET_UNSUPPORTED, zero_array), w)
     else do {
       (refresh, w) \<leftarrow> refresh_for E node w;
       if refresh \<noteq> RMW_RET_OK then Some ((refresh, zero_array), w)
       else do {
         service \<leftarrow> requested_name;
         match_endpoints E (''rt/rr'' @ service @ ''Reply'') (''rt/rq'' @ service @ ''Request'') CacheClientInfos w } } }"

definition rmw_get_servers_info_by_service ::
  "env \<Rightarrow> ptr \<Rightarrow> allocator \<Rightarrow> string option \<Rightarrow> bool \<Rightarrow> out_arg \<Rightarrow> world \<Rightarrow> (rmw_ret \<times> nat filled) result" where
  "rmw_get_servers_info_by_service E node allocator requested_name no_mangle out w = do {
     validation \<leftarrow> validate_endpoint_arguments node allocator requested_name out w;
     if validation \<noteq> RMW_RET_OK then Some ((validation, zero_array), w)
     else if out \<noteq> Some True then Some ((RMW_RET_INVALID_ARGUMENT, zero_array), w)
     else if no_mangle then Some ((RMW_RET_UNSUPPORTED, zero_array), w)
     else do {
       (refresh, w) \<leftarrow> refresh_for E node w;
       if refresh \<noteq> RMW_RET_OK then Some ((refresh, zero_array), w)
       else do {
         service \<leftarrow> requested_name;
         match_endpoints E (''rt/rq'' @ service @ ''Request'') (''rt/rr'' @ service @ ''Reply'') CacheServerInfos w } } }"

section \<open>Counts\<close>

text \<open>Outputs: what is written to \<^verbatim>\<open>*count\<close>, \<open>None\<close> if nothing is.\<close>

definition cache_count :: "env \<Rightarrow> call \<Rightarrow> world \<Rightarrow> (rmw_ret \<times> size_t) \<times> world" where
  "cache_count E c w = (let n = count_answer E (trace w) c; (ret, w) = call_rmw E c w in ((ret, n), w))"

text \<open>
  A topic is counted under its mangled name and under its own, for endpoints that avoid the ROS
  conventions; \<open>query\<close> is the call of the cache.
\<close>

definition count_both :: "env \<Rightarrow> (string \<Rightarrow> call) \<Rightarrow> string \<Rightarrow> world \<Rightarrow> (rmw_ret \<times> size_t option) \<times> world" where
  "count_both E query topic_name w =
     (let ((ret, counter), w) = cache_count E (query (''rt'' @ topic_name)) w
      in if ret \<noteq> RMW_RET_OK then ((ret, None), w)
         else let ((ret, native), w) = cache_count E (query topic_name) w
           in ((ret, Some (counter + (if ret = RMW_RET_OK then native else 0))), w))"

definition count_endpoints ::
  "env \<Rightarrow> (string \<Rightarrow> call) \<Rightarrow> ptr \<Rightarrow> string option \<Rightarrow> bool \<Rightarrow> world \<Rightarrow> (rmw_ret \<times> size_t option) result" where
  "count_endpoints E query node topic_name counter w = do {
     (ret, w) \<leftarrow> validate_count_arguments E node topic_name counter w;
     if ret \<noteq> RMW_RET_OK then Some ((ret, None), w)
     else do {
       (refresh, w) \<leftarrow> refresh_for E node w;
       if refresh \<noteq> RMW_RET_OK then Some ((refresh, None), w)
       else do {
         name \<leftarrow> topic_name;
         Some (count_both E query name w) } } }"

definition rmw_count_publishers ::
  "env \<Rightarrow> ptr \<Rightarrow> string option \<Rightarrow> bool \<Rightarrow> world \<Rightarrow> (rmw_ret \<times> size_t option) result" where
  "rmw_count_publishers E node topic_name counter w = count_endpoints E CacheWriterCount node topic_name counter w"

definition rmw_count_subscribers ::
  "env \<Rightarrow> ptr \<Rightarrow> string option \<Rightarrow> bool \<Rightarrow> world \<Rightarrow> (rmw_ret \<times> size_t option) result" where
  "rmw_count_subscribers E node topic_name counter w = count_endpoints E CacheReaderCount node topic_name counter w"

definition count_services ::
  "(world \<Rightarrow> (rmw_ret \<times> nat filled) result) \<Rightarrow> env \<Rightarrow> ptr \<Rightarrow> string option \<Rightarrow> bool \<Rightarrow> world \<Rightarrow>
   (rmw_ret \<times> size_t option) result" where
  "count_services query E node service_name counter w = do {
     (ret, w) \<leftarrow> validate_count_arguments E node service_name counter w;
     if ret \<noteq> RMW_RET_OK then Some ((ret, None), w)
     else do {
       ((ret, info), w) \<leftarrow> query w;
       w \<leftarrow> fini_array ServiceInfos info w;
       Some ((ret, if ret = RMW_RET_OK then Some (of_nat (length (snd info))) else None), w) } }"

definition rmw_count_clients ::
  "env \<Rightarrow> ptr \<Rightarrow> string option \<Rightarrow> bool \<Rightarrow> world \<Rightarrow> (rmw_ret \<times> size_t option) result" where
  "rmw_count_clients E node service_name counter w =
     count_services (rmw_get_clients_info_by_service E node (Some True) service_name False (Some True))
       E node service_name counter w"

definition rmw_count_services ::
  "env \<Rightarrow> ptr \<Rightarrow> string option \<Rightarrow> bool \<Rightarrow> world \<Rightarrow> (rmw_ret \<times> size_t option) result" where
  "rmw_count_services E node service_name counter w =
     count_services (rmw_get_servers_info_by_service E node (Some True) service_name False (Some True))
       E node service_name counter w"

end
