(* ===== verification/Discovery_Props.thy ===== *)
theory Discovery_Props
  imports Discovery
begin

text \<open>
  What a refresh of the discovered endpoints does: the maps follow the samples as a fold, everything
  lent is given back, and the graph cache holds exactly the endpoints of the maps.
\<close>

section \<open>What the samples say\<close>

text \<open>The specification: what a sample says, and what that makes of the map.\<close>

datatype sighting = Gone instance_handle | Ignored | Seen instance_handle guid

definition sighting_of :: "env \<Rightarrow> bool \<Rightarrow> builtin_take \<Rightarrow> nat \<Rightarrow> builtin_info \<Rightarrow> sighting option" where
  "sighting_of E readers taken i info =
     (if \<not> builtin_valid info then Some (Gone (builtin_instance info))
      else if i \<ge> length (builtin_payloads taken) then None
      else case deserialize_builtin E readers (builtin_payloads taken ! i) of
        None \<Rightarrow> None
      | Some data \<Rightarrow>
          if data_topic_name data = Some ''rt/ros_discovery_info'' then Some Ignored
          else if read_type_hashes E (data_user_data data) = None then None
          else Some (Seen (builtin_instance info) (endpoint_gid (builtin_hashes taken) i)))"

fun track :: "sighting \<Rightarrow> instances \<Rightarrow> instances" where
  "track (Gone h) m = m(h := None)"
| "track Ignored m = m"
| "track (Seen h g) m = m(h \<mapsto> g)"

text \<open>A batch: whether all samples could be read, and the map after those before the first that could not.\<close>

fun tracked :: "env \<Rightarrow> bool \<Rightarrow> builtin_take \<Rightarrow> nat \<Rightarrow> builtin_info list \<Rightarrow> instances \<Rightarrow> bool \<times> instances" where
  "tracked E readers taken i [] m = (True, m)"
| "tracked E readers taken i (info # infos) m =
     (case sighting_of E readers taken i info of
        None \<Rightarrow> (False, m)
      | Some s \<Rightarrow> tracked E readers taken (Suc i) infos (track s m))"

text \<open>The discovered endpoints in the graph cache, by the calls made to it.\<close>

fun announced :: "bool \<Rightarrow> call list \<Rightarrow> guid set" where
  "announced readers [] = {}"
| "announced readers (c # t) =
     (case c of
        AddDiscovered g _ _ _ _ _ r _ \<Rightarrow> if r = readers then insert g (announced readers t) else announced readers t
      | RemoveEntity g r \<Rightarrow> if r = readers then announced readers t - {g} else announced readers t
      | _ \<Rightarrow> announced readers t)"

text \<open>
  An instance handle stands for one GUID, \<open>key\<close>: the map has only such entries, and the cache the same
  GUIDs as the map.
\<close>

definition in_step :: "(instance_handle \<Rightarrow> guid) \<Rightarrow> bool \<Rightarrow> instances \<Rightarrow> call list \<Rightarrow> bool" where
  "in_step key readers m t \<longleftrightarrow> (\<forall>h g. m h = Some g \<longrightarrow> g = key h) \<and> announced readers t = ran m"

lemma in_step_skip [simp]:
  "in_step key r m (TakeBuiltin x # t) = in_step key r m t" "in_step key r m (Delete k x # t) = in_step key r m t"
  "in_step key r m (SetTriggerValue x b # t) = in_step key r m t"
  "in_step key r m (BuiltinSubscriber x # t) = in_step key r m t" "in_step key r m (LookupReader x n # t) = in_step key r m t"
  by (simp_all add: in_step_def)

definition keyed :: "(instance_handle \<Rightarrow> guid) \<Rightarrow> builtin_take \<Rightarrow> bool" where
  "keyed key taken \<longleftrightarrow> (\<forall>i < length (builtin_infos taken). builtin_valid (builtin_infos taken ! i) \<longrightarrow>
     endpoint_gid (builtin_hashes taken) i = key (builtin_instance (builtin_infos taken ! i)))"

section \<open>One sample\<close>

text \<open>What every part of a refresh leaves as it was.\<close>

definition same_state :: "world \<Rightarrow> world \<Rightarrow> bool" where
  "same_state w w' \<longleftrightarrow> heap w' = heap w \<and> entities w' = entities w \<and> attached w' = attached w \<and>
     next_ptr w \<le> next_ptr w'"

lemma same_state_refl: "same_state w w"
  by (simp add: same_state_def)

lemma same_state_trans: "same_state w w' \<Longrightarrow> same_state w' w'' \<Longrightarrow> same_state w w''"
  by (simp add: same_state_def)

lemma ran_track:
  assumes "inj key" "\<forall>h g. m h = Some g \<longrightarrow> g = key h"
  shows "ran (m(h := None)) = ran m - {key h}" "ran (m(h \<mapsto> key h)) = insert (key h) (ran m)"
proof -
  show "ran (m(h := None)) = ran m - {key h}"
    using assms by (auto simp: ran_def inj_def) metis+
  show "ran (m(h \<mapsto> key h)) = insert (key h) (ran m)"
    using assms(2) by (auto simp: ran_def) metis+
qed

lemma gone_not_there: "m h = None \<Longrightarrow> m(h := None) = m"
  by (simp add: fun_upd_idem)

text \<open>
  The state of the loop after a sample: the map is tracked, the other kind of endpoints is not
  affected, and the cache stays in step.
\<close>

definition sample_done ::
  "env \<Rightarrow> bool \<Rightarrow> builtin_take \<Rightarrow> nat \<Rightarrow> builtin_info \<Rightarrow> instances \<Rightarrow> world \<Rightarrow> progress \<times> world \<Rightarrow> bool" where
  "sample_done E readers taken i info m w r \<longleftrightarrow>
     (case r of ((ret, m', changed), w') \<Rightarrow>
        same_state w w' \<and> announced (\<not> readers) (trace w') = announced (\<not> readers) (trace w) \<and>
        (case sighting_of E readers taken i info of
           None \<Rightarrow> ret = RMW_RET_ERROR \<and> m' = m \<and> announced readers (trace w') = announced readers (trace w)
         | Some s \<Rightarrow> ret = RMW_RET_OK \<and> m' = track s m \<and>
             (\<forall>key. inj key \<longrightarrow> in_step key readers m (trace w) \<longrightarrow>
                (builtin_valid info \<longrightarrow> endpoint_gid (builtin_hashes taken) i = key (builtin_instance info)) \<longrightarrow>
                in_step key readers m' (trace w'))))"

lemma consume_sample_done:
  "post (consume_sample E readers taken i info m changed w) (sample_done E readers taken i info m w)"
proof -
  consider (gone) "\<not> builtin_valid info" | (short) "builtin_valid info" "i \<ge> length (builtin_payloads taken)"
    | (bad) "builtin_valid info" "\<not> i \<ge> length (builtin_payloads taken)"
      "deserialize_builtin E readers (builtin_payloads taken ! i) = None"
    | (data) data where "builtin_valid info" "\<not> i \<ge> length (builtin_payloads taken)"
      "deserialize_builtin E readers (builtin_payloads taken ! i) = Some data"
    by fastforce
  then show ?thesis
  proof cases
    case gone
    then show ?thesis
      by (cases "m (builtin_instance info)")
         (auto simp: consume_sample_def instance_gone_def sample_done_def sighting_of_def call_ok_def
          same_state_def gone_not_there in_step_def ran_track)
  next
    case short
    then show ?thesis
      by (simp add: consume_sample_def sample_done_def sighting_of_def same_state_def)
  next
    case bad
    then show ?thesis
      by (simp add: consume_sample_def sample_done_def sighting_of_def same_state_def)
  next
    case data
    then show ?thesis
      by (cases "read_type_hashes E (data_user_data data)")
         (auto simp: consume_sample_def instance_seen_def sample_done_def sighting_of_def call_ok_def call_rmw_def
          hold_def destroy_def same_state_def in_step_def ran_track)
  qed
qed

section \<open>A batch\<close>

lemma consume_samples_done:
  assumes "inj key"
  shows "post (consume_samples E readers taken i infos m changed w) (\<lambda>((ret, m', changed'), w').
     same_state w w' \<and> announced (\<not> readers) (trace w') = announced (\<not> readers) (trace w) \<and>
     (ret = RMW_RET_OK \<longleftrightarrow> fst (tracked E readers taken i infos m)) \<and>
     m' = snd (tracked E readers taken i infos m) \<and>
     (in_step key readers m (trace w) \<longrightarrow>
       (\<forall>j < length infos. builtin_valid (infos ! j) \<longrightarrow>
          endpoint_gid (builtin_hashes taken) (i + j) = key (builtin_instance (infos ! j))) \<longrightarrow>
       in_step key readers m' (trace w')))"
proof (induction infos arbitrary: i m changed w)
  case (Cons info infos)
  obtain ret m1 c1 w1 where one: "consume_sample E readers taken i info m changed w = Some ((ret, m1, c1), w1)"
    and d: "sample_done E readers taken i info m w ((ret, m1, c1), w1)"
    using consume_sample_done [of E readers taken i info m changed w] by (auto simp: post_ex)
  show ?case
  proof (cases "sighting_of E readers taken i info")
    case None
    with one d show ?thesis by (auto simp: sample_done_def in_step_def)
  next
    case (Some s)
    with d have s: "ret = RMW_RET_OK" "m1 = track s m" "same_state w w1"
      "announced (\<not> readers) (trace w1) = announced (\<not> readers) (trace w)"
      and k: "in_step key readers m (trace w) \<Longrightarrow>
        (builtin_valid info \<Longrightarrow> endpoint_gid (builtin_hashes taken) i = key (builtin_instance info)) \<Longrightarrow>
        in_step key readers m1 (trace w1)"
      using assms by (auto simp: sample_done_def)
    have all: "(\<forall>j < length (info # infos). P j) \<longleftrightarrow> P 0 \<and> (\<forall>j < length infos. P (Suc j))" for P
      by (simp add: All_less_Suc2)
    show ?thesis
      unfolding all using Some one s k Cons.IH [of "Suc i" m1 c1 w1]
      by (auto intro: same_state_trans elim: post_mono)
  qed
qed (simp add: same_state_refl)

text \<open>
  One reader: everything lent is given back, unless zzdds refuses to take it. Only a successful take
  gives samples.
\<close>

lemma consume_reader_done:
  assumes "inj key" and taken: "taken = builtin_answer E (trace w) (TakeBuiltin reader)"
  shows "post (consume_reader E readers reader m changed w) (\<lambda>((ret, m', changed'), w').
     heap w' = heap w \<and> attached w' = attached w \<and> next_ptr w \<le> next_ptr w' \<and>
     announced (\<not> readers) (trace w') = announced (\<not> readers) (trace w) \<and>
     (in_step key readers m (trace w) \<longrightarrow> keyed key taken \<longrightarrow> in_step key readers m' (trace w')) \<and>
     (deletes_succeed E \<longrightarrow> entities w' = entities w \<and>
       (dds_code E (trace w) (TakeBuiltin reader) = DDS_RETCODE_OK \<longrightarrow>
         ret = (if fst (tracked E readers taken 0 (builtin_infos taken) m) then RMW_RET_OK else RMW_RET_ERROR) \<and>
         m' = snd (tracked E readers taken 0 (builtin_infos taken) m))))"
proof (cases "dds_code E (trace w) (TakeBuiltin reader) = DDS_RETCODE_OK")
  case True
  let ?w = "snd (hold BuiltinLoan (record_call (TakeBuiltin reader) w))"
  from consume_samples_done [OF assms(1), of E readers taken 0 "builtin_infos taken" m changed ?w,
      unfolded add_0 keyed_def [symmetric]]
  obtain ret m' changed' w' where
      c: "consume_samples E readers taken 0 (builtin_infos taken) m changed ?w = Some ((ret, m', changed'), w')"
    and s: "same_state ?w w'" "announced (\<not> readers) (trace w') = announced (\<not> readers) (trace w)"
      "ret = RMW_RET_OK \<longleftrightarrow> fst (tracked E readers taken 0 (builtin_infos taken) m)"
      "m' = snd (tracked E readers taken 0 (builtin_infos taken) m)"
      "in_step key readers m (trace w) \<Longrightarrow> keyed key taken \<Longrightarrow> in_step key readers m' (trace w')"
    by (auto simp: post_ex hold_def)
  from s(1) have held: "(BuiltinLoan, next_ptr w) \<in># entities w'" "entities w' - {#(BuiltinLoan, next_ptr w)#} = entities w"
    by (simp_all add: same_state_def hold_def)
  show ?thesis
    using c s held True
    by (auto simp: consume_reader_def call_dds_def taken [symmetric] Let_def hold_def delete_def deletes_succeed_def
      same_state_def)
next
  case False
  then show ?thesis by (auto simp: consume_reader_def call_dds_def Let_def)
qed

section \<open>A refresh\<close>

text \<open>The participant has its two built-in readers.\<close>

definition built_in :: "env \<Rightarrow> ptr \<Rightarrow> ptr \<Rightarrow> ptr \<Rightarrow> bool" where
  "built_in E p wr rr \<longleftrightarrow> wr \<noteq> nullptr \<and> rr \<noteq> nullptr \<and> (\<exists>b. b \<noteq> nullptr \<and>
     (\<forall>t. handle_answer E t (BuiltinSubscriber p) = b \<and> handle_answer E t (LookupReader b ''DCPSPublication'') = wr \<and>
       handle_answer E t (LookupReader b ''DCPSSubscription'') = rr))"

lemma notify_ready:
  "heap w ci = Some (ContextImpl c) \<Longrightarrow>
   \<exists>w'. notify_graph_change E ci w = Some w' \<and> heap w' = heap w \<and> entities w' = entities w \<and>
     attached w' = attached w \<and> next_ptr w' = next_ptr w \<and>
     (trace w' = trace w \<or> trace w' = SetTriggerValue (graph_guard_native c) True # trace w)"
  by (simp add: notify_graph_change_def context_impl_at_def call_dds_def)

text \<open>
  The state after the locked section, whatever the calls in it answer: the context differs in its maps
  only, which are in step with the cache if they were.
\<close>

definition maps_in_step :: "(instance_handle \<Rightarrow> guid) \<Rightarrow> context_impl \<Rightarrow> call list \<Rightarrow> bool" where
  "maps_in_step key c t \<longleftrightarrow> in_step key False (discovered_writers c) t \<and> in_step key True (discovered_readers c) t"

lemma in_step_same: "announced r t' = announced r t \<Longrightarrow> in_step key r m t' = in_step key r m t"
  by (simp add: in_step_def)

text \<open>The two takes succeed, with these answers.\<close>

definition both_taken :: "env \<Rightarrow> ptr \<Rightarrow> ptr \<Rightarrow> builtin_take \<Rightarrow> builtin_take \<Rightarrow> bool" where
  "both_taken E wr rr tw tr \<longleftrightarrow> (\<forall>t r. dds_code E t (TakeBuiltin r) = DDS_RETCODE_OK) \<and>
     (\<forall>t. builtin_answer E t (TakeBuiltin wr) = tw \<and> builtin_answer E t (TakeBuiltin rr) = tr)"

lemma refresh_locked_done:
  assumes "inj key" "heap w ci = Some (ContextImpl c)"
  shows "post (refresh_locked E ci wr rr w) (\<lambda>(ret, w'). \<exists>mw mr.
     heap w' = (heap w)(ci \<mapsto> ContextImpl (c\<lparr>discovered_writers := mw, discovered_readers := mr\<rparr>)) \<and>
     attached w' = attached w \<and> next_ptr w \<le> next_ptr w' \<and>
     (maps_in_step key c (trace w) \<longrightarrow> (\<forall>t r. keyed key (builtin_answer E t (TakeBuiltin r))) \<longrightarrow>
       maps_in_step key (c\<lparr>discovered_writers := mw, discovered_readers := mr\<rparr>) (trace w')) \<and>
     (deletes_succeed E \<longrightarrow> entities w' = entities w \<and>
       (\<forall>tw tr. both_taken E wr rr tw tr \<longrightarrow>
         (let (all_w, nw) = tracked E False tw 0 (builtin_infos tw) (discovered_writers c);
              (all_r, nr) = tracked E True tr 0 (builtin_infos tr) (discovered_readers c)
          in ret = (if all_w \<and> all_r then RMW_RET_OK else RMW_RET_ERROR) \<and> mw = nw \<and>
             mr = (if all_w then nr else discovered_readers c)))))"
proof -
  from consume_reader_done [OF assms(1) refl, where E = E and w = w and reader = wr and
      readers = False and m = "discovered_writers c" and changed = False]
  obtain ret1 mw ch1 w1 where
      one: "consume_reader E False wr (discovered_writers c) False w = Some ((ret1, mw, ch1), w1)"
    and s1: "heap w1 = heap w" "attached w1 = attached w \<and> next_ptr w \<le> next_ptr w1" "announced True (trace w1) = announced True (trace w)"
      "in_step key False (discovered_writers c) (trace w) \<Longrightarrow> keyed key (builtin_answer E (trace w) (TakeBuiltin wr)) \<Longrightarrow>
        in_step key False mw (trace w1)"
      "deletes_succeed E \<Longrightarrow> entities w1 = entities w"
      "deletes_succeed E \<Longrightarrow> dds_code E (trace w) (TakeBuiltin wr) = DDS_RETCODE_OK \<Longrightarrow>
        builtin_answer E (trace w) (TakeBuiltin wr) = tw \<Longrightarrow>
        (ret1, mw) = (case tracked E False tw 0 (builtin_infos tw) (discovered_writers c) of
          (all, m) \<Rightarrow> (if all then RMW_RET_OK else RMW_RET_ERROR, m))" for tw
    by (auto simp: post_ex split_beta)
  have t1: "(ret1, mw) = (case tracked E False tw 0 (builtin_infos tw) (discovered_writers c) of
      (all, m) \<Rightarrow> (if all then RMW_RET_OK else RMW_RET_ERROR, m))"
    if "deletes_succeed E" "both_taken E wr rr tw tr" for tw tr
    using that by (intro s1(6)) (auto simp: both_taken_def)
  let ?w1 = "store ci (ContextImpl (c\<lparr>discovered_writers := mw\<rparr>)) w1"
  show ?thesis
  proof (cases "ret1 = RMW_RET_OK")
    case False
    with one s1(1) assms(2) have r: "refresh_locked E ci wr rr w = Some (ret1, ?w1)"
      by (simp add: refresh_locked_def update_context_def context_impl_at_def)
    show ?thesis
      unfolding r post_simps split
      using False s1(1-5) t1
      by (rule_tac exI [of _ mw], rule_tac exI [of _ "discovered_readers c"])
         (auto simp: maps_in_step_def in_step_same [OF s1(3)] split_beta split: if_splits)
  next
    case True
    from consume_reader_done [OF assms(1) refl, where E = E and w = ?w1 and reader = rr and
        readers = True and m = "discovered_readers c" and changed = ch1]
    obtain ret2 mr ch2 w2 where
        two: "consume_reader E True rr (discovered_readers c) ch1 ?w1 = Some ((ret2, mr, ch2), w2)"
      and s2: "heap w2 = heap ?w1" "attached w2 = attached w \<and> next_ptr w1 \<le> next_ptr w2" "announced False (trace w2) = announced False (trace w1)"
        "in_step key True (discovered_readers c) (trace w1) \<Longrightarrow> keyed key (builtin_answer E (trace w1) (TakeBuiltin rr)) \<Longrightarrow>
          in_step key True mr (trace w2)"
        "deletes_succeed E \<Longrightarrow> entities w2 = entities w1"
        "deletes_succeed E \<Longrightarrow> dds_code E (trace w1) (TakeBuiltin rr) = DDS_RETCODE_OK \<Longrightarrow>
          builtin_answer E (trace w1) (TakeBuiltin rr) = tr \<Longrightarrow>
          (ret2, mr) = (case tracked E True tr 0 (builtin_infos tr) (discovered_readers c) of
            (all, m) \<Rightarrow> (if all then RMW_RET_OK else RMW_RET_ERROR, m))" for tr
      using s1(2) by (auto simp: post_ex split_beta)
    have t2: "(ret2, mr) = (case tracked E True tr 0 (builtin_infos tr) (discovered_readers c) of
        (all, m) \<Rightarrow> (if all then RMW_RET_OK else RMW_RET_ERROR, m))"
      if "deletes_succeed E" "both_taken E wr rr tw tr" for tw tr
      using that by (intro s2(6)) (auto simp: both_taken_def)
    let ?c = "c\<lparr>discovered_writers := mw, discovered_readers := mr\<rparr>"
    let ?w2 = "store ci (ContextImpl ?c) w2"
    from notify_ready [of ?w2 ci ?c E] obtain w3 where
        three: "notify_graph_change E ci ?w2 = Some w3" "heap w3 = heap ?w2" "entities w3 = entities ?w2"
          "attached w3 = attached ?w2 \<and> next_ptr w3 = next_ptr ?w2"
          "trace w3 = trace ?w2 \<or> trace w3 = SetTriggerValue (graph_guard_native ?c) True # trace ?w2"
      by auto
    have r: "refresh_locked E ci wr rr w = Some (ret2, if ret2 = RMW_RET_OK \<and> ch2 then w3 else ?w2)"
      using one two three(1) s1(1) s2(1) True assms(2)
      by (simp add: refresh_locked_def update_context_def context_impl_at_def)
    have t: "in_step key q m (trace w3) = in_step key q m (trace w2)" for q m
      using three(5) by auto
    have k1: "fst (tracked E False tw 0 (builtin_infos tw) (discovered_writers c))"
        "snd (tracked E False tw 0 (builtin_infos tw) (discovered_writers c)) = mw"
        "ret2 = (if fst (tracked E True tr 0 (builtin_infos tr) (discovered_readers c)) then RMW_RET_OK else RMW_RET_ERROR)"
        "snd (tracked E True tr 0 (builtin_infos tr) (discovered_readers c)) = mr"
      if "deletes_succeed E" "both_taken E wr rr tw tr" for tw tr
      using t1 [OF that] t2 [OF that] True by (auto simp: split_beta split: if_splits)
    show ?thesis
      unfolding r post_simps split
      using s1(1-5) s2(1-5) three t True
      by (rule_tac exI [of _ mw], rule_tac exI [of _ mr])
         (auto simp: maps_in_step_def in_step_same [OF s1(3)] in_step_same [OF s2(3)] split_beta k1)
  qed
qed

lemma refresh_eq:
  assumes "ci \<noteq> nullptr" "heap w ci = Some (ContextImpl c)" "built_in E (participant c) wr rr"
  obtains b where "refresh_discovered_endpoints E ci w = refresh_locked E ci wr rr
    (record_call (LookupReader b ''DCPSSubscription'') (record_call (LookupReader b ''DCPSPublication'')
       (record_call (BuiltinSubscriber (participant c)) w)))"
proof -
  from assms(3) obtain b where "b \<noteq> nullptr" "wr \<noteq> nullptr" "rr \<noteq> nullptr"
    "\<And>t. handle_answer E t (BuiltinSubscriber (participant c)) = b"
    "\<And>t. handle_answer E t (LookupReader b ''DCPSPublication'') = wr"
    "\<And>t. handle_answer E t (LookupReader b ''DCPSSubscription'') = rr"
    by (auto simp: built_in_def)
  with assms(1,2) show ?thesis
    by (intro that [of b]) (simp add: refresh_discovered_endpoints_def context_impl_at_def call_handle_def)
qed

text \<open>What the queries need to know of a refresh.\<close>

lemma injective_key: "inj (\<lambda>h :: instance_handle. replicate (unat h) (0 :: uint8))"
  by (rule injI) (metis length_replicate word_unat_eq_iff)

lemma refresh_frame:
  assumes "ci \<noteq> nullptr" "heap w ci = Some (ContextImpl c)" "deletes_succeed E"
  shows "post (refresh_discovered_endpoints E ci w) (\<lambda>(ret, w').
    (\<exists>c'. heap w' = (heap w)(ci \<mapsto> ContextImpl c')) \<and> next_ptr w \<le> next_ptr w' \<and> entities w' = entities w)"
proof -
  have locked: "post (refresh_locked E ci wr rr v) (\<lambda>(ret, w').
      (\<exists>c'. heap w' = (heap w)(ci \<mapsto> ContextImpl c')) \<and> next_ptr w \<le> next_ptr w' \<and> entities w' = entities w)"
    if "heap v = heap w" "next_ptr v = next_ptr w" "entities v = entities w" for wr rr v
    using refresh_locked_done [OF injective_key, of v ci c E wr rr] assms(2,3) that by (auto elim!: post_mono)
  show ?thesis
    using assms(1,2) locked
    by (auto simp: refresh_discovered_endpoints_def context_impl_at_def call_handle_def fun_upd_idem intro!: exI [of _ c])
qed

section \<open>Properties\<close>

text \<open>
  C36. A refresh of the discovered endpoints follows the samples of both built-in readers: the maps from
  instances to GUIDs are the folds of what the samples say, up to the first sample that cannot be read
  (then the result is an error, and readers are not looked at when a writer's sample was in error).
  Nothing else of the heap changes, and every loan and every deserialized sample is given back.
\<close>

theorem refresh_tracks_samples:
  assumes "ci \<noteq> nullptr" "heap w ci = Some (ContextImpl c)" "built_in E (participant c) wr rr"
    and "deletes_succeed E" "both_taken E wr rr tw tr"
  shows "post (refresh_discovered_endpoints E ci w) (\<lambda>(ret, w').
    let (all_w, mw) = tracked E False tw 0 (builtin_infos tw) (discovered_writers c);
        (all_r, mr) = tracked E True tr 0 (builtin_infos tr) (discovered_readers c)
    in ret = (if all_w \<and> all_r then RMW_RET_OK else RMW_RET_ERROR) \<and>
       heap w' = (heap w)(ci \<mapsto> ContextImpl (c\<lparr>discovered_writers := mw,
                                       discovered_readers := (if all_w then mr else discovered_readers c)\<rparr>)) \<and>
       entities w' = entities w \<and> attached w' = attached w)"
proof -
  obtain b where r: "refresh_discovered_endpoints E ci w = refresh_locked E ci wr rr
    (record_call (LookupReader b ''DCPSSubscription'') (record_call (LookupReader b ''DCPSPublication'')
       (record_call (BuiltinSubscriber (participant c)) w)))"
    using refresh_eq [OF assms(1-3)] .
  show ?thesis
    unfolding r using assms(2,4,5)
    by (intro post_mono [OF refresh_locked_done [OF injective_key]]) (auto simp: split_beta)
qed

text \<open>
  C37. As long as every instance handle comes with the GUID \<open>key\<close> that it stands for, the graph cache holds
  exactly the endpoints that the maps know, after every refresh, whichever of its calls fail.
\<close>

theorem refresh_keeps_cache_in_step:
  assumes "inj key" "ci \<noteq> nullptr" "heap w ci = Some (ContextImpl c)" "built_in E (participant c) wr rr"
    and "\<forall>t r. keyed key (builtin_answer E t (TakeBuiltin r))" "maps_in_step key c (trace w)"
  shows "post (refresh_discovered_endpoints E ci w) (\<lambda>(ret, w'). \<exists>c'.
    heap w' = (heap w)(ci \<mapsto> ContextImpl c') \<and> maps_in_step key c' (trace w'))"
proof -
  obtain b where r: "refresh_discovered_endpoints E ci w = refresh_locked E ci wr rr
    (record_call (LookupReader b ''DCPSSubscription'') (record_call (LookupReader b ''DCPSPublication'')
       (record_call (BuiltinSubscriber (participant c)) w)))"
    using refresh_eq [OF assms(2-4)] .
  show ?thesis
    unfolding r using assms(3,5,6)
    by (intro post_mono [OF refresh_locked_done [OF assms(1)]]) (auto simp: maps_in_step_def)
qed

section \<open>Examples\<close>

text \<open>A writer appears at instance 5, then it is gone; a reader appears at instance 5 and stays.\<close>

definition example_key :: "instance_handle \<Rightarrow> guid" where
  "example_key h = (if h = 5 then replicate 16 5 else replicate (17 + unat h) 0)"

definition example_take :: "bool \<Rightarrow> builtin_take" where
  "example_take readers = \<lparr>builtin_payloads = [Some [0, 1, 0, 0]], builtin_hashes = Some (replicate 16 5),
     builtin_infos = \<lparr>builtin_valid = True, builtin_instance = 5\<rparr> #
       (if readers then [] else [\<lparr>builtin_valid = False, builtin_instance = 5\<rparr>])\<rparr>"

definition discovering :: env where
  "discovering = all_succeed\<lparr>
     handle_answer := (\<lambda>_ c. case c of LookupReader _ n \<Rightarrow> if n = ''DCPSPublication'' then 61 else 62 | _ \<Rightarrow> 60),
     builtin_answer := (\<lambda>_ c. example_take (c = TakeBuiltin 62)),
     read_builtin := (\<lambda>_ _. Some \<lparr>data_topic_name = Some ''rt/chatter'', data_type_name = Some ''std_msgs::msg::dds_::String_'',
       data_user_data = [], data_reliable = True, data_volatile = True, data_automatic = True\<rparr>)\<rparr>"

lemma example_key_inj: "inj example_key"
proof (rule injI)
  fix x y assume e: "example_key x = example_key y"
  then have "length (example_key x) = length (example_key y)" by simp
  then show "x = y" by (auto simp: example_key_def word_unat_eq_iff split: if_splits)
qed

lemma discovering_ready:
  "built_in discovering (participant empty_context) 61 62" "deletes_succeed discovering"
  "both_taken discovering 61 62 (example_take False) (example_take True)"
  "\<forall>t r. keyed example_key (builtin_answer discovering t (TakeBuiltin r))"
  "maps_in_step example_key empty_context (trace small_world)"
  by (auto simp: built_in_def deletes_succeed_def both_taken_def discovering_def all_succeed_def keyed_def example_take_def
    endpoint_gid_def hash_bytes_def example_key_def maps_in_step_def in_step_def empty_context_def small_world_def less_Suc_eq)

theorem refresh_tracks_samples_witness:
  "post (refresh_discovered_endpoints discovering 2 small_world) (\<lambda>(ret, w'). ret = RMW_RET_OK \<and>
     heap w' = (heap small_world)(2 \<mapsto> ContextImpl (empty_context\<lparr>discovered_readers := [5 \<mapsto> replicate 16 5]\<rparr>)) \<and>
     entities w' = entities small_world)"
proof -
  have small: "heap small_world 2 = Some (ContextImpl empty_context)" by (simp add: small_world_def)
  have t: "tracked discovering False (example_take False) 0 (builtin_infos (example_take False))
        (discovered_writers empty_context) = (True, Map.empty)"
      "tracked discovering True (example_take True) 0 (builtin_infos (example_take True))
        (discovered_readers empty_context) = (True, [5 \<mapsto> replicate 16 5])"
    by (simp_all add: discovering_def all_succeed_def example_take_def sighting_of_def deserialize_builtin_def
      read_type_hashes_def empty_context_def endpoint_gid_def hash_bytes_def)
  show ?thesis
    using refresh_tracks_samples [OF _ small discovering_ready(1-3), unfolded t Let_def split]
    by (rule post_mono) (auto simp: empty_context_def)
qed

theorem refresh_keeps_cache_in_step_witness:
  "post (refresh_discovered_endpoints discovering 2 small_world) (\<lambda>(ret, w'). \<exists>c'.
    heap w' = (heap small_world)(2 \<mapsto> ContextImpl c') \<and> maps_in_step example_key c' (trace w'))"
proof -
  have small: "heap small_world 2 = Some (ContextImpl empty_context)" by (simp add: small_world_def)
  show ?thesis
    using refresh_keeps_cache_in_step [OF example_key_inj _ small discovering_ready(1,4,5)] by simp
qed

end
