(* ===== verification/Name_Lemmas.thy ===== *)
theory Name_Lemmas
  imports Names
begin

text \<open>
  What the mangling of \<open>Names\<close> guarantees: type names, topics and services written by this
  implementation are read back as the ROS names they came from, and the service queries list
  exactly the types that occur on both the request and the reply topic of a service.
\<close>

section \<open>Searching a string\<close>

lemma plus_Suc_0: "(+) (Suc 0) = Suc"
  by (rule ext) simp

lemma find_str_unfold:
  assumes "pat \<noteq> []"
  shows "find_str s pat pos =
     (if take (length pat) (drop pos s) = pat then Some pos
      else if pos < length s then find_str s pat (Suc pos) else None)"
proof (cases "pos < Suc (length s) - length pat")
  case True
  then have "[pos ..< Suc (length s) - length pat] = pos # [Suc pos ..< Suc (length s) - length pat]"
    by (rule upt_conv_Cons)
  with True show ?thesis by (auto simp: find_str_def)
next
  case False
  then have "find_str s pat pos = None" "find_str s pat (Suc pos) = None"
    by (simp_all add: find_str_def)
  moreover have "take (length pat) (drop pos s) \<noteq> pat"
    using False assms by (auto dest: arg_cong [of _ _ length])
  ultimately show ?thesis by simp
qed

lemma find_str_skip:
  assumes "pat \<noteq> []" and "\<not> starts_with s pat" and "s \<noteq> []"
  shows "find_str (p @ s) pat (length p) = find_str (p @ s) pat (Suc (length p))"
  using assms by (subst find_str_unfold) (auto simp: starts_with_def)

lemma find_str_shift:
  assumes "pat \<noteq> []"
  shows "find_str (p @ s) pat (length p) = map_option (\<lambda>i. length p + i) (find_str s pat 0)"
proof (induction "length s" arbitrary: p s)
  case 0
  then have "s = []" by simp
  moreover obtain n where "length pat = Suc n" using assms by (cases pat) auto
  ultimately show ?case by (simp add: find_str_def)
next
  case (Suc n)
  then obtain c r where s: "s = c # r" by (cases s) auto
  show ?case
  proof (cases "starts_with s pat")
    case True
    then have "find_str (p @ s) pat (length p) = Some (length p)" "find_str s pat 0 = Some 0"
      using assms by (auto simp: find_str_unfold [of pat "p @ s"] find_str_unfold [of pat s] starts_with_def)
    then show ?thesis by simp
  next
    case False
    have "find_str (p @ s) pat (length p) = find_str ((p @ [c]) @ r) pat (length (p @ [c]))"
      using find_str_skip [OF assms False] s by simp
    also have "\<dots> = map_option (\<lambda>i. Suc (length p) + i) (find_str r pat 0)"
      using Suc s by (subst Suc(1)) auto
    also have "find_str s pat 0 = find_str ([c] @ r) pat (length [c])"
      using find_str_skip [OF assms False, of "[]"] s by simp
    then have "find_str s pat 0 = map_option Suc (find_str r pat 0)"
      using Suc s by (subst (asm) Suc(1)) (auto simp: plus_Suc_0)
    ultimately show ?thesis by (simp add: option.map_comp comp_def)
  qed
qed

section \<open>The replacement loop and the erased marker, structurally\<close>

fun colons_to_slashes :: "string \<Rightarrow> string" where
  "colons_to_slashes (c # d # cs) =
     (if c = CHR '':'' \<and> d = CHR '':'' then CHR ''/'' # colons_to_slashes cs
      else c # colons_to_slashes (d # cs))"
| "colons_to_slashes cs = cs"

lemma replace_colons_from:
  "replace_colons (p @ s) (length p) = p @ colons_to_slashes s"
proof (induction s arbitrary: p rule: colons_to_slashes.induct)
  case (1 c d cs)
  show ?case
  proof (cases "c = CHR '':'' \<and> d = CHR '':''")
    case True
    then have "find_str (p @ c # d # cs) ''::'' (length p) = Some (length p)"
      by (subst find_str_unfold) auto
    then have "replace_colons (p @ c # d # cs) (length p) =
        replace_colons ((p @ ''/'') @ cs) (length (p @ ''/''))"
      by (subst replace_colons.simps) simp
    with True show ?thesis using "1.IH"(1) [OF True, of "p @ ''/''"] by simp
  next
    case False
    then have "find_str (p @ c # d # cs) ''::'' (length p) =
        find_str ((p @ [c]) @ d # cs) ''::'' (length (p @ [c]))"
      using find_str_skip [of "''::''" "c # d # cs" p] by (auto simp: starts_with_def)
    then have "replace_colons (p @ c # d # cs) (length p) =
        replace_colons ((p @ [c]) @ d # cs) (length (p @ [c]))"
      unfolding replace_colons.simps [of "p @ c # d # cs" "length p"]
          replace_colons.simps [of "(p @ [c]) @ d # cs" "length (p @ [c])"]
      by (simp split: option.split)
    with False show ?thesis using "1.IH"(2) [OF False, of "p @ [c]"] by auto
  qed
next
  case "2_1"
  then show ?case by (subst replace_colons.simps) (simp add: find_str_def)
next
  case "2_2"
  then show ?case by (subst replace_colons.simps) (simp add: find_str_def)
qed

lemma replace_colons_eq: "replace_colons s 0 = colons_to_slashes s"
  using replace_colons_from [of "[]" s] by simp

lemma erase_dds_marker_unfold:
  "erase_dds_marker s =
     (if starts_with s ''::dds_::'' then drop 6 s
      else case s of [] \<Rightarrow> [] | c # cs \<Rightarrow> c # erase_dds_marker cs)"
proof (cases "starts_with s ''::dds_::''")
  case True
  then show ?thesis
    by (simp add: erase_dds_marker_def find_str_unfold starts_with_def numeral_eq_Suc)
next
  case False
  show ?thesis
  proof (cases s)
    case Nil
    then show ?thesis by (simp add: erase_dds_marker_def find_str_def starts_with_def)
  next
    case (Cons c cs)
    have "find_str s ''::dds_::'' 0 = find_str ([c] @ cs) ''::dds_::'' (length [c])"
      using find_str_skip [OF _ False, of "[]"] Cons by simp
    also have "\<dots> = map_option Suc (find_str cs ''::dds_::'' 0)"
      by (subst find_str_shift) (auto simp: plus_Suc_0)
    finally show ?thesis
      using False Cons by (auto simp: erase_dds_marker_def split: option.split)
  qed
qed

section \<open>Reading a generated type name back\<close>

definition plain :: "string \<Rightarrow> bool" where
  "plain s \<longleftrightarrow> CHR '':'' \<notin> set s"

lemma erase_dds_marker_plain:
  "plain x \<Longrightarrow> erase_dds_marker (x @ r) = x @ erase_dds_marker r"
proof (induction x)
  case (Cons c x)
  then have "\<not> starts_with ((c # x) @ r) ''::dds_::''"
    by (auto simp: starts_with_def plain_def)
  with Cons show ?case
    by (subst erase_dds_marker_unfold) (auto simp: plain_def)
qed simp

lemma erase_dds_marker_sep:
  assumes "\<not> starts_with r ''dds_::''" and "\<not> starts_with r '':''"
  shows "erase_dds_marker (''::'' @ r) = ''::'' @ erase_dds_marker r"
proof -
  have "erase_dds_marker (''::'' @ r) = CHR '':'' # erase_dds_marker (CHR '':'' # r)"
    using assms(1) by (subst erase_dds_marker_unfold) (auto simp: starts_with_def)
  also have "erase_dds_marker (CHR '':'' # r) = CHR '':'' # erase_dds_marker r"
    using assms(2) by (subst erase_dds_marker_unfold) (cases r; auto simp: starts_with_def)
  finally show ?thesis by simp
qed

text \<open>A name the IDL grammar allows: non-empty, no colon, and not the marker component itself.\<close>

definition component :: "string \<Rightarrow> bool" where
  "component s \<longleftrightarrow> s \<noteq> [] \<and> plain s \<and> s \<noteq> ''dds_''"

lemma join_Cons: "ys \<noteq> [] \<Longrightarrow> join sep (x # ys) = x @ sep @ join sep ys"
  by (cases ys) auto

lemma join_append: "xs \<noteq> [] \<Longrightarrow> ys \<noteq> [] \<Longrightarrow> join sep (xs @ ys) = join sep xs @ sep @ join sep ys"
  by (induction sep xs rule: join.induct) (auto simp: join_Cons)

lemma plain_append_colon:
  assumes "plain x" and "plain y" and "x @ CHR '':'' # r = y @ CHR '':'' # r'"
  shows "x = y"
  using assms
proof (induction x arbitrary: y)
  case Nil
  then show ?case by (cases y) (auto simp: plain_def)
next
  case (Cons c x)
  then show ?case by (cases y) (auto simp: plain_def)
qed

lemma component_not_marker:
  assumes "component x"
  shows "\<not> starts_with (x @ ''::'' @ r) ''dds_::''" and "\<not> starts_with (x @ s) '':''"
proof -
  show "\<not> starts_with (x @ ''::'' @ r) ''dds_::''"
  proof
    assume "starts_with (x @ ''::'' @ r) ''dds_::''"
    then obtain q where "x @ ''::'' @ r = ''dds_::'' @ q" by (auto simp: starts_with_iff)
    then have "x @ CHR '':'' # (CHR '':'' # r) = ''dds_'' @ CHR '':'' # (CHR '':'' # q)" by simp
    from plain_append_colon [OF _ _ this] assms show False
      by (simp add: component_def plain_def)
  qed
  show "\<not> starts_with (x @ s) '':''"
    using assms by (cases x) (auto simp: starts_with_def component_def plain_def)
qed

lemma erase_dds_marker_join:
  assumes "\<forall>x \<in> set ns. component x" and "ns \<noteq> []"
  shows "erase_dds_marker (join ''::'' ns @ ''::dds_::'' @ r) = join ''::'' ns @ ''::'' @ r"
  using assms
proof (induction ns)
  case (Cons x ns)
  then have x: "component x" by simp
  show ?case
  proof (cases ns)
    case Nil
    have "erase_dds_marker (x @ ''::dds_::'' @ r) = x @ erase_dds_marker (''::dds_::'' @ r)"
      using x by (simp add: erase_dds_marker_plain component_def del: append.simps)
    also have "erase_dds_marker (''::dds_::'' @ r) = ''::'' @ r"
      by (subst erase_dds_marker_unfold) (simp add: starts_with_def numeral_eq_Suc)
    finally show ?thesis using Nil by simp
  next
    case (Cons y ys)
    let ?t = "join ''::'' ns @ ''::dds_::'' @ r"
    have y: "component y" using Cons Cons.prems by simp
    have t: "\<exists>q. ?t = y @ ''::'' @ q" using Cons by (cases ys) auto
    have "erase_dds_marker (join ''::'' (x # ns) @ ''::dds_::'' @ r) = x @ erase_dds_marker (''::'' @ ?t)"
      using x Cons by (simp add: erase_dds_marker_plain component_def join_Cons del: append.simps)
    also have "erase_dds_marker (''::'' @ ?t) = ''::'' @ erase_dds_marker ?t"
      using t component_not_marker [OF y] by (intro erase_dds_marker_sep) auto
    finally show ?thesis using Cons Cons.IH Cons.prems by (simp add: join_Cons)
  qed
qed simp

text \<open>Reading the separators of a joined name.\<close>

lemma colons_to_slashes_plain:
  "plain x \<Longrightarrow> colons_to_slashes (x @ CHR '':'' # CHR '':'' # r) = x @ ''/'' @ colons_to_slashes r"
proof (induction x)
  case (Cons c x)
  then show ?case by (cases x) (auto simp: plain_def)
qed simp

lemma colons_to_slashes_plain_end: "plain x \<Longrightarrow> colons_to_slashes x = x"
proof (induction x)
  case (Cons c x)
  then show ?case by (cases x) (auto simp: plain_def)
qed simp

lemma colons_to_slashes_join:
  "\<forall>x \<in> set ns. plain x \<Longrightarrow> colons_to_slashes (join ''::'' ns) = join ''/'' ns"
proof (induction ns)
  case (Cons x ns)
  then show ?case
    using colons_to_slashes_plain [of x "join ''::'' ns"]
    by (cases "ns = []") (auto simp: join_Cons colons_to_slashes_plain_end)
qed simp

lemma demangle_dds_type_joined:
  assumes "\<forall>x \<in> set namespaces. component x" and "namespaces \<noteq> []" and "plain name"
  shows "demangle_dds_type (dds_type_name namespaces name) = join ''/'' (namespaces @ [name])"
proof -
  have "dds_type_name namespaces name =
      join ''::'' namespaces @ ''::dds_::'' @ (name @ ''_'')"
    using assms(2) by (simp add: dds_type_name_def join_append)
  then have "erase_dds_marker (dds_type_name namespaces name) =
      (join ''::'' namespaces @ ''::'' @ name) @ ''_''"
    using erase_dds_marker_join [OF assms(1,2)] by simp
  then have "pop_underscore (erase_dds_marker (dds_type_name namespaces name)) =
      join ''::'' (namespaces @ [name])"
    using assms(2) by (simp add: pop_underscore_def join_append butlast_append)
  moreover have "\<forall>x \<in> set (namespaces @ [name]). plain x"
    using assms by (auto simp: component_def)
  ultimately show ?thesis
    by (simp add: demangle_dds_type_def replace_colons_eq colons_to_slashes_join)
qed

lemma join_snoc_append: "join sep (xs @ [x @ y]) = join sep (xs @ [x]) @ y"
  by (induction sep xs rule: join.induct) (auto simp: join_Cons)

lemma strip_first_suffix_hit:
  "strip_first_suffix (s # ss) (r @ s) = r"
  by simp

lemma demangle_dds_service_type_joined:
  assumes "\<forall>x \<in> set namespaces. component x" and "namespaces \<noteq> []" and "plain name"
    and "suffix = ''_Request'' \<or> suffix = ''_Response''"
  shows "demangle_dds_service_type (dds_type_name namespaces (name @ suffix)) =
    join ''/'' (namespaces @ [name])"
proof -
  have p: "plain (name @ suffix)"
    using assms(3,4) by (auto simp: plain_def)
  have "\<not> ends_with (r @ ''_Response'') ''_Request''" for r
    by (simp add: ends_with_def)
  then show ?thesis
    using assms(4) demangle_dds_type_joined [OF assms(1,2) p]
    by (auto simp: demangle_dds_service_type_def join_snoc_append simp del: append.simps)
qed


section \<open>Maps of names and types\<close>

lemma map_of_nt_insert:
  assumes "nt_wf m"
  shows "map_of (nt_insert name type m) =
    (map_of m)(name \<mapsto> insort_insert type (case map_of m name of None \<Rightarrow> [] | Some ts \<Rightarrow> ts))"
  using assms
proof (induction name type m rule: nt_insert.induct)
  case (1 name type)
  then show ?case by (auto simp: insort_insert_key_def)
next
  case (2 name type k ts rest)
  have wf: "nt_wf rest" and le: "\<forall>x \<in> fst ` set rest. k \<le> x"
    using "2.prems" by (auto simp: nt_wf_def)
  have fresh: "name < k \<Longrightarrow> map_of rest name = None"
    using le by (meson leD map_of_eq_None_iff)
  consider "k = name" | "k \<noteq> name" "name < k" | "k \<noteq> name" "\<not> name < k" by blast
  then show ?case
  proof cases
    case 2
    with fresh show ?thesis by (auto simp: insort_insert_key_def)
  next
    case 3
    with "2.IH" wf show ?thesis by (auto simp: fun_eq_iff)
  qed (simp add: fun_eq_iff)
qed

lemma nt_types_insert:
  assumes "nt_wf m"
  shows "nt_types (nt_insert name type m) k =
    (if k = name then insert type (nt_types m k) else nt_types m k)"
  using map_of_nt_insert [OF assms, of name type]
  by (auto simp: nt_types_def set_insort_insert split: option.splits)

lemma fst_set_nt_insert: "fst ` set (nt_insert name type m) = insert name (fst ` set m)"
  by (induction name type m rule: nt_insert.induct) auto

lemma insort_insert_not_Nil [simp]: "insort_insert x xs \<noteq> []"
  by (auto simp: insort_insert_key_def)

lemma nt_wf_insert [simp]: "nt_wf m \<Longrightarrow> nt_wf (nt_insert name type m)"
proof (induction name type m rule: nt_insert.induct)
  case (1 name type)
  then show ?case by (simp add: nt_wf_def)
next
  case (2 name type k ts rest)
  have wf: "nt_wf rest" and le: "\<forall>x \<in> fst ` set rest. k \<le> x" and nin: "k \<notin> fst ` set rest"
    and ts: "sorted ts" "distinct ts" "ts \<noteq> []"
    using "2.prems" by (auto simp: nt_wf_def)
  consider "k = name" | "k \<noteq> name" "name < k" | "k \<noteq> name" "\<not> name < k" by blast
  then show ?case
  proof cases
    case 1
    then show ?thesis using "2.prems"
      by (auto simp: nt_wf_def sorted_insort_insert distinct_insort_insert)
  next
    case 2
    then show ?thesis using "2.prems" le nin
      by (force simp: nt_wf_def)
  next
    case 3
    then have "nt_wf (nt_insert name type rest)" using "2.IH" wf by blast
    with 3 ts le nin fst_set_nt_insert [of name type rest] show ?thesis
      by (auto simp: nt_wf_def)
  qed
qed

lemma nt_wf_Nil [simp]: "nt_wf []"
  by (simp add: nt_wf_def)

lemma nt_types_Nil [simp]: "nt_types [] k = {}"
  by (simp add: nt_types_def)

lemma nt_wf_member: "nt_wf m \<Longrightarrow> (\<exists>ts. (k, ts) \<in> set m \<and> t \<in> set ts) \<longleftrightarrow> t \<in> nt_types m k"
proof -
  assume "nt_wf m"
  then have "(k, ts) \<in> set m \<longleftrightarrow> map_of m k = Some ts" for ts
    by (simp add: nt_wf_def map_of_eq_Some_iff)
  then show ?thesis by (auto simp: nt_types_def split: option.splits)
qed

text \<open>Inserting a list of types under one name, the inner loop shared by all queries.\<close>

lemma nt_fold_insert:
  assumes "nt_wf m"
  shows "nt_wf (fold (\<lambda>t. nt_insert name (f t)) ts m)"
    and "nt_types (fold (\<lambda>t. nt_insert name (f t)) ts m) k =
      nt_types m k \<union> (if k = name then f ` set ts else {})"
  using assms by (induction ts arbitrary: m) (auto simp: nt_types_insert)

lemma nt_fold_insert_if:
  assumes "nt_wf m"
  shows "nt_wf (fold (\<lambda>t r. if P t then nt_insert name t r else r) ts m)"
    and "nt_types (fold (\<lambda>t r. if P t then nt_insert name t r else r) ts m) k =
      nt_types m k \<union> (if k = name then {t \<in> set ts. P t} else {})"
  using assms by (induction ts arbitrary: m) (auto simp: nt_types_insert)

text \<open>A topic of the form prefix, service, suffix names that service.\<close>

definition carries :: "string \<Rightarrow> string \<Rightarrow> string \<Rightarrow> string \<Rightarrow> bool" where
  "carries prefix suffix topic service \<longleftrightarrow> service \<noteq> [] \<and> topic = prefix @ service @ suffix"

lemma extract_topic_types:
  assumes "nt_wf m"
  shows "nt_wf (extract_topic prefix suffix (topic, types) m)"
    and "nt_types (extract_topic prefix suffix (topic, types) m) k =
      nt_types m k \<union> (if carries prefix suffix topic k then demangle_dds_service_type ` set types else {})"
proof -
  let ?bad = "length topic \<le> length prefix + length suffix \<or> \<not> starts_with topic prefix
            \<or> \<not> ends_with topic suffix"
  let ?s = "take (length topic - length prefix - length suffix) (drop (length prefix) topic)"
  have carries: "carries prefix suffix topic k \<longleftrightarrow> \<not> ?bad \<and> k = ?s"
  proof
    assume c: "carries prefix suffix topic k"
    then show "\<not> ?bad \<and> k = ?s"
      by (auto simp: carries_def starts_with_def ends_with_def)
  next
    assume r: "\<not> ?bad \<and> k = ?s"
    then obtain a b where a: "topic = prefix @ a" and b: "topic = b @ suffix"
      unfolding starts_with_iff ends_with_iff by metis
    then consider us where "prefix = b @ us" "us @ a = suffix"
      | us where "prefix @ us = b" "a = us @ suffix"
      by (metis append_eq_append_conv2)
    then show "carries prefix suffix topic k"
      using r a by cases (auto simp: carries_def)
  qed
  show "nt_wf (extract_topic prefix suffix (topic, types) m)"
    using assms by (simp add: extract_topic_def Let_def nt_fold_insert(1))
  show "nt_types (extract_topic prefix suffix (topic, types) m) k =
      nt_types m k \<union> (if carries prefix suffix topic k then demangle_dds_service_type ` set types else {})"
    unfolding carries using assms
    by (auto simp: extract_topic_def Let_def nt_fold_insert(2))
qed

lemma extract_service_topics_fold:
  assumes "nt_wf m"
  shows "nt_wf (fold (extract_topic prefix suffix) eps m) \<and>
    nt_types (fold (extract_topic prefix suffix) eps m) k =
      nt_types m k \<union> (\<Union>(topic, types) \<in> set eps.
        if carries prefix suffix topic k then demangle_dds_service_type ` set types else {})"
  using assms
proof (induction eps arbitrary: m)
  case (Cons e eps)
  obtain topic types where e: "e = (topic, types)" by (cases e)
  note step = extract_topic_types [OF Cons.prems, of prefix suffix topic types]
  show ?case
    using Cons.IH [OF step(1)] step(2) e by auto
qed simp

lemma extract_service_topics_types:
  "nt_wf (extract_service_topics eps prefix suffix) \<and>
   nt_types (extract_service_topics eps prefix suffix) service =
     (\<Union>(topic, types) \<in> set eps.
        if carries prefix suffix topic service then demangle_dds_service_type ` set types else {})"
  using extract_service_topics_fold [OF nt_wf_Nil] by (simp add: extract_service_topics_def)

lemma intersect_entry_types:
  assumes "nt_wf m"
  shows "nt_wf (intersect_entry second (name, types) m)"
    and "nt_types (intersect_entry second (name, types) m) k =
      nt_types m k \<union> (if k = name then set types \<inter> nt_types second k else {})"
  using nt_fold_insert_if [OF assms] assms
  by (auto simp: intersect_entry_def nt_types_def [of second] split: option.split)

lemma intersect_fold:
  assumes "nt_wf m"
  shows "nt_wf (fold (intersect_entry second) es m)"
    and "nt_types (fold (intersect_entry second) es m) k =
      nt_types m k \<union> {t. \<exists>ts. (k, ts) \<in> set es \<and> t \<in> set ts \<and> t \<in> nt_types second k}"
  using assms by (induction es arbitrary: m) (auto simp: intersect_entry_types split: if_splits)

lemma intersect_services_types:
  assumes "nt_wf first"
  shows "nt_wf (intersect_services first second)"
    and "nt_types (intersect_services first second) k = nt_types first k \<inter> nt_types second k"
  using intersect_fold [OF nt_wf_Nil, of second first] nt_wf_member [OF assms, of k, symmetric]
  by (auto simp: intersect_services_def)

lemma merge_services_types:
  assumes "nt_wf m" and "nt_wf ns"
  shows "nt_wf (merge_services ns m)"
    and "nt_types (merge_services ns m) k = nt_types m k \<union> nt_types ns k"
proof -
  have "nt_wf (fold (\<lambda>(name, types). fold (nt_insert name) types) es m) \<and>
     (\<forall>t. t \<in> nt_types (fold (\<lambda>(name, types). fold (nt_insert name) types) es m) k \<longleftrightarrow>
      t \<in> nt_types m k \<or> (\<exists>ts. (k, ts) \<in> set es \<and> t \<in> set ts))" for es
    using assms(1)
  proof (induction es arbitrary: m)
    case (Cons e es)
    obtain name types where e: "e = (name, types)" by (cases e)
    note step = nt_fold_insert [OF Cons.prems, of name "\<lambda>x. x" types]
    show ?case
      using Cons.IH [OF step(1)] step(2) e by auto
  qed simp
  then show "nt_wf (merge_services ns m)"
    and "nt_types (merge_services ns m) k = nt_types m k \<union> nt_types ns k"
    using nt_wf_member [OF assms(2), of k] by (auto simp: merge_services_def)
qed

text \<open>A type under a service, by the endpoints that carry the service.\<close>

definition carried :: "(string \<times> string list) list \<Rightarrow> string \<Rightarrow> string \<Rightarrow> string \<Rightarrow> string \<Rightarrow> bool" where
  "carried eps prefix suffix service type \<longleftrightarrow> (\<exists>topic types raw. (topic, types) \<in> set eps \<and> raw \<in> set types \<and>
     carries prefix suffix topic service \<and> type = demangle_dds_service_type raw)"

lemma extract_carried:
  "type \<in> nt_types (extract_service_topics eps p s) service \<longleftrightarrow> carried eps p s service type"
proof
  assume "type \<in> nt_types (extract_service_topics eps p s) service"
  then show "carried eps p s service type"
    unfolding carried_def by (auto simp: extract_service_topics_types split: if_splits) blast
qed (auto simp: carried_def extract_service_topics_types split: if_splits intro!: bexI)

lemma services_listed:
  "nt_wf (intersect_services (extract_service_topics requests ''rt/rq'' ''Request'')
            (extract_service_topics replies ''rt/rr'' ''Reply'')) \<and>
   (type \<in> nt_types (intersect_services (extract_service_topics requests ''rt/rq'' ''Request'')
                       (extract_service_topics replies ''rt/rr'' ''Reply'')) service \<longleftrightarrow>
    carried requests ''rt/rq'' ''Request'' service type \<and> carried replies ''rt/rr'' ''Reply'' service type)"
  by (simp add: extract_carried [symmetric] intersect_services_types conjunct1 [OF extract_service_topics_types])

section \<open>Properties\<close>

text \<open>
  C7. A type name produced by the generator is demangled to the ROS name with slashes: the marker
  component and the trailing underscore disappear and nothing else changes.
\<close>

theorem demangle_dds_type_roundtrip:
  assumes "\<forall>x \<in> set namespaces. component x" and "namespaces \<noteq> []" and "plain name"
  shows "demangle_dds_type (dds_type_name namespaces name) = join ''/'' (namespaces @ [name])"
  using assms by (rule demangle_dds_type_joined)

theorem demangle_dds_type_roundtrip_witness:
  "demangle_dds_type (dds_type_name [''std_msgs'', ''msg''] ''String'') = ''std_msgs/msg/String''"
  using demangle_dds_type_roundtrip [of "[''std_msgs'', ''msg'']" "''String''"]
  by (simp add: component_def plain_def)

text \<open>
  C8. The topics of every accepted service name, published under the ROS prefix, are listed by the
  graph queries under exactly that service name with their demangled types, and are hidden from the
  plain topic list.
\<close>

theorem service_topics_roundtrip:
  assumes "service_topics (Some name) room = Some (request, reply)"
    and "dds_topic_name request False = Some dds_request"
    and "dds_topic_name reply False = Some dds_reply"
  shows "nt_types (extract_service_topics [(dds_request, types)] ''rt/rq'' ''Request'') service =
      (if service = name then demangle_dds_service_type ` set types else {}) \<and>
    nt_types (extract_service_topics [(dds_reply, types)] ''rt/rr'' ''Reply'') service =
      (if service = name then demangle_dds_service_type ` set types else {}) \<and>
    demangle_dds_topic dds_request = [] \<and> demangle_dds_topic dds_reply = []"
proof -
  have "name \<noteq> []" and "request = ''/rq'' @ name @ ''Request''" and "reply = ''/rr'' @ name @ ''Reply''"
    using assms(1) by (auto simp: service_topics_def split: if_splits)
  moreover from this have "dds_request = ''rt/rq'' @ name @ ''Request''"
    and "dds_reply = ''rt/rr'' @ name @ ''Reply''"
    using assms(2,3) by (auto simp: dds_topic_name_def split: if_splits)
  ultimately show ?thesis
    by (simp add: extract_service_topics_types carries_def demangle_dds_topic_def starts_with_def)
qed

theorem service_topics_roundtrip_witness:
  "nt_types (extract_service_topics [(''rt/rq/addRequest'', [''pkg::srv::dds_::Add_Request_''])] ''rt/rq'' ''Request'')
     ''/add'' = {''pkg/srv/Add''} \<and> demangle_dds_topic ''rt/rr/addReply'' = []"
proof -
  have "demangle_dds_service_type ''pkg::srv::dds_::Add_Request_'' = ''pkg/srv/Add''" by code_simp
  then show ?thesis
    using service_topics_roundtrip [of "''/add''" True "''/rq/addRequest''" "''/rr/addReply''"
        "''rt/rq/addRequest''" "''rt/rr/addReply''" "[''pkg::srv::dds_::Add_Request_'']" "''/add''"]
    by (simp add: service_topics_def starts_with_def dds_topic_name_def)
qed

text \<open>
  The services a node reports: a type is listed under a service if and only if it is demangled
  from a type of one of the node's request topics and from one of its reply topics of that service;
  the listing is sorted and free of duplicates and of empty entries.
\<close>

theorem service_listing_exact:
  "let listing = intersect_services (extract_service_topics requests ''rt/rq'' ''Request'')
                   (extract_service_topics replies ''rt/rr'' ''Reply'') in
   nt_wf listing \<and>
   (type \<in> nt_types listing service \<longleftrightarrow>
     (\<exists>topic types raw. (topic, types) \<in> set requests \<and> raw \<in> set types \<and>
        carries ''rt/rq'' ''Request'' topic service \<and> type = demangle_dds_service_type raw) \<and>
     (\<exists>topic types raw. (topic, types) \<in> set replies \<and> raw \<in> set types \<and>
        carries ''rt/rr'' ''Reply'' topic service \<and> type = demangle_dds_service_type raw))"
  using services_listed [of requests replies type service] by (simp add: Let_def carried_def)

text \<open>
  C15. A ROS topic round trips through the DDS name unless its name begins with the first three
  characters of a service topic's name, in which case the graph hides it.
\<close>

theorem demangle_dds_topic_roundtrip:
  assumes "dds_topic_name topic False = Some dds_name" and "starts_with topic ''/''"
  shows "demangle_dds_topic dds_name =
    (if starts_with topic ''/rq'' \<or> starts_with topic ''/rr'' then [] else topic)"
proof -
  have "dds_name = ''rt'' @ topic"
    using assms(1) by (auto simp: dds_topic_name_def split: if_splits)
  moreover obtain r where "topic = ''/'' @ r"
    using assms(2) by (auto simp: starts_with_iff)
  ultimately show ?thesis
    by (simp add: demangle_dds_topic_def starts_with_def)
qed

theorem demangle_dds_topic_roundtrip_witness:
  "demangle_dds_topic ''rt/rrbot/joint_states'' = []"
  using demangle_dds_topic_roundtrip [of "''/rrbot/joint_states''" "''rt/rrbot/joint_states''"]
  by (simp add: dds_topic_name_def starts_with_def)

end
