(* ===== verification/Graph_Props.thy ===== *)
theory Graph_Props
  imports Graph Discovery_Props Name_Lemmas Endpoints
begin

text \<open>
  What the graph queries answer and what they leave: the listing of all services, the counts of the
  clients and servers of one, and that every temporary array is finalised on every path.
\<close>

section \<open>The parts of a query\<close>

text \<open>
  The cache does not change during a query: its answers do not depend on the calls before. They do
  depend on the demanglers that a query passes: \<open>N c f g\<close> are the names that \<open>c\<close> finds with \<open>f\<close> for the
  topics and \<open>g\<close> for the types, \<open>I c f\<close> the endpoints or services with \<open>f\<close> for the types.
\<close>

type_synonym names_of = "call \<Rightarrow> (string \<Rightarrow> string) \<Rightarrow> (string \<Rightarrow> string) \<Rightarrow> (string \<times> string list) list"

type_synonym infos_of = "call \<Rightarrow> (string \<Rightarrow> string) \<Rightarrow> nat list"

definition cache_fixed :: "env \<Rightarrow> (string \<times> string \<times> string) list \<Rightarrow> names_of \<Rightarrow> infos_of \<Rightarrow> bool" where
  "cache_fixed E ns N I \<longleftrightarrow> (\<forall>t. node_names_answer E t (CacheNodes False) = ns \<and>
     names_answer E t = N \<and> infos_answer E t = I)"

text \<open>The names as the endpoints have them.\<close>

definition raw_names :: "names_of \<Rightarrow> call \<Rightarrow> (string \<times> string list) list" where
  "raw_names N c = N c identity_name identity_name"

lemma cache_fixedD:
  assumes "cache_fixed E ns N I"
  shows "node_names_answer E t (CacheNodes False) = ns"
    "names_answer E t c identity_name identity_name = raw_names N c" "infos_answer E t c f = I c f"
  using assms by (simp_all add: cache_fixed_def raw_names_def)

lemma given_cache_array:
  assumes "\<And>ret w'. ret \<noteq> RMW_RET_OK \<Longrightarrow> given h e rs w' (f ((ret, zero_array), w')) Q"
    and "\<And>p w'. p \<noteq> nullptr \<Longrightarrow> given h e (Entity kind p # rs) w' (f ((RMW_RET_OK, (p, xs)), w')) Q"
  shows "given h e rs w (Option.bind (cache_array E kind c xs w) f) Q"
  unfolding cache_array_def
  apply (rule given_bind_let_pair)
  apply (rule given_call_rmw)
  apply (rule given_bind_if)
   apply (rule given_bind_Some, erule assms)
  apply (rule given_bind_let_pair)
  apply (rule given_hold)
  apply (rule given_bind_Some, erule assms)
  done

lemma given_cache_names [step]:
  assumes "\<And>ret w'. ret \<noteq> RMW_RET_OK \<Longrightarrow> given h e rs w' (f ((ret, zero_array), w')) Q"
    and "\<And>p t w'. p \<noteq> nullptr \<Longrightarrow>
      given h e (Entity NamesAndTypes p # rs) w' (f ((RMW_RET_OK, (p, names_answer E t c dt dy)), w')) Q"
  shows "given h e rs w (Option.bind (cache_names E c dt dy w) f) Q"
  unfolding cache_names_def by (rule given_cache_array) (fact assms)+

lemma given_cache_infos [step]:
  assumes "\<And>ret w'. ret \<noteq> RMW_RET_OK \<Longrightarrow> given h e rs w' (f ((ret, zero_array), w')) Q"
    and "\<And>p t w'. p \<noteq> nullptr \<Longrightarrow> given h e (Entity kind p # rs) w' (f ((RMW_RET_OK, (p, infos_answer E t c dy)), w')) Q"
  shows "given h e rs w (Option.bind (cache_infos E kind c dy w) f) Q"
  unfolding cache_infos_def by (rule given_cache_array) (fact assms)+

lemma given_cache_nodes [step]:
  assumes "\<And>ret w'. ret \<noteq> RMW_RET_OK \<Longrightarrow> given h e rs w' (f ((ret, zero_array), w')) Q"
    and "\<And>p t w'. p \<noteq> nullptr \<Longrightarrow>
      given h e (Entity StringArrays p # rs) w' (f ((RMW_RET_OK, (p, node_names_answer E t (CacheNodes enclaves))), w')) Q"
  shows "given h e rs w (Option.bind (cache_nodes E enclaves w) f) Q"
  unfolding cache_nodes_def by (rule given_cache_array) (fact assms)+

text \<open>Finalising an array, at the depths that occur, and one that is still zero-initialised.\<close>

lemma given_fini_array:
  assumes "p \<noteq> nullptr" "\<And>w'. given h e (as @ bs) w' (f w') Q"
  shows "given h e (as @ Entity kind p # bs) w (Option.bind (fini_array kind (p, xs) w) f) Q"
  using given_destroy [OF assms] assms(1) by (simp add: fini_array_def)

lemmas given_fini_depths [step] =
  given_fini_array [of _ _ _ "[]", unfolded append.simps] given_fini_array [of _ _ _ "[r1]" for r1, unfolded append.simps]

lemma given_fini_zero [step]:
  "given h e rs w (f w) Q \<Longrightarrow> given h e rs w (Option.bind (fini_array kind zero_array w) f) Q"
  by (simp add: fini_array_def zero_array_def)

section \<open>Filling the output\<close>

lemma fill_types_frame [simp]:
  "heap (snd (fill_types E types w)) = heap w" "next_ptr (snd (fill_types E types w)) = next_ptr w"
  "entities (snd (fill_types E types w)) = entities w"
  by (induction types arbitrary: w) (simp_all add: call_ok_def)

lemma fill_entries_frame [simp]:
  "heap (snd (fill_entries E listing w)) = heap w" "next_ptr (snd (fill_entries E listing w)) = next_ptr w"
  "entities (snd (fill_entries E listing w)) = entities w"
  by (induction listing arbitrary: w) (auto simp: call_ok_def split_beta Let_def)

lemma given_fill_names_and_types [step]:
  assumes "\<And>ret w'. ret \<noteq> RMW_RET_OK \<Longrightarrow> given h e rs w' (f ((ret, zero_array), w')) Q"
    and "\<And>p w'. p \<noteq> nullptr \<Longrightarrow> given h e (Entity NamesAndTypes p # rs) w' (f ((RMW_RET_OK, (p, listing)), w')) Q"
  shows "given h e rs w (Option.bind (fill_names_and_types E listing w) f) Q"
proof -
  have entries: "given h e rs' w (let (b, w') = fill_entries E listing w in k b w') Q"
    if "\<And>b w'. given h e rs' w' (k b w') Q" for rs' w k
    using that by (simp add: given_def split_beta ledger_same_state [of "snd (fill_entries E listing w)" w])
  show ?thesis
    unfolding fill_names_and_types_def
    by (intro step entries) (simp_all add: assms given_null_entity)
qed

lemma given_list_services [step]:
  assumes "\<And>ret w'. ret \<noteq> RMW_RET_OK \<Longrightarrow> given h e rs w' (f ((ret, zero_array), w')) Q"
    and "\<And>p w'. p \<noteq> nullptr \<Longrightarrow> given h e (Entity NamesAndTypes p # rs) w' (f ((RMW_RET_OK,
      (p, intersect_services (extract_service_topics requests ''rt/rq'' ''Request'')
            (extract_service_topics replies ''rt/rr'' ''Reply''))), w')) Q"
  shows "given h e rs w (Option.bind (list_services E requests replies w) f) Q"
  unfolding list_services_def by (intro step) (simp_all add: assms)

section \<open>Services\<close>

text \<open>The services of one node, by the answers of a fixed cache.\<close>

definition node_listing :: "names_of \<Rightarrow> bool \<Rightarrow> string \<Rightarrow> string \<Rightarrow> names_and_types" where
  "node_listing N as_client name namespace =
     intersect_services (extract_service_topics (raw_names N (request_query as_client name namespace)) ''rt/rq'' ''Request'')
       (extract_service_topics (raw_names N (reply_query as_client name namespace)) ''rt/rr'' ''Reply'')"

lemma given_service_names:
  assumes "cache_fixed E ns N I"
    and "\<And>ret w'. ret \<noteq> RMW_RET_OK \<Longrightarrow> given h e rs w' (f ((ret, zero_array), w')) Q"
    and "\<And>p w'. p \<noteq> nullptr \<Longrightarrow> given h e (Entity NamesAndTypes p # rs) w'
      (f ((RMW_RET_OK, (p, node_listing N as_client name namespace)), w')) Q"
  shows "given h e rs w (Option.bind (get_service_names_and_types_from_cache E as_client name namespace w) f) Q"
  unfolding get_service_names_and_types_from_cache_def
  by (intro step, simp_all add: cache_fixedD [OF assms(1)] assms(2,3) node_listing_def [symmetric])+

text \<open>The services of several nodes.\<close>

definition all_listings ::
  "names_of \<Rightarrow> (string \<times> string \<times> string) list \<Rightarrow> names_and_types \<Rightarrow> names_and_types" where
  "all_listings N ns m = fold (\<lambda>(name, namespace, _). merge_services (node_listing N False name namespace)) ns m"

lemma given_merge_found [step]:
  assumes "\<And>w'. given h e rs w' (f ((RMW_RET_BAD_ALLOC, found), w')) Q"
    and "\<And>w'. given h e rs w' (f ((RMW_RET_OK, merge_services ss found), w')) Q"
  shows "given h e rs w (Option.bind (merge_found E ss found w) f) Q"
  unfolding merge_found_def by (intro step) (simp_all add: assms)

lemma given_collect_services:
  assumes "cache_fixed E all N I"
    and "\<And>ret m' w'. ret \<noteq> RMW_RET_OK \<Longrightarrow> given h e rs w' (f ((ret, m'), w')) Q"
    and "\<And>w'. given h e rs w' (f ((RMW_RET_OK, all_listings N ns m), w')) Q"
  shows "given h e rs w (Option.bind (collect_services E ns m w) f) Q"
  using assms(3)
proof (induction ns arbitrary: m w)
  case (Cons n ns)
  obtain name namespace enclave where n: "n = (name, namespace, enclave)" by (cases n)
  have IH: "given h e rs w' (Option.bind (collect_services E ns (merge_services (node_listing N False name namespace) m) w') f) Q" for w'
    using Cons.prems n by (intro Cons.IH) (simp add: all_listings_def)
  show ?case
    unfolding n collect_services.simps
    by (intro step given_service_names [OF assms(1)], simp_all add: assms(2) IH)+
qed (simp add: all_listings_def)

lemma node_listing_types:
  "nt_wf (node_listing N as_client name namespace)"
  "type \<in> nt_types (node_listing N as_client name namespace) service \<longleftrightarrow>
     carried (raw_names N (request_query as_client name namespace)) ''rt/rq'' ''Request'' service type \<and>
     carried (raw_names N (reply_query as_client name namespace)) ''rt/rr'' ''Reply'' service type"
  using services_listed by (simp_all add: node_listing_def)

lemma all_listings_types:
  assumes "nt_wf m"
  shows "nt_wf (all_listings N ns m) \<and> (type \<in> nt_types (all_listings N ns m) service \<longleftrightarrow>
    type \<in> nt_types m service \<or>
    (\<exists>(name, namespace, _) \<in> set ns. type \<in> nt_types (node_listing N False name namespace) service))"
  using assms
proof (induction ns arbitrary: m)
  case (Cons n ns)
  obtain name namespace enclave where n: "n = (name, namespace, enclave)" by (cases n)
  have "all_listings N (n # ns) m = all_listings N ns (merge_services (node_listing N False name namespace) m)"
    by (simp add: all_listings_def n)
  with Cons.IH [of "merge_services (node_listing N False name namespace) m"] show ?case
    using merge_services_types [OF Cons.prems node_listing_types(1)] by (auto simp: n)
qed (simp add: all_listings_def)

section \<open>Checked arguments\<close>

text \<open>A live node passes the checks; the state after the refresh is that of the ledger rules again.\<close>

lemma live_node_checked:
  assumes "live_node node nh context ci c w" "others"
  shows "check_query node others w = Some RMW_RET_OK" "context_of node w = Some ci"
  using assms
  by (auto simp: check_query_def context_of_def live_node_def live_context_def node_handle_at_def context_at_def)

lemma refreshed:
  assumes "live_node node nh context ci c w" "deletes_succeed E"
    and "\<And>ret w'. ret \<noteq> RMW_RET_OK \<Longrightarrow> entities w' = entities w \<Longrightarrow> Q' (ret, w')"
    and "\<And>w'. wf_world w' \<Longrightarrow> entities w' = entities w \<Longrightarrow> Q' (RMW_RET_OK, w')"
  shows "post (refresh_for E node w) Q'"
proof -
  have ci: "ci \<noteq> nullptr" "heap w ci = Some (ContextImpl c)" "wf_world w"
    using assms(1) by (simp_all add: live_node_def live_context_def)
  have wf: "wf_world w'" if "heap w' = (heap w)(ci \<mapsto> ContextImpl c')" "next_ptr w \<le> next_ptr w'" for w' :: world and c'
    using that ci wf_worldD(5) [OF ci(3,2)] by (auto simp: wf_world_def)
  show ?thesis
    unfolding refresh_for_def live_node_checked(2) [OF assms(1) TrueI] bind.bind_lunit
    using refresh_frame [OF ci(1,2) assms(2)]
  proof (rule post_mono)
    fix r :: "rmw_ret \<times> world"
    assume "case r of (ret, w') \<Rightarrow>
      (\<exists>c'. heap w' = (heap w)(ci \<mapsto> ContextImpl c')) \<and> next_ptr w \<le> next_ptr w' \<and> entities w' = entities w"
    then show "Q' r" using assms(3,4) wf by (cases r; cases "fst r = RMW_RET_OK") auto
  qed
qed

lemma live_node_record: "live_node node nh context ci c w \<Longrightarrow> live_node node nh context ci c (record_call x w)"
  by (simp add: live_node_def live_context_def wf_world_def)

text \<open>
  The pairs that a fixed cache finds among the endpoints that read the topic \<open>a\<close> and those that write
  \<open>b\<close>, whose types are demangled to the service's.
\<close>

definition found_pairs :: "infos_of \<Rightarrow> (nat list \<Rightarrow> nat list \<Rightarrow> call) \<Rightarrow> string \<Rightarrow> string \<Rightarrow> nat list" where
  "found_pairs I pairing a b =
     I (pairing (I (CacheReaderInfos a) demangle_dds_service_type) (I (CacheWriterInfos b) demangle_dds_service_type))
       identity_name"

lemma given_match_endpoints:
  assumes "cache_fixed E ns N I"
    and "\<And>ret w'. ret \<noteq> RMW_RET_OK \<Longrightarrow> given h e rs w' (f ((ret, zero_array), w')) Q"
    and "\<And>p w'. p \<noteq> nullptr \<Longrightarrow> given h e (Entity ServiceInfos p # rs) w'
      (f ((RMW_RET_OK, (p, found_pairs I pairing a b)), w')) Q"
  shows "given h e rs w (Option.bind (match_endpoints E a b pairing w) f) Q"
  unfolding match_endpoints_def
  by (intro step, simp_all add: cache_fixedD [OF assms(1)] assms(2,3) found_pairs_def [symmetric])+

text \<open>Counting the pairs that a query finds: its output is finalised.\<close>

definition counted :: "world \<Rightarrow> nat list \<Rightarrow> (rmw_ret \<times> size_t option) \<times> world \<Rightarrow> bool" where
  "counted w infos r \<longleftrightarrow> (case r of ((ret, n), w') \<Rightarrow>
     entities w' = entities w \<and> n = (if ret = RMW_RET_OK then Some (of_nat (length infos)) else None))"

lemma count_services_counts:
  assumes "live_node node nh context ci c w" "deletes_succeed E" "cache_fixed E ns N I"
    and query: "query (record_call (ValidateTopicName service) w) = do {
      (refresh, v) \<leftarrow> refresh_for E node (record_call (ValidateTopicName service) w);
      if refresh \<noteq> RMW_RET_OK then Some ((refresh, zero_array), v) else match_endpoints E a b pairing v }"
  shows "post (count_services query E node (Some service) True w)
    (counted w (found_pairs I pairing a b))"
proof -
  let ?w = "record_call (ValidateTopicName service) w"
  have l: "live_node node nh context ci c ?w" using assms(1) by (rule live_node_record)
  let ?rest = "\<lambda>((ret, info), v). do {
      v \<leftarrow> fini_array ServiceInfos info v;
      Some ((ret, if ret = RMW_RET_OK then Some (of_nat (length (snd info))) else None), v) }"
  let ?Q = "counted w (found_pairs I pairing a b)"
  have found: "given h e [] v (Option.bind (match_endpoints E a b pairing v) ?rest) ?Q" if "e = entities w" for h e v
    by (rule given_match_endpoints [OF assms(3)])
       (intro step, simp_all add: counted_def that ledger_empty)+
  have "post (Option.bind (query ?w) ?rest) ?Q"
    unfolding query Option.bind_assoc post_bind [of "refresh_for E node ?w"]
  proof (rule refreshed [OF l assms(2)], goal_cases)
    case (1 ret v)
    then show ?case by (simp add: fini_array_def zero_array_def counted_def)
  next
    case (2 v)
    then show ?case using given_start [OF 2(1) found] by simp
  qed
  then show ?thesis
    unfolding count_services_def validate_count_arguments_def live_node_checked(1) [OF assms(1)]
    by (cases "ok E (trace w) (ValidateTopicName service)")
       (simp_all add: live_node_checked(1) [OF assms(1)] call_ok_def counted_def)
qed

text \<open>The output of a query for names: the listing and what holds it, or nothing.\<close>

definition answered :: "world \<Rightarrow> names_and_types \<Rightarrow> (rmw_ret \<times> names_filled) \<times> world \<Rightarrow> bool" where
  "answered w listing r \<longleftrightarrow> (case r of ((ret, out), w') \<Rightarrow>
     entities w' = entities w + (if ret = RMW_RET_OK then {#(NamesAndTypes, fst out)#} else {#}) \<and>
     (ret = RMW_RET_OK \<longrightarrow> snd out = listing))"

lemma given_all_services:
  assumes "cache_fixed E ns N I" "e = entities w"
  shows "given h e [] v (do {
      ((result, names), v) \<leftarrow> cache_nodes E False v;
      ((result, services), v) \<leftarrow> (if result = RMW_RET_OK then collect_services E (snd names) [] v
        else Some ((result, []), v));
      ((result, filled), v) \<leftarrow> (if result = RMW_RET_OK then fill_names_and_types E services v
        else Some ((result, zero_array), v));
      v \<leftarrow> fini_array StringArrays names v;
      Some ((result, filled), v) }) (answered w (all_listings N ns []))"
  by (intro step given_collect_services [OF assms(1)],
      simp_all add: cache_fixedD [OF assms(1)] answered_def ledger_def assms(2))+

section \<open>Properties\<close>

text \<open>
  C38. While the graph cache does not change, \<^verbatim>\<open>rmw_get_service_names_and_types\<close> lists a type under a service
  exactly when some node of the graph has an endpoint that reads the requests and one that writes the
  replies of that service with it, by the names that the cache gives when it demangles neither topics
  nor types; the listing is sorted and without duplicates. Whatever fails, the only
  thing the query leaves is its output, and nothing on an error.
\<close>

theorem all_services_listed:
  assumes "live_node node nh context ci c w" "deletes_succeed E" "cache_fixed E ns N I"
  shows "post (rmw_get_service_names_and_types E node (Some True) (Some True) w) (\<lambda>((ret, out), w').
    entities w' = entities w + (if ret = RMW_RET_OK then {#(NamesAndTypes, fst out)#} else {#}) \<and>
    (ret = RMW_RET_OK \<longrightarrow> nt_wf (snd out) \<and> (\<forall>service type. type \<in> nt_types (snd out) service \<longleftrightarrow>
      (\<exists>(name, namespace, _) \<in> set ns.
         carried (N (CacheReadersByNode name namespace) identity_name identity_name) ''rt/rq'' ''Request'' service type \<and>
         carried (N (CacheWritersByNode name namespace) identity_name identity_name) ''rt/rr'' ''Reply'' service type))))"
    (is "post _ ?Q")
proof -
  let ?listing = "all_listings N ns []"
  have listing: "nt_wf ?listing" "type \<in> nt_types ?listing service \<longleftrightarrow>
      (\<exists>(name, namespace, _) \<in> set ns.
         carried (N (CacheReadersByNode name namespace) identity_name identity_name) ''rt/rq'' ''Request'' service type \<and>
         carried (N (CacheWritersByNode name namespace) identity_name identity_name) ''rt/rr'' ''Reply'' service type)" for service type
    using all_listings_types [OF nt_wf_Nil, of N ns]
    by (simp_all add: node_listing_types request_query_def reply_query_def raw_names_def)
  have valid: "validate_names_and_types_arguments node (Some True) (Some True) w = Some RMW_RET_OK"
    by (simp add: validate_names_and_types_arguments_def live_node_checked(1) [OF assms(1)])
  have "post (rmw_get_service_names_and_types E node (Some True) (Some True) w) (answered w ?listing)"
    unfolding rmw_get_service_names_and_types_def valid bind.bind_lunit
    apply simp
    apply (subst post_bind)
    apply (rule refreshed [OF assms(1,2)])
     apply (simp add: answered_def)
    apply simp
    apply (rule given_start, assumption)
    apply (rule given_all_services [OF assms(3)], simp)
    done
  then show ?thesis
  proof (rule post_mono)
    fix r assume "answered w ?listing r"
    then show "?Q r" by (cases r; cases "fst r") (simp add: answered_def listing)
  qed
qed

text \<open>
  C39. Counting the servers or the clients of a service gives the number of pairs that the cache finds
  among the readers and the writers of its two topics with their types demangled to the service's, and
  leaves none of the arrays that it needed.
\<close>

theorem servers_and_clients_counted:
  assumes "live_node node nh context ci c w" "deletes_succeed E" "cache_fixed E ns N I"
  shows "post (rmw_count_services E node (Some service) True w) (counted w (I (CacheServerInfos
        (I (CacheReaderInfos (''rt/rq'' @ service @ ''Request'')) demangle_dds_service_type)
        (I (CacheWriterInfos (''rt/rr'' @ service @ ''Reply'')) demangle_dds_service_type)) identity_name)) \<and>
    post (rmw_count_clients E node (Some service) True w) (counted w (I (CacheClientInfos
        (I (CacheReaderInfos (''rt/rr'' @ service @ ''Reply'')) demangle_dds_service_type)
        (I (CacheWriterInfos (''rt/rq'' @ service @ ''Request'')) demangle_dds_service_type)) identity_name))"
proof -
  have checked: "validate_endpoint_arguments node (Some True) (Some service) (Some True) (record_call x w) = Some RMW_RET_OK" for x
    by (simp add: validate_endpoint_arguments_def live_node_checked(1) [OF live_node_record [OF assms(1)]])
  show ?thesis
    unfolding rmw_count_services_def rmw_count_clients_def found_pairs_def [symmetric]
    by (intro conjI count_services_counts [OF assms])
       (simp_all add: rmw_get_servers_info_by_service_def rmw_get_clients_info_by_service_def checked split_beta
         cong: if_cong)
qed

section \<open>Examples\<close>

text \<open>
  One node with a service \<^verbatim>\<open>/add\<close>, which one server and no client uses. The cache applies the
  demanglers it is given as \<^verbatim>\<open>rmw_dds_common\<close> does: a topic whose demangled name is empty is left out,
  and a server is a reader of requests with a writer of replies of the same demangled type. An endpoint
  is told by the length of that type.
\<close>

definition demangled_names ::
  "(string \<Rightarrow> string) \<Rightarrow> (string \<Rightarrow> string) \<Rightarrow> (string \<times> string list) list \<Rightarrow> (string \<times> string list) list" where
  "demangled_names topic type names = [(topic n, map type ts). (n, ts) \<leftarrow> names, topic n \<noteq> '''']"

definition serving_names :: names_of where
  "serving_names c topic type = demangled_names topic type (case c of
      CacheReadersByNode _ _ \<Rightarrow> [(''rt/rq/addRequest'', [''demo::srv::dds_::Add_Request_''])]
    | _ \<Rightarrow> [(''rt/rr/addReply'', [''demo::srv::dds_::Add_Response_''])])"

definition serving_infos :: infos_of where
  "serving_infos c type = (case c of
      CacheReaderInfos t \<Rightarrow> if t = ''rt/rq/addRequest'' then [length (type ''demo::srv::dds_::Add_Request_'')] else []
    | CacheWriterInfos t \<Rightarrow> if t = ''rt/rr/addReply'' then [length (type ''demo::srv::dds_::Add_Response_'')] else []
    | CacheServerInfos rs ws \<Rightarrow> [r \<leftarrow> rs. r \<in> set ws]
    | CacheClientInfos rs ws \<Rightarrow> [r \<leftarrow> rs. r \<in> set ws]
    | _ \<Rightarrow> [])"

definition serving :: env where
  "serving = all_succeed\<lparr>node_names_answer := (\<lambda>_ _. [(''calc'', ''/'', '''')]),
     names_answer := (\<lambda>_. serving_names), infos_answer := (\<lambda>_. serving_infos)\<rparr>"

lemma serving_fixed:
  "cache_fixed serving [(''calc'', ''/'', '''')] serving_names serving_infos" "deletes_succeed serving"
  by (simp_all add: cache_fixed_def serving_def deletes_succeed_def all_succeed_def)

lemma serving_demangled:
  "demangle_dds_service_type ''demo::srv::dds_::Add_Request_'' = ''demo/srv/Add''"
  "demangle_dds_service_type ''demo::srv::dds_::Add_Response_'' = ''demo/srv/Add''"
  by code_simp+

theorem all_services_listed_witness:
  "post (rmw_get_service_names_and_types serving 3 (Some True) (Some True) node_world) (\<lambda>((ret, out), w').
     ret = RMW_RET_OK \<longrightarrow> ''demo/srv/Add'' \<in> nt_types (snd out) ''/add'')"
  using all_services_listed [OF node_world_live serving_fixed(2,1)]
  by (rule post_mono)
     (auto simp: serving_names_def demangled_names_def identity_name_def carried_def carries_def serving_demangled)

theorem servers_and_clients_counted_witness:
  "post (rmw_count_services serving 3 (Some ''/add'') True node_world) (counted node_world [12]) \<and>
   post (rmw_count_clients serving 3 (Some ''/add'') True node_world) (counted node_world [])"
  using servers_and_clients_counted [OF node_world_live serving_fixed(2,1), of "''/add''"]
  by (simp add: serving_infos_def serving_demangled eval_nat_numeral)

end
