(* ===== verification/Unsupported.thy ===== *)
theory Unsupported
  imports Prelude
begin

text \<open>
  The entry points without a behaviour of their own: those that \<^verbatim>\<open>unsupported.cpp\<close> answers for all
  arguments alike, and the constants of \<^verbatim>\<open>identifier.cpp\<close>.
\<close>

datatype unsupported_operation =
    rmw_init_publisher_allocation | rmw_fini_publisher_allocation | rmw_publisher_assert_liveliness
  | rmw_get_serialized_message_size | rmw_init_subscription_allocation | rmw_fini_subscription_allocation
  | rmw_publisher_get_network_flow_endpoints | rmw_subscription_get_network_flow_endpoints
  | rmw_subscription_set_on_new_message_callback | rmw_service_set_on_new_request_callback
  | rmw_client_set_on_new_response_callback | rmw_take_dynamic_message | rmw_take_dynamic_message_with_info
  | rmw_serialization_support_init

definition unsupported :: "unsupported_operation \<Rightarrow> rmw_ret" where
  "unsupported operation = RMW_RET_UNSUPPORTED"

definition rmw_feature_supported :: "nat \<Rightarrow> bool" where
  "rmw_feature_supported feature = False"

text \<open>\<open>set_level\<close> is the logging library's function: whether it succeeded.\<close>

definition rmw_set_log_severity :: "(string \<Rightarrow> int \<Rightarrow> bool) \<Rightarrow> int \<Rightarrow> rmw_ret" where
  "rmw_set_log_severity set_level severity =
     (if set_level ''rmw_zzdds_cpp'' severity then RMW_RET_OK else RMW_RET_ERROR)"

definition rmw_get_implementation_identifier :: string where
  "rmw_get_implementation_identifier = ''rmw_zzdds_cpp''"

definition rmw_get_serialization_format :: string where
  "rmw_get_serialization_format = ''cdr''"

end
