(* ===== verification/Spec2Isabelle.thy ===== *)
theory Spec2Isabelle
  imports Qos Event_Props Wait_Props Publisher_Session Taking_Loans Service_Taking Context_Init Graph_Props
    Unsupported
begin

text \<open>
  A model of \<^verbatim>\<open>rmw_zzdds_cpp\<close>, the ROS 2 middleware layer over the zzdds DDS implementation, and of the
  type support dispatch of \<^verbatim>\<open>rosidl_typesupport_zzdds_cpp\<close>. Paths below are relative to
  \<^verbatim>\<open>src/rmw_zzdds_cpp/src\<close> unless they say otherwise.

  \<^bold>\<open>The program.\<close> The layer implements the C interface \<^verbatim>\<open>rmw\<close>. A context owns a DDS participant with one
  publisher and one subscriber; on it live nodes, publishers, subscriptions, clients and services (each
  a publisher and a subscription), guard conditions and wait sets. Every handle is a C struct that
  points to an implementation object; both are allocated by the caller's allocator and hold zzdds
  entities. Events count communication statuses under a mutex, in zzdds listeners and in the
  application's calls. Names and types are mangled on their way to DDS and back.

  \<^bold>\<open>The state.\<close> \<^verbatim>\<open>World\<close> has the whole of it: a heap from addresses to typed objects, the entities held
  outside (a multiset), the conditions attached to wait sets, and the trace of the calls made to code
  that is not in the repository (zzdds, \<^verbatim>\<open>rmw\<close>, \<^verbatim>\<open>rmw_dds_common\<close>, \<^verbatim>\<open>rcutils\<close>, the generated callbacks of a
  message type, the C++ allocator). That code is the parameter \<^verbatim>\<open>E\<close> of type \<^verbatim>\<open>env\<close>, whose answers may
  depend on the whole trace. An operation takes the world and gives its result with the new world, or
  \<^verbatim>\<open>None\<close> where the code's behaviour is undefined: a dangling pointer is followed, or something is
  released that is not held. A section under a mutex is one step.

  \<^bold>\<open>Failures.\<close> Every call of the C allocator, every creation of an entity and every return code may
  fail. A C++ container or string that grows may fail where the code catches the exception: each such
  \<^verbatim>\<open>try\<close> block is a call \<^verbatim>\<open>GrowContainer\<close>, whose refusal is its handler. A property that needs a call to
  succeed says so (\<open>deletes_succeed\<close>: deletions that zzdds does not refuse; \<open>new_guids\<close>: zzdds hands out
  unused GUIDs).

  \<^bold>\<open>Theories and code.\<close>
  \<^item> \<^verbatim>\<open>Prelude\<close>: types, machine integers, generic lemmas and the named collections.
  \<^item> \<^verbatim>\<open>Names\<close>, \<^verbatim>\<open>Name_Lemmas\<close>: mangling and demangling of topics, services and types
    (\<^verbatim>\<open>rmw_data_plane.cpp\<close>, \<^verbatim>\<open>rmw_service.cpp\<close>, \<^verbatim>\<open>rmw_graph.cpp\<close>, the type support generator). Round trips, and
    which types a listing holds for a service.
  \<^item> \<^verbatim>\<open>Durations\<close>, \<^verbatim>\<open>Qos\<close>: RMW times to DDS durations, QoS profiles to endpoint QoS and back
    (\<^verbatim>\<open>rmw_wait.cpp\<close>, \<^verbatim>\<open>rmw_data_plane.cpp\<close>). Bounds and values, agreement of the two conversions.
  \<^item> \<^verbatim>\<open>Status\<close>, \<^verbatim>\<open>Events\<close>, \<^verbatim>\<open>Event_Machine\<close>, \<^verbatim>\<open>Event_Props\<close>, \<^verbatim>\<open>Event_Api\<close>: \<^verbatim>\<open>rmw_event.cpp\<close>. The locked sections
    on one endpoint; the machine that interleaves them and its invariant; what is counted, reported and
    told; the entry points on the world.
  \<^item> \<^verbatim>\<open>World\<close>, \<^verbatim>\<open>Shared_Context\<close>: \<^verbatim>\<open>context_impl.hpp\<close>, \<^verbatim>\<open>allocator.hpp\<close> and the objects of the other headers.
  \<^item> \<^verbatim>\<open>Ledger\<close>, \<^verbatim>\<open>Ledger_Frames\<close>: the calculus in which creating operations are verified. A ledger lists what
    an operation holds beyond the memory and the entities it started with; one rule per call says how
    the list changes, so that a failing branch is right if its list is empty. The locale of a lifecycle
    is interpreted on guard conditions, wait sets, nodes and the other pairs of creation and destruction.
  \<^item> \<^verbatim>\<open>Guard_Condition\<close>, \<^verbatim>\<open>Wait_Set\<close>, \<^verbatim>\<open>Wait_Props\<close>, \<^verbatim>\<open>Node\<close>: \<^verbatim>\<open>rmw_guard_condition.cpp\<close>, \<^verbatim>\<open>rmw_wait.cpp\<close> and
    \<^verbatim>\<open>rmw_node.cpp\<close>. Lifecycles; what a wait attaches, detaches and answers, read off the calls in its trace.
  \<^item> \<^verbatim>\<open>Type_Support\<close>: \<^verbatim>\<open>type_support.cpp\<close>, \<^verbatim>\<open>rmw_serialization.cpp\<close>, \<^verbatim>\<open>message_type_support.cpp\<close>. Completeness of
    what is resolved, the effect of serialisation on the buffer.
  \<^item> \<^verbatim>\<open>Endpoints\<close>, \<^verbatim>\<open>Publisher\<close>, \<^verbatim>\<open>Publishing\<close>, \<^verbatim>\<open>Subscription\<close>, \<^verbatim>\<open>Taking\<close>: \<^verbatim>\<open>rmw_data_plane.cpp\<close>, its
    operations. \<^verbatim>\<open>Publisher_State\<close>, \<^verbatim>\<open>Publisher_Session\<close>: the state of a publisher that every operation
    keeps, sessions of any operations, loans as a set. \<^verbatim>\<open>Taking_Props\<close>, \<^verbatim>\<open>Taking_Loans\<close>: what a take gives,
    by the samples that zzdds has for the reader, and that it gives every loaned sample back.
  \<^item> \<^verbatim>\<open>Service\<close>, \<^verbatim>\<open>Service_Props\<close>, \<^verbatim>\<open>Service_Taking\<close>: \<^verbatim>\<open>rmw_service.cpp\<close>. The wire format, and the loop over the
    messages for other clients.
  \<^item> \<^verbatim>\<open>Dds_Context\<close>, \<^verbatim>\<open>Context_Init\<close>: \<^verbatim>\<open>rmw_init.cpp\<close>, the init options with the class \<^verbatim>\<open>DdsContext\<close>, and the
    initialisation, shutdown and finalisation of a context.
  \<^item> \<^verbatim>\<open>Discovery\<close>, \<^verbatim>\<open>Discovery_Props\<close>, \<^verbatim>\<open>Graph_Channel\<close>: \<^verbatim>\<open>graph_discovery.cpp\<close>. The endpoints of others, whose
    maps are folds of the samples and stay in step with the graph cache; the channel on which contexts
    announce their nodes, with its thread.
  \<^item> \<^verbatim>\<open>Graph\<close>, \<^verbatim>\<open>Graph_Props\<close>: \<^verbatim>\<open>rmw_graph.cpp\<close>. All queries; the listing of services and the counts of
    servers and clients, by the answers of the cache to the demanglers that a query passes.
  \<^item> \<^verbatim>\<open>Unsupported\<close>: \<^verbatim>\<open>unsupported.cpp\<close> and \<^verbatim>\<open>identifier.cpp\<close>, constant answers.

  \<^bold>\<open>Loops.\<close> Loops over arrays and strings are structural or have a measure. Two need not end, that of
  \<^verbatim>\<open>take_visible_sample\<close> over the samples of the context's own publications and that of
  \<^verbatim>\<open>take_service_message\<close> over the messages for other clients: they are partial functions, where not
  returning is \<^verbatim>\<open>None\<close>, and are proved to return on every finite backlog of samples.

  \<^bold>\<open>Not modelled.\<close>
  \<^item> Exceptions without a handler, which leave the layer: where the graph cache, a map or a string runs
    out of memory outside a \<^verbatim>\<open>try\<close> block (\<^verbatim>\<open>graph_discovery.cpp\<close> and most of \<^verbatim>\<open>rmw_graph.cpp\<close>).
  \<^item> The texts of error messages; a message says nothing that a return code does not.
  \<^item> The scheduling of the graph listener's thread: its rounds are steps that may come between any two
    operations, and joining it waits for its last.
  \<^item> \<^verbatim>\<open>rmw_qos.cpp\<close>, one call of \<^verbatim>\<open>rmw_dds_common\<close>; the templates of the type support generators, whose
    output fills the callback tables; tests and build files.
\<close>

end
